(* ===== verification/Rust_Str.thy ===== *)
theory Rust_Str
  imports Prelude "HOL-Library.Sublist"
begin

text \<open>
  The operations of Rust's \<open>str\<close> and integer parsing that the program uses. A \<open>str\<close> is
  the list of its UTF-8 bytes, so \<open>length\<close> is Rust's \<open>len\<close>; splitting on an ASCII
  character or searching for a UTF-8 pattern is the same on bytes as on characters.
\<close>

section \<open>Bytes\<close>

abbreviation byte :: "char \<Rightarrow> nat" where "byte c \<equiv> of_char c"

abbreviation nl :: char where "nl \<equiv> CHR 0x0A"
abbreviation cr :: char where "cr \<equiv> CHR 0x0D"
abbreviation dquote :: char where "dquote \<equiv> CHR 0x22"
abbreviation crlf :: string where "crlf \<equiv> [cr, nl]"
abbreviation ellipsis :: string where "ellipsis \<equiv> [CHR 0xE2, CHR 0x80, CHR 0xA6]"

text \<open>\<open>u8::to_ascii_lowercase\<close> sets bit 5 of the bytes from \<open>A\<close> to \<open>Z\<close>.\<close>

fun to_ascii_lower :: "char \<Rightarrow> char" where
  "to_ascii_lower (Char b0 b1 b2 b3 b4 b5 b6 b7) =
     (if 65 \<le> byte (Char b0 b1 b2 b3 b4 b5 b6 b7) \<and> byte (Char b0 b1 b2 b3 b4 b5 b6 b7) \<le> 90
      then Char b0 b1 b2 b3 b4 True b6 b7 else Char b0 b1 b2 b3 b4 b5 b6 b7)"

definition to_ascii_lowercase :: "string \<Rightarrow> string" where
  "to_ascii_lowercase s = map to_ascii_lower s"

definition eq_ignore_ascii_case :: "string \<Rightarrow> string \<Rightarrow> bool" where
  "eq_ignore_ascii_case s t \<longleftrightarrow> to_ascii_lowercase s = to_ascii_lowercase t"

section \<open>Splitting\<close>

fun split_on :: "char \<Rightarrow> string \<Rightarrow> string list" where
  "split_on c [] = [[]]"
| "split_on c (x # xs) =
     (if x = c then [] # split_on c xs
      else (case split_on c xs of [] \<Rightarrow> [[x]] | p # ps \<Rightarrow> (x # p) # ps))"

fun split_once :: "char \<Rightarrow> string \<Rightarrow> (string \<times> string) option" where
  "split_once c [] = None"
| "split_once c (x # xs) =
     (if x = c then Some ([], xs)
      else map_option (\<lambda>(a, b). (x # a, b)) (split_once c xs))"

text \<open>
  \<open>str::lines\<close>: a line ends at a newline, a carriage return just before it belongs to the
  line ending, and a last line without newline is a line only when it is not empty.
\<close>

definition strip_cr :: "string \<Rightarrow> string" where
  "strip_cr l = (if l \<noteq> [] \<and> last l = cr then butlast l else l)"

definition lines :: "string \<Rightarrow> string list" where
  "lines s = (let ps = split_on nl s
     in map strip_cr (butlast ps) @ (if last ps = [] then [] else [last ps]))"

fun join :: "string \<Rightarrow> string list \<Rightarrow> string" where
  "join sep [] = []"
| "join sep [l] = l"
| "join sep (l # l' # ls) = l @ sep @ join sep (l' # ls)"

definition replace_char :: "char \<Rightarrow> char \<Rightarrow> string \<Rightarrow> string" where
  "replace_char a b s = map (\<lambda>c. if c = a then b else c) s"

fun find_str :: "string \<Rightarrow> string \<Rightarrow> nat option" where
  "find_str p [] = (if p = [] then Some 0 else None)"
| "find_str p (x # xs) =
     (if prefix p (x # xs) then Some 0 else map_option Suc (find_str p xs))"

definition contains :: "string \<Rightarrow> string \<Rightarrow> bool" where
  "contains s p \<longleftrightarrow> find_str p s \<noteq> None"

definition starts_with :: "string \<Rightarrow> string \<Rightarrow> bool" where
  "starts_with s p \<longleftrightarrow> prefix p s"

definition split_once_str :: "string \<Rightarrow> string \<Rightarrow> (string \<times> string) option" where
  "split_once_str p s =
     (case find_str p s of None \<Rightarrow> None
      | Some i \<Rightarrow> Some (take i s, drop (i + length p) s))"

definition strip_prefix :: "string \<Rightarrow> string \<Rightarrow> string option" where
  "strip_prefix p s = (if prefix p s then Some (drop (length p) s) else None)"

section \<open>White space\<close>

text \<open>The UTF-8 encodings of the 25 characters of Unicode's \<open>White_Space\<close>.\<close>

definition white_space :: "string list" where
  "white_space =
     [[CHR 0x09], [CHR 0x0A], [CHR 0x0B], [CHR 0x0C], [CHR 0x0D], [CHR 0x20],
      [CHR 0xC2, CHR 0x85], [CHR 0xC2, CHR 0xA0], [CHR 0xE1, CHR 0x9A, CHR 0x80],
      [CHR 0xE2, CHR 0x80, CHR 0x80], [CHR 0xE2, CHR 0x80, CHR 0x81], [CHR 0xE2, CHR 0x80, CHR 0x82],
      [CHR 0xE2, CHR 0x80, CHR 0x83], [CHR 0xE2, CHR 0x80, CHR 0x84], [CHR 0xE2, CHR 0x80, CHR 0x85],
      [CHR 0xE2, CHR 0x80, CHR 0x86], [CHR 0xE2, CHR 0x80, CHR 0x87], [CHR 0xE2, CHR 0x80, CHR 0x88],
      [CHR 0xE2, CHR 0x80, CHR 0x89], [CHR 0xE2, CHR 0x80, CHR 0x8A], [CHR 0xE2, CHR 0x80, CHR 0xA8],
      [CHR 0xE2, CHR 0x80, CHR 0xA9], [CHR 0xE2, CHR 0x80, CHR 0xAF], [CHR 0xE2, CHR 0x81, CHR 0x9F],
      [CHR 0xE3, CHR 0x80, CHR 0x80]]"

function strip_pats :: "string list \<Rightarrow> string \<Rightarrow> string" where
  "strip_pats pats s =
     (case find (\<lambda>p. p \<noteq> [] \<and> prefix p s) pats of
        None \<Rightarrow> s
      | Some p \<Rightarrow> strip_pats pats (drop (length p) s))"
  by pat_completeness auto
termination
proof (relation "measure (\<lambda>(pats, s). length s)")
  fix pats s p
  assume "find (\<lambda>p. p \<noteq> [] \<and> prefix p s) pats = Some p"
  then have "p \<noteq> [] \<and> prefix p s" by (auto dest: find_SomeD)
  then show "((pats, drop (length p) s), pats, s) \<in> measure (\<lambda>(pats, s). length s)"
    by (auto dest: prefix_length_le simp: prefix_def)
qed simp

declare strip_pats.simps [simp del]

definition trim_start :: "string \<Rightarrow> string" where
  "trim_start s = strip_pats white_space s"

definition trim_end :: "string \<Rightarrow> string" where
  "trim_end s = rev (strip_pats (map rev white_space) (rev s))"

definition trim :: "string \<Rightarrow> string" where
  "trim s = trim_end (trim_start s)"

fun word_end :: "string \<Rightarrow> string \<times> string" where
  "word_end [] = ([], [])"
| "word_end (x # xs) =
     (if find (\<lambda>p. prefix p (x # xs)) white_space \<noteq> None then ([], x # xs)
      else (let (w, r) = word_end xs in (x # w, r)))"

text \<open>The next item of \<open>split_whitespace\<close> and what is left after it.\<close>

definition next_word :: "string \<Rightarrow> (string \<times> string) option" where
  "next_word s = (let t = trim_start s in if t = [] then None else Some (word_end t))"

section \<open>Numbers\<close>

definition digit_char :: "nat \<Rightarrow> char" where
  "digit_char d = ''0123456789ABCDEF'' ! d"

fun show_nat :: "nat \<Rightarrow> string" where
  "show_nat n = (if n < 10 then [digit_char n] else show_nat (n div 10) @ [digit_char (n mod 10)])"

declare show_nat.simps [simp del]

text \<open>The format \<open>{:02X}\<close> of a byte.\<close>

definition show_hex2 :: "u8 \<Rightarrow> string" where
  "show_hex2 b = [digit_char (unat b div 16), digit_char (unat b mod 16)]"

definition to_digit :: "nat \<Rightarrow> char \<Rightarrow> nat option" where
  "to_digit radix c =
     (let b = byte c;
          d = (if 48 \<le> b \<and> b \<le> 57 then b - 48
               else if 65 \<le> b \<and> b \<le> 90 then b - 55
               else if 97 \<le> b \<and> b \<le> 122 then b - 87 else radix)
      in if d < radix then Some d else None)"

datatype int_error_kind = Empty | InvalidDigit | PosOverflow

fun show_int_error :: "int_error_kind \<Rightarrow> string" where
  "show_int_error Empty = ''cannot parse integer from empty string''"
| "show_int_error InvalidDigit = ''invalid digit found in string''"
| "show_int_error PosOverflow = ''number too large to fit in target type''"

fun parse_digits :: "nat \<Rightarrow> nat \<Rightarrow> nat \<Rightarrow> string \<Rightarrow> int_error_kind + nat" where
  "parse_digits radix mx acc [] = Ok acc"
| "parse_digits radix mx acc (c # cs) =
     (case to_digit radix c of
        None \<Rightarrow> Err InvalidDigit
      | Some d \<Rightarrow>
          if acc * radix > mx then Err PosOverflow
          else if acc * radix + d > mx then Err PosOverflow
          else parse_digits radix mx (acc * radix + d) cs)"

text \<open>
  \<open>from_str_radix\<close> of an unsigned type with largest value \<open>mx\<close>: one leading plus sign is
  accepted before the digits, a sign alone is an invalid digit.
\<close>

definition from_str_radix :: "nat \<Rightarrow> nat \<Rightarrow> string \<Rightarrow> int_error_kind + nat" where
  "from_str_radix radix mx s =
     (if s = [] then Err Empty
      else if s = ''+'' \<or> s = ''-'' then Err InvalidDigit
      else if hd s = CHR ''+'' then parse_digits radix mx 0 (tl s)
      else parse_digits radix mx 0 s)"

definition parse_u16 :: "string \<Rightarrow> int_error_kind + u16" where
  "parse_u16 s = (case from_str_radix 10 65535 s of Err e \<Rightarrow> Err e | Ok n \<Rightarrow> Ok (of_nat n))"

definition parse_hex_u8 :: "string \<Rightarrow> int_error_kind + u8" where
  "parse_hex_u8 s = (case from_str_radix 16 255 s of Err e \<Rightarrow> Err e | Ok n \<Rightarrow> Ok (of_nat n))"

section \<open>UTF-8\<close>

definition in_range :: "nat \<Rightarrow> nat \<Rightarrow> char \<Rightarrow> bool" where
  "in_range lo hi c \<longleftrightarrow> lo \<le> byte c \<and> byte c \<le> hi"

definition cont :: "char \<Rightarrow> bool" where "cont c = in_range 128 191 c"

text \<open>The length of the well-formed character at the front of a byte string, \<open>0\<close> for none.\<close>

fun utf8_char_len :: "string \<Rightarrow> nat" where
  "utf8_char_len (a # b # c # d # s) =
     (if in_range 0 127 a then 1
      else if in_range 194 223 a \<and> cont b then 2
      else if (byte a = 224 \<and> in_range 160 191 b \<or> in_range 225 236 a \<and> cont b \<or>
               byte a = 237 \<and> in_range 128 159 b \<or> in_range 238 239 a \<and> cont b) \<and> cont c then 3
      else if (byte a = 240 \<and> in_range 144 191 b \<or> in_range 241 243 a \<and> cont b \<or>
               byte a = 244 \<and> in_range 128 143 b) \<and> cont c \<and> cont d then 4
      else 0)"
| "utf8_char_len [a, b, c] =
     (if in_range 0 127 a then 1
      else if in_range 194 223 a \<and> cont b then 2
      else if (byte a = 224 \<and> in_range 160 191 b \<or> in_range 225 236 a \<and> cont b \<or>
               byte a = 237 \<and> in_range 128 159 b \<or> in_range 238 239 a \<and> cont b) \<and> cont c then 3
      else 0)"
| "utf8_char_len [a, b] =
     (if in_range 0 127 a then 1 else if in_range 194 223 a \<and> cont b then 2 else 0)"
| "utf8_char_len [a] = (if in_range 0 127 a then 1 else 0)"
| "utf8_char_len [] = 0"

function utf8_valid :: "string \<Rightarrow> bool" where
  "utf8_valid s =
     (if s = [] then True
      else if utf8_char_len s = 0 then False
      else utf8_valid (drop (utf8_char_len s) s))"
  by pat_completeness auto
termination
  by (relation "measure length") (auto simp: neq_Nil_conv)

declare utf8_valid.simps [simp del]

definition from_utf8 :: "string \<Rightarrow> unit + string" where
  "from_utf8 s = (if utf8_valid s then Ok s else Err ())"

section \<open>Lemmas on splitting\<close>

lemma split_on_not_Nil [simp]: "split_on c s \<noteq> []"
  by (induction s) (auto split: list.splits)

lemma split_on_no_sep [str_simps]: "c \<notin> set s \<Longrightarrow> split_on c s = [s]"
  by (induction s) auto

lemma split_on_append [str_simps]:
  "c \<notin> set a \<Longrightarrow> split_on c (a @ c # b) = a # split_on c b"
  by (induction a) auto

lemma split_on_pieces: "p \<in> set (split_on c s) \<Longrightarrow> c \<notin> set p"
  by (induction s arbitrary: p) (auto split: list.splits if_splits)

lemma join_split_on: "join [c] (split_on c s) = s"
proof (induction s)
  case (Cons x xs)
  obtain p ps where ps: "split_on c xs = p # ps"
    using split_on_not_Nil by (meson neq_Nil_conv)
  with Cons show ?case by (cases ps) auto
qed simp

lemma split_on_join:
  "ls \<noteq> [] \<Longrightarrow> \<forall>l \<in> set ls. c \<notin> set l \<Longrightarrow> split_on c (join [c] ls) = ls"
  by (induction "[c]" ls rule: join.induct) (auto simp: str_simps)

lemma split_on_subset: "p \<in> set (split_on c s) \<Longrightarrow> set p \<subseteq> set s"
  by (induction s arbitrary: p) (fastforce split: list.splits if_splits)+

lemma split_once_append [str_simps]: "c \<notin> set a \<Longrightarrow> split_once c (a @ c # b) = Some (a, b)"
  by (induction a) auto

lemma split_once_SomeD: "split_once c s = Some (a, b) \<Longrightarrow> s = a @ c # b \<and> c \<notin> set a"
  by (induction s arbitrary: a) (auto split: if_splits)

lemma split_once_None_iff: "split_once c s = None \<longleftrightarrow> c \<notin> set s"
  by (induction s) auto

lemma strip_cr_subset: "set (strip_cr l) \<subseteq> set l"
  by (auto simp: strip_cr_def dest: in_set_butlastD)

lemma strip_cr_prefix: "prefix (strip_cr l) l"
  by (simp add: strip_cr_def prefixeq_butlast)

lemma strip_cr_no_cr [str_simps]: "cr \<notin> set l \<Longrightarrow> strip_cr l = l"
  using last_in_set by (fastforce simp: strip_cr_def)

lemma lines_Nil [simp]: "lines [] = []"
  by (simp add: lines_def)

lemma lines_append [str_simps]:
  "nl \<notin> set l \<Longrightarrow> lines (l @ nl # s) = strip_cr l # lines s"
  by (simp add: lines_def split_on_append Let_def)

lemma lines_last [str_simps]: "nl \<notin> set l \<Longrightarrow> l \<noteq> [] \<Longrightarrow> lines l = [l]"
  by (simp add: lines_def split_on_no_sep Let_def)

lemma lines_prefix_piece:
  "l \<in> set (lines s) \<Longrightarrow> \<exists>p \<in> set (split_on nl s). prefix l p"
  using last_in_set [OF split_on_not_Nil, of nl s]
  by (auto simp: lines_def Let_def split: if_splits dest!: in_set_butlastD intro: strip_cr_prefix)

lemma lines_no_nl: "l \<in> set (lines s) \<Longrightarrow> nl \<notin> set l"
  by (meson lines_prefix_piece set_mono_prefix split_on_pieces subsetD)

lemma lines_join:
  assumes "ls \<noteq> []" "\<forall>l \<in> set ls. nl \<notin> set l" "l \<in> set (lines (join [nl] ls))"
  shows "\<exists>l' \<in> set ls. prefix l l'"
  using lines_prefix_piece [OF assms(3)] split_on_join [OF assms(1,2)] by simp

section \<open>Lemmas on searching\<close>

lemma find_str_SomeD:
  "find_str p s = Some i \<Longrightarrow> i + length p \<le> length s \<and> take (length p) (drop i s) = p"
proof (induction s arbitrary: i)
  case (Cons x xs)
  show ?case
  proof (cases "prefix p (x # xs)")
    case True
    then obtain zs where zs: "x # xs = p @ zs" by (auto simp: prefix_def)
    have "length p \<le> length (x # xs)" "take (length p) (x # xs) = p"
      unfolding zs by simp_all
    with True Cons.prems show ?thesis by simp
  next
    case False
    with Cons show ?thesis by auto
  qed
qed (simp split: if_splits)

lemma find_str_None_iff: "find_str p s = None \<longleftrightarrow> \<not> sublist p s"
  by (induction s) (auto simp: sublist_Cons_right)

lemma contains_iff_sublist: "contains s p \<longleftrightarrow> sublist p s"
  by (simp add: contains_def find_str_None_iff)

lemma contains_append: "contains (a @ p @ b) p"
  by (auto simp: contains_iff_sublist)

lemma contains_prefix: "contains l p \<Longrightarrow> prefix l l' \<Longrightarrow> contains l' p"
  unfolding contains_iff_sublist by (meson prefix_imp_sublist sublist_order.order.trans)

lemma find_str_first [str_simps]:
  "p \<noteq> [] \<Longrightarrow> hd p \<notin> set a \<Longrightarrow> find_str p (a @ p @ b) = Some (length a)"
proof (induction a)
  case Nil
  then show ?case by (cases p) (auto simp: prefix_def)
next
  case (Cons x xs)
  then have "\<not> prefix p (x # xs @ p @ b)"
    by (cases p) auto
  with Cons show ?case by simp
qed

lemma split_once_str_first [str_simps]:
  "p \<noteq> [] \<Longrightarrow> hd p \<notin> set a \<Longrightarrow> split_once_str p (a @ p @ b) = Some (a, b)"
  by (simp add: split_once_str_def find_str_first)

lemma split_once_str_SomeD: "split_once_str p s = Some (a, b) \<Longrightarrow> s = a @ p @ b"
proof -
  assume "split_once_str p s = Some (a, b)"
  then obtain i where i: "find_str p s = Some i" "a = take i s" "b = drop (i + length p) s"
    by (auto simp: split_once_str_def split: option.splits)
  then have "drop i s = p @ b"
    using find_str_SomeD [OF i(1)]
    by (metis add.commute append_take_drop_id drop_drop)
  with i(2) show ?thesis by (metis append_take_drop_id)
qed

section \<open>Lemmas on white space\<close>

definition graph_char :: "char \<Rightarrow> bool" where
  "graph_char c \<longleftrightarrow> 33 \<le> byte c \<and> byte c \<le> 126"

lemma white_space_not_graph: "p \<in> set white_space \<Longrightarrow> p \<noteq> [] \<and> \<not> graph_char (hd p) \<and> \<not> graph_char (last p)"
  by (auto simp: white_space_def graph_char_def)

lemma strip_pats_stop:
  "s = [] \<or> (\<forall>p \<in> set pats. p \<noteq> [] \<longrightarrow> hd p \<noteq> hd s) \<Longrightarrow> strip_pats pats s = s"
  by (subst strip_pats.simps) (auto simp: find_None_iff prefix_def split: option.splits dest!: find_SomeD)

lemma strip_pats_step:
  "find (\<lambda>p. p \<noteq> [] \<and> prefix p s) pats = Some p \<Longrightarrow> strip_pats pats s = strip_pats pats (drop (length p) s)"
  by (subst strip_pats.simps) simp

lemma trim_start_graph [str_simps]: "graph_char c \<Longrightarrow> trim_start (c # s) = c # s"
  unfolding trim_start_def using white_space_not_graph by (intro strip_pats_stop) fastforce

lemma trim_end_graph [str_simps]: "graph_char c \<Longrightarrow> trim_end (s @ [c]) = s @ [c]"
proof -
  assume c: "graph_char c"
  have "strip_pats (map rev white_space) (c # rev s) = c # rev s"
    using c white_space_not_graph by (intro strip_pats_stop) (fastforce simp: hd_rev)
  then show ?thesis by (simp add: trim_end_def)
qed

lemma trim_Nil [simp]: "trim [] = []" "trim_start [] = []" "trim_end [] = []"
  by (simp_all add: trim_def trim_start_def trim_end_def strip_pats_stop)

lemma trim_graph [str_simps]:
  assumes "s = [] \<or> graph_char (hd s) \<and> graph_char (last s)"
  shows "trim s = s"
proof (cases "s = []")
  case False
  with assms have "trim_start s = s" "trim_end s = s"
    using trim_start_graph [of "hd s" "tl s"] trim_end_graph [of "last s" "butlast s"] by auto
  then show ?thesis by (simp add: trim_def)
qed simp

lemma trim_graph_all: "\<forall>c \<in> set s. graph_char c \<Longrightarrow> trim s = s"
  by (intro trim_graph) auto

lemma find_space:
  "find (\<lambda>p. p \<noteq> [] \<and> prefix p (CHR '' '' # s)) white_space = Some '' ''"
  "find (\<lambda>p. p \<noteq> [] \<and> prefix p (CHR '' '' # s)) (map rev white_space) = Some '' ''"
  by (simp_all add: white_space_def)

lemma trim_start_space [str_simps]: "trim_start (CHR '' '' # s) = trim_start s"
  using strip_pats_step [OF find_space(1)] by (simp add: trim_start_def)

lemma trim_end_space [str_simps]: "trim_end (s @ '' '') = trim_end s"
  using strip_pats_step [OF find_space(2)] by (simp add: trim_end_def)

lemma trim_space_front [str_simps]: "trim (CHR '' '' # s) = trim s"
  by (simp add: trim_def trim_start_space)

section \<open>Lemmas on numbers\<close>

lemma less_10_cases: "(d::nat) < 10 \<Longrightarrow> d \<in> {0, 1, 2, 3, 4, 5, 6, 7, 8, 9}"
  by auto

lemma less_16_cases: "(d::nat) < 16 \<Longrightarrow> d \<in> {0, 1, 2, 3, 4, 5, 6, 7, 8, 9, 10, 11, 12, 13, 14, 15}"
proof -
  assume "d < 16"
  then have "d \<in> set [0..<16]" by simp
  also have "[0..<16] = [0, 1, 2, 3, 4, 5, 6, 7, 8, 9, 10, 11, 12, 13, 14, 15 :: nat]" by code_simp
  finally show ?thesis by simp
qed

lemma to_digit_dec [simp]: "d < 10 \<Longrightarrow> to_digit 10 (digit_char d) = Some d"
  by (drule less_10_cases) (auto simp: to_digit_def digit_char_def)

lemma to_digit_hex [simp]: "d < 16 \<Longrightarrow> to_digit 16 (digit_char d) = Some d"
  by (drule less_16_cases) (auto simp: to_digit_def digit_char_def)

lemma digit_char_dec: "d < 10 \<Longrightarrow> byte (digit_char d) = 48 + d"
  by (drule less_10_cases) (auto simp: digit_char_def)

lemma digit_char_graph: "d < 16 \<Longrightarrow> graph_char (digit_char d)"
  by (drule less_16_cases) (auto simp: digit_char_def graph_char_def)

lemma to_digit_less: "to_digit r c = Some d \<Longrightarrow> d < r"
  by (auto simp: to_digit_def Let_def split: if_splits)

lemma parse_digits_append:
  "parse_digits r mx acc (a @ b) = and_then (parse_digits r mx acc a) (\<lambda>n. parse_digits r mx n b)"
  by (induction a arbitrary: acc) (auto split: option.splits)

lemma parse_digits_le: "parse_digits r mx acc s = Ok n \<Longrightarrow> acc \<le> mx \<Longrightarrow> n \<le> mx"
  by (induction s arbitrary: acc) (auto split: option.splits if_splits)

lemma show_nat_not_Nil [simp]: "show_nat n \<noteq> []"
  by (subst show_nat.simps) simp

lemma show_nat_digits: "c \<in> set (show_nat n) \<Longrightarrow> \<exists>d < 10. c = digit_char d"
proof (induction n rule: show_nat.induct)
  case (1 n)
  show ?case
  proof (cases "n < 10")
    case True
    with 1(2) show ?thesis by (subst (asm) show_nat.simps) auto
  next
    case False
    with 1(2) have "c \<in> set (show_nat (n div 10)) \<or> c = digit_char (n mod 10)"
      by (subst (asm) show_nat.simps) auto
    moreover have "n mod 10 < 10" by simp
    ultimately show ?thesis using 1(1) [OF False] by blast
  qed
qed

lemma show_nat_byte: "c \<in> set (show_nat n) \<Longrightarrow> 48 \<le> byte c \<and> byte c \<le> 57"
  using show_nat_digits digit_char_dec by fastforce

lemma show_nat_graph: "\<forall>c \<in> set (show_nat n). graph_char c"
  using show_nat_byte by (fastforce simp: graph_char_def)

lemma show_nat_notin [simp]: "\<not> (48 \<le> byte c \<and> byte c \<le> 57) \<Longrightarrow> c \<notin> set (show_nat n)"
  using show_nat_byte by blast

lemma parse_digits_show_nat: "n \<le> mx \<Longrightarrow> parse_digits 10 mx 0 (show_nat n) = Ok n"
proof (induction n rule: show_nat.induct)
  case (1 n)
  show ?case
  proof (cases "n < 10")
    case True
    with 1(2) show ?thesis by (subst show_nat.simps) simp
  next
    case False
    have "n div 10 * 10 \<le> mx" using 1(2) by linarith
    with 1 False show ?thesis
      by (subst show_nat.simps) (simp add: parse_digits_append)
  qed
qed

lemma from_str_radix_show_nat:
  assumes "n \<le> mx"
  shows "from_str_radix 10 mx (show_nat n) = Ok n"
proof -
  have hd: "hd (show_nat n) \<in> set (show_nat n)" by simp
  have "hd (show_nat n) \<noteq> CHR ''+''" "hd (show_nat n) \<noteq> CHR ''-''"
    using show_nat_byte [OF hd] by auto
  moreover from this have "show_nat n \<noteq> ''+''" "show_nat n \<noteq> ''-''" by auto
  ultimately show ?thesis
    using assms by (simp add: from_str_radix_def parse_digits_show_nat)
qed

lemma parse_u16_show_nat: "parse_u16 (show_nat (unat (w :: u16))) = Ok w"
proof -
  have "unat w \<le> 65535" using unsigned_less [of w, where ?'a = nat] by simp
  then show ?thesis by (simp add: parse_u16_def from_str_radix_show_nat)
qed

lemma show_hex2_length [simp]: "length (show_hex2 b) = 2"
  by (simp add: show_hex2_def)

lemma unat_u8_less: "unat (b :: u8) < 256"
  using unsigned_less [of b, where ?'a = nat] by simp

lemma show_hex2_chars: "c \<in> set (show_hex2 b) \<Longrightarrow> \<exists>d < 16. c = digit_char d"
proof -
  assume "c \<in> set (show_hex2 b)"
  then have "c = digit_char (unat b div 16) \<or> c = digit_char (unat b mod 16)"
    by (auto simp: show_hex2_def)
  moreover have "unat b div 16 < 16" "unat b mod 16 < 16"
    using unat_u8_less [of b] by linarith+
  ultimately show ?thesis by blast
qed

lemma digit_char_not_plus: "d < 16 \<Longrightarrow> digit_char d \<noteq> CHR ''+''"
  by (drule less_16_cases) (auto simp: digit_char_def)

lemma parse_hex_show_hex2: "parse_hex_u8 (show_hex2 b) = Ok b"
proof -
  have b: "unat b div 16 < 16" "unat b mod 16 < 16" "unat b < 256"
    "unat b div 16 * 16 \<le> 255"
    using unat_u8_less [of b] by linarith+
  have "from_str_radix 16 255 (show_hex2 b) = Ok (unat b)"
    using b digit_char_not_plus [OF b(1)] by (simp add: from_str_radix_def show_hex2_def)
  then show ?thesis by (simp add: parse_hex_u8_def)
qed

section \<open>Lemmas on UTF-8\<close>

abbreviation ascii :: "char \<Rightarrow> bool" where "ascii c \<equiv> byte c < 128"

lemma utf8_char_len_ascii: "ascii c \<Longrightarrow> utf8_char_len (c # s) = 1"
  by (cases s; cases "tl s"; cases "tl (tl s)") (auto simp: in_range_def)

lemma utf8_valid_Nil [simp]: "utf8_valid []"
  by (simp add: utf8_valid.simps)

lemma utf8_valid_ascii_Cons [simp]: "ascii c \<Longrightarrow> utf8_valid (c # s) = utf8_valid s"
  by (subst utf8_valid.simps) (simp add: utf8_char_len_ascii)

lemma utf8_valid_ascii_append [simp]: "\<forall>c \<in> set a. ascii c \<Longrightarrow> utf8_valid (a @ s) = utf8_valid s"
  by (induction a) auto

lemma utf8_valid_ascii: "\<forall>c \<in> set s. ascii c \<Longrightarrow> utf8_valid s"
  using utf8_valid_ascii_append [of s "[]"] by simp

lemma graph_ascii: "graph_char c \<Longrightarrow> ascii c"
  by (simp add: graph_char_def)

end
