(* ===== verification/Core_Types.thy ===== *)
theory Core_Types
  imports Rust_Str
begin

text \<open>
  The data types of \<open>crates/waker-core/src/lib.rs\<close>: MAC addresses with their parser and
  display, the wake target, the stages of a failure, and the states a wake attempt reports.
\<close>

section \<open>MAC addresses\<close>

text \<open>The Rust type wraps \<open>[u8; 6]\<close>: the array is a list, its length an invariant.\<close>

datatype mac_address = MacAddress (octets: "u8 list")

definition mac_wf :: "mac_address \<Rightarrow> bool" where
  "mac_wf m \<longleftrightarrow> length (octets m) = 6"

fun mac_display :: "mac_address \<Rightarrow> string" where
  "mac_display (MacAddress os) =
     show_hex2 (os ! 0) @ '':'' @ show_hex2 (os ! 1) @ '':'' @ show_hex2 (os ! 2) @ '':'' @
     show_hex2 (os ! 3) @ '':'' @ show_hex2 (os ! 4) @ '':'' @ show_hex2 (os ! 5)"

datatype parse_mac_error = ParseMacAddressError string

fun show_mac_error :: "parse_mac_error \<Rightarrow> string" where
  "show_mac_error (ParseMacAddressError s) = ''invalid MAC address: '' @ s"

text \<open>The loop of \<open>from_str\<close>, writing one octet per part.\<close>

fun mac_octets :: "string \<Rightarrow> nat \<Rightarrow> string list \<Rightarrow> u8 list \<Rightarrow> parse_mac_error + u8 list" where
  "mac_octets value idx [] os = Ok os"
| "mac_octets value idx (part # parts) os =
     (if length part \<noteq> 2 then Err (ParseMacAddressError value)
      else and_then (map_err (\<lambda>_. ParseMacAddressError value) (parse_hex_u8 part))
             (\<lambda>b. mac_octets value (idx + 1) parts (os[idx := b])))"

definition mac_from_str :: "string \<Rightarrow> parse_mac_error + mac_address" where
  "mac_from_str value =
     (let normalized = replace_char CHR ''-'' CHR '':'' value;
          parts = split_on CHR '':'' normalized
      in if length parts \<noteq> 6 then Err (ParseMacAddressError value)
         else and_then (mac_octets value 0 parts (replicate 6 0)) (\<lambda>os. Ok (MacAddress os)))"

section \<open>The wake target\<close>

record wake_target =
  target_mac :: mac_address
  probe_timeout :: duration
  probe_interval :: duration

definition wake_target_new :: "mac_address \<Rightarrow> wake_target" where
  "wake_target_new m =
     \<lparr>target_mac = m, probe_timeout = from_mins 1, probe_interval = from_millis 250\<rparr>"

section \<open>Failures\<close>

datatype wake_failure_stage =
  Configuration | Connect | ResolveTarget | WakeRequest | Probe | Timeout | Runtime

fun stage_user_message :: "wake_failure_stage \<Rightarrow> string" where
  "stage_user_message Configuration = ''Configuration is invalid''"
| "stage_user_message Connect = ''Could not connect to FRITZ!Box''"
| "stage_user_message ResolveTarget = ''Could not resolve the PC address''"
| "stage_user_message WakeRequest = ''FRITZ!Box did not accept the wake request''"
| "stage_user_message Probe = ''Could not check whether the PC is awake''"
| "stage_user_message Timeout = ''PC did not wake in time''"
| "stage_user_message Runtime = ''Waker could not start the wake operation''"

fun log_name :: "wake_failure_stage \<Rightarrow> string" where
  "log_name Configuration = ''configuration''"
| "log_name Connect = ''connect''"
| "log_name ResolveTarget = ''resolve_target''"
| "log_name WakeRequest = ''wake_request''"
| "log_name Probe = ''probe''"
| "log_name Timeout = ''timeout''"
| "log_name Runtime = ''runtime''"

record wake_failure =
  stage :: wake_failure_stage
  detail :: string

definition wake_failure_new :: "wake_failure_stage \<Rightarrow> string \<Rightarrow> wake_failure" where
  "wake_failure_new s d = \<lparr>stage = s, detail = d\<rparr>"

definition user_message :: "wake_failure \<Rightarrow> string" where
  "user_message f = stage_user_message (stage f)"

definition show_wake_failure :: "wake_failure \<Rightarrow> string" where
  "show_wake_failure f = user_message f @ '': '' @ detail f"

section \<open>States\<close>

datatype wake_state =
  Idle | Connecting | ResolvingPc | Waking | WaitingForPc (attempt: u32) | Awake
| Failed wake_failure

fun wake_label :: "wake_state \<Rightarrow> string" where
  "wake_label Idle = ''Ready''"
| "wake_label Connecting = ''Connecting'' @ ellipsis"
| "wake_label ResolvingPc = ''Finding PC'' @ ellipsis"
| "wake_label Waking = ''Sending wake request'' @ ellipsis"
| "wake_label (WaitingForPc n) =
     ''Waiting for PC'' @ ellipsis @ '' ('' @ show_nat (unat n) @ '')''"
| "wake_label Awake = ''PC awake''"
| "wake_label (Failed f) = ''Wake failed: '' @ user_message f"

text \<open>The test \<open>matches!(state, WakeState::Awake | WakeState::Failed(_))\<close> of the app.\<close>

fun is_terminal :: "wake_state \<Rightarrow> bool" where
  "is_terminal Awake = True"
| "is_terminal (Failed f) = True"
| "is_terminal _ = False"

datatype wake_backend_error = WakeBackendError string

fun show_backend_error :: "wake_backend_error \<Rightarrow> string" where
  "show_backend_error (WakeBackendError m) = m"

section \<open>Correctness of the MAC address codec\<close>

lemma mac_octets_length: "mac_octets v i parts os = Ok os' \<Longrightarrow> length os' = length os"
  by (induction v i parts os rule: mac_octets.induct) (auto simp: result_simps split: if_splits)

lemma mac_octets_parts:
  "mac_octets v i parts os = Ok os' \<Longrightarrow> i + length parts \<le> length os \<Longrightarrow>
   (\<forall>k < length parts. length (parts ! k) = 2 \<and> parse_hex_u8 (parts ! k) = Ok (os' ! (i + k))) \<and>
   (\<forall>k < i. os' ! k = os ! k)"
proof (induction v i parts os rule: mac_octets.induct)
  case (2 v i p ps os)
  then obtain b where b: "parse_hex_u8 p = Ok b" "length p = 2"
    and rest: "mac_octets v (i + 1) ps (os[i := b]) = Ok os'"
    by (auto simp: result_simps split: if_splits)
  have IH: "(\<forall>k < length ps. length (ps ! k) = 2 \<and> parse_hex_u8 (ps ! k) = Ok (os' ! (i + 1 + k))) \<and>
    (\<forall>k < i + 1. os' ! k = os[i := b] ! k)"
    using 2(1) [OF _ rest] 2(3) b by simp
  then have "os' ! i = b" using 2(3) by simp
  moreover have "\<forall>k < i. os' ! k = os ! k" using IH by simp
  ultimately show ?case
    using IH b by (auto simp: nth_Cons split: nat.splits)
qed simp

lemma mac_octets_complete:
  "\<forall>p \<in> set parts. length p = 2 \<and> is_ok (parse_hex_u8 p) \<Longrightarrow> is_ok (mac_octets v i parts os)"
  by (induction v i parts os rule: mac_octets.induct) (auto simp: result_simps)

lemma replace_dash_id: "CHR ''-'' \<notin> set s \<Longrightarrow> replace_char CHR ''-'' CHR '':'' s = s"
  by (induction s) (auto simp: replace_char_def)

lemma show_hex2_notin:
  "c \<in> {CHR ''-'', CHR '':''} \<Longrightarrow> c \<notin> set (show_hex2 b)"
proof
  assume c: "c \<in> {CHR ''-'', CHR '':''}" "c \<in> set (show_hex2 b)"
  then obtain d where "d < 16" "c = digit_char d" using show_hex2_chars by blast
  with c show False by (auto dest!: less_16_cases simp: digit_char_def)
qed

lemma mac_display_join:
  "mac_display (MacAddress [a, b, c, d, e, f]) = join '':'' (map show_hex2 [a, b, c, d, e, f])"
  by simp

lemma mac_cases:
  assumes "mac_wf m"
  obtains a b c d e f where "m = MacAddress [a, b, c, d, e, f]"
proof -
  have "length (octets m) = 6" using assms by (simp add: mac_wf_def)
  then obtain a b c d e f where "octets m = [a, b, c, d, e, f]"
    by (auto simp: numeral_eq_Suc length_Suc_conv)
  then show ?thesis using that by (metis mac_address.collapse)
qed

text \<open>\<^bold>\<open>display then parse\<close>. Every MAC address reads back from its own display.\<close>

theorem mac_display_roundtrip:
  assumes "mac_wf m"
  shows "mac_from_str (mac_display m) = Ok m"
proof -
  obtain a b c d e f where m: "m = MacAddress [a, b, c, d, e, f]"
    using mac_cases [OF assms] .
  let ?hs = "map show_hex2 [a, b, c, d, e, f]"
  have "CHR ''-'' \<notin> set (mac_display m)"
    using show_hex2_notin by (auto simp: m)
  from replace_dash_id [OF this]
  have norm: "replace_char CHR ''-'' CHR '':'' (mac_display m) = join '':'' ?hs"
    by (simp only: m mac_display_join)
  have "split_on CHR '':'' (join '':'' ?hs) = ?hs"
    using show_hex2_notin by (intro split_on_join) auto
  then show ?thesis
    unfolding mac_from_str_def Let_def norm by (simp add: parse_hex_show_hex2 m eval_nat_numeral)
qed

theorem mac_display_roundtrip_witness:
  "mac_wf (MacAddress [0xAA, 0xBB, 0, 1, 2, 0xFF]) \<and>
   mac_from_str (mac_display (MacAddress [0xAA, 0xBB, 0, 1, 2, 0xFF])) =
     Ok (MacAddress [0xAA, 0xBB, 0, 1, 2, 0xFF])"
proof -
  have "mac_wf (MacAddress [0xAA, 0xBB, 0, 1, 2, 0xFF])" by (simp add: mac_wf_def)
  then show ?thesis using mac_display_roundtrip by blast
qed


text \<open>C23: \<^bold>\<open>what the parser accepts\<close>. A string parses to an address exactly when,
  with dashes read as colons, it has six parts of two bytes each that are hexadecimal numbers,
  and then octet \<open>k\<close> of the address is the value of part \<open>k\<close>.\<close>

theorem mac_from_str_iff:
  "mac_from_str s = Ok m \<longleftrightarrow>
     (let parts = split_on CHR '':'' (replace_char CHR ''-'' CHR '':'' s) in
      length parts = 6 \<and> mac_wf m \<and>
      (\<forall>k < 6. length (parts ! k) = 2 \<and> parse_hex_u8 (parts ! k) = Ok (octets m ! k)))"
proof -
  define parts where "parts = split_on CHR '':'' (replace_char CHR ''-'' CHR '':'' s)"
  have eq: "mac_from_str s = Ok m \<longleftrightarrow>
      length parts = 6 \<and> mac_octets s 0 parts (replicate 6 0) = Ok (octets m)"
    by (cases m) (auto simp: mac_from_str_def parts_def Let_def result_simps)
  have "mac_wf m \<and> (\<forall>k < 6. length (parts ! k) = 2 \<and> parse_hex_u8 (parts ! k) = Ok (octets m ! k))"
    if "length parts = 6" "mac_octets s 0 parts (replicate 6 0) = Ok (octets m)"
    using mac_octets_parts [OF that(2)] mac_octets_length [OF that(2)] that(1)
    by (simp add: mac_wf_def)
  moreover have "mac_octets s 0 parts (replicate 6 0) = Ok (octets m)"
    if len: "length parts = 6" and wf: "mac_wf m"
      and parse: "\<forall>k < 6. length (parts ! k) = 2 \<and> parse_hex_u8 (parts ! k) = Ok (octets m ! k)"
  proof -
    have "\<forall>p \<in> set parts. length p = 2 \<and> is_ok (parse_hex_u8 p)"
      using parse len by (fastforce simp: in_set_conv_nth result_simps)
    then obtain os where os: "mac_octets s 0 parts (replicate 6 0) = Ok os"
      using mac_octets_complete by (fastforce simp: result_simps)
    have "os = octets m"
    proof (rule nth_equalityI)
      show "length os = length (octets m)"
        using mac_octets_length [OF os] wf by (simp add: mac_wf_def)
      fix k assume "k < length os"
      then have "k < 6" using mac_octets_length [OF os] by simp
      then show "os ! k = octets m ! k"
        using mac_octets_parts [OF os] parse len by simp
    qed
    with os show ?thesis by simp
  qed
  ultimately show ?thesis
    unfolding eq parts_def [symmetric] Let_def by blast
qed

theorem mac_from_str_iff_witness:
  "mac_from_str ''aa-bb-cc-dd-ee-ff'' =
     Ok (MacAddress [0xAA, 0xBB, 0xCC, 0xDD, 0xEE, 0xFF])"
  by (subst mac_from_str_iff)
     (simp add: replace_char_def mac_wf_def parse_hex_u8_def from_str_radix_def to_digit_def
        less_Suc_eq numeral_eq_Suc Let_def)

text \<open>The parser is more lenient than its error text suggests: \<open>from_str_radix\<close> takes a sign.\<close>

lemma mac_accepts_plus_sign:
  "mac_from_str ''+1:+2:+3:+4:+5:+6'' = Ok (MacAddress [1, 2, 3, 4, 5, 6])"
  by (simp add: mac_from_str_def replace_char_def parse_hex_u8_def from_str_radix_def to_digit_def
        eval_nat_numeral)

end
