(* ===== verification/Ip_Addr.thy ===== *)
theory Ip_Addr
  imports Rust_Str
begin

text \<open>
  The address types of Rust's \<open>std::net\<close> as far as the program uses them: \<open>Ipv4Addr\<close>,
  \<open>Ipv6Addr\<close>, \<open>IpAddr\<close>, \<open>SocketAddr\<close> and \<open>SocketAddrV4\<close>, their classification
  methods, \<open>Display\<close> and \<open>FromStr\<close>. The parser follows the standard library's
  recursive-descent parser: each reader consumes a prefix or fails.
\<close>

datatype ipv4 = Ipv4 u8 u8 u8 u8

datatype ipv6 = Ipv6 u16 u16 u16 u16 u16 u16 u16 u16

datatype ip_addr = V4 ipv4 | V6 ipv6

text \<open>A V6 socket address carries its scope id; the flow label is never read.\<close>

datatype socket_addr = SocketV4 ipv4 u16 | SocketV6 ipv6 u16 u32

type_synonym socket_addr_v4 = "ipv4 \<times> u16"

fun socket_ip :: "socket_addr \<Rightarrow> ip_addr" where
  "socket_ip (SocketV4 a p) = V4 a"
| "socket_ip (SocketV6 a p s) = V6 a"

section \<open>Classification\<close>

fun to_ipv4_mapped :: "ipv6 \<Rightarrow> ipv4 option" where
  "to_ipv4_mapped (Ipv6 a b c d e f g h) =
     (if a = 0 \<and> b = 0 \<and> c = 0 \<and> d = 0 \<and> e = 0 \<and> f = 0xFFFF
      then Some (Ipv4 (ucast (drop_bit 8 g)) (ucast g) (ucast (drop_bit 8 h)) (ucast h))
      else None)"

fun is_unspecified :: "ip_addr \<Rightarrow> bool" where
  "is_unspecified (V4 a) = (a = Ipv4 0 0 0 0)"
| "is_unspecified (V6 a) = (a = Ipv6 0 0 0 0 0 0 0 0)"

fun is_loopback :: "ip_addr \<Rightarrow> bool" where
  "is_loopback (V4 (Ipv4 a b c d)) = (a = 127)"
| "is_loopback (V6 a) = (a = Ipv6 0 0 0 0 0 0 0 1)"

fun is_multicast :: "ip_addr \<Rightarrow> bool" where
  "is_multicast (V4 (Ipv4 a b c d)) = (224 \<le> a \<and> a \<le> 239)"
| "is_multicast (V6 (Ipv6 a b c d e f g h)) = (drop_bit 8 a = 0xFF)"

section \<open>Display\<close>

fun show_ipv4 :: "ipv4 \<Rightarrow> string" where
  "show_ipv4 (Ipv4 a b c d) =
     show_nat (unat a) @ ''.'' @ show_nat (unat b) @ ''.'' @
     show_nat (unat c) @ ''.'' @ show_nat (unat d)"

fun show_hex :: "nat \<Rightarrow> string" where
  "show_hex n =
     (if n < 16 then [''0123456789abcdef'' ! n] else show_hex (n div 16) @ [''0123456789abcdef'' ! (n mod 16)])"

declare show_hex.simps [simp del]

text \<open>The first longest run of zero groups, as its start and length.\<close>

fun zero_run :: "nat \<Rightarrow> nat \<times> nat \<Rightarrow> nat \<times> nat \<Rightarrow> u16 list \<Rightarrow> nat \<times> nat" where
  "zero_run i best cur [] = best"
| "zero_run i best cur (g # gs) =
     (if g = 0 then
        let cur' = (if snd cur = 0 then i else fst cur, snd cur + 1)
        in zero_run (i + 1) (if snd cur' > snd best then cur' else best) cur' gs
      else zero_run (i + 1) best (0, 0) gs)"

fun show_ipv6 :: "ipv6 \<Rightarrow> string" where
  "show_ipv6 (Ipv6 a b c d e f g h) =
     (case to_ipv4_mapped (Ipv6 a b c d e f g h) of
        Some v \<Rightarrow> ''::ffff:'' @ show_ipv4 v
      | None \<Rightarrow>
          let gs = [a, b, c, d, e, f, g, h];
              seg = (\<lambda>x :: u16. show_hex (unat x));
              (i, n) = zero_run 0 (0, 0) (0, 0) gs
          in if n > 1
             then join '':'' (map seg (take i gs)) @ ''::'' @ join '':'' (map seg (drop (i + n) gs))
             else join '':'' (map seg gs))"

fun show_ip :: "ip_addr \<Rightarrow> string" where
  "show_ip (V4 a) = show_ipv4 a"
| "show_ip (V6 a) = show_ipv6 a"

fun show_socket_v4 :: "socket_addr_v4 \<Rightarrow> string" where
  "show_socket_v4 (a, p) = show_ipv4 a @ '':'' @ show_nat (unat p)"

section \<open>Parsing\<close>

fun read_digits :: "nat \<Rightarrow> nat \<Rightarrow> nat option \<Rightarrow> nat \<Rightarrow> nat \<Rightarrow> string \<Rightarrow> (nat \<times> nat \<times> string) option" where
  "read_digits radix mx maxd acc cnt [] = Some (acc, cnt, [])"
| "read_digits radix mx maxd acc cnt (c # cs) =
     (case to_digit radix c of
        None \<Rightarrow> Some (acc, cnt, c # cs)
      | Some d \<Rightarrow>
          if acc * radix > mx \<or> acc * radix + d > mx then None
          else if maxd \<noteq> None \<and> cnt + 1 > the maxd then None
          else read_digits radix mx maxd (acc * radix + d) (cnt + 1) cs)"

definition read_number :: "nat \<Rightarrow> nat \<Rightarrow> nat option \<Rightarrow> bool \<Rightarrow> string \<Rightarrow> (nat \<times> string) option" where
  "read_number radix mx maxd allow_zero_prefix s =
     (case read_digits radix mx maxd 0 0 s of
        None \<Rightarrow> None
      | Some (v, cnt, rest) \<Rightarrow>
          if cnt = 0 then None
          else if \<not> allow_zero_prefix \<and> take 1 s = ''0'' \<and> cnt > 1 then None
          else Some (v, rest))"

fun read_char :: "char \<Rightarrow> string \<Rightarrow> string option" where
  "read_char c [] = None"
| "read_char c (x # xs) = (if x = c then Some xs else None)"

definition read_octet :: "string \<Rightarrow> (u8 \<times> string) option" where
  "read_octet s = map_option (\<lambda>(v, r). (of_nat v, r)) (read_number 10 255 (Some 3) False s)"

definition read_dot_octet :: "string \<Rightarrow> (u8 \<times> string) option" where
  "read_dot_octet s = Option.bind (read_char CHR ''.'' s) read_octet"

definition read_ipv4 :: "string \<Rightarrow> (ipv4 \<times> string) option" where
  "read_ipv4 s =
     Option.bind (read_octet s) (\<lambda>(a, s).
     Option.bind (read_dot_octet s) (\<lambda>(b, s).
     Option.bind (read_dot_octet s) (\<lambda>(c, s).
     Option.bind (read_dot_octet s) (\<lambda>(d, s). Some (Ipv4 a b c d, s)))))"

definition parse_ipv4 :: "string \<Rightarrow> ipv4 option" where
  "parse_ipv4 s =
     (if length s > 15 then None
      else case read_ipv4 s of Some (a, []) \<Rightarrow> Some a | _ \<Rightarrow> None)"

definition addr_parse_error_v4 :: string where
  "addr_parse_error_v4 = ''invalid IPv4 address syntax''"

text \<open>Groups of a V6 address; \<open>n\<close> slots are left and \<open>i\<close> counts the ones read.\<close>

definition read_sep :: "nat \<Rightarrow> (string \<Rightarrow> ('a \<times> string) option) \<Rightarrow> string \<Rightarrow> ('a \<times> string) option" where
  "read_sep i inner s = (if i = 0 then inner s else Option.bind (read_char CHR '':'' s) inner)"

fun v4_groups :: "ipv4 \<Rightarrow> u16 list" where
  "v4_groups (Ipv4 a b c d) = [ucast a * 256 + ucast b, ucast c * 256 + ucast d]"

fun read_groups :: "nat \<Rightarrow> nat \<Rightarrow> string \<Rightarrow> u16 list \<times> bool \<times> string" where
  "read_groups 0 i s = ([], False, s)"
| "read_groups (Suc n) i s =
     (case (if n = 0 then None else read_sep i read_ipv4 s) of
        Some (v, r) \<Rightarrow> (v4_groups v, True, r)
      | None \<Rightarrow>
          (case read_sep i (read_number 16 65535 (Some 4) True) s of
             None \<Rightarrow> ([], False, s)
           | Some (g, r) \<Rightarrow>
               (let (gs, v4, r') = read_groups n (i + 1) r in (of_nat g # gs, v4, r'))))"

fun to_ipv6 :: "u16 list \<Rightarrow> ipv6 option" where
  "to_ipv6 [a, b, c, d, e, f, g, h] = Some (Ipv6 a b c d e f g h)"
| "to_ipv6 _ = None"

definition read_ipv6 :: "string \<Rightarrow> (ipv6 \<times> string) option" where
  "read_ipv6 s =
     (let (head, v4, r) = read_groups 8 0 s in
      if length head = 8 then map_option (\<lambda>a. (a, r)) (to_ipv6 head)
      else if v4 then None
      else Option.bind (read_char CHR '':'' r) (\<lambda>r.
           Option.bind (read_char CHR '':'' r) (\<lambda>r.
             let (tail, _, r') = read_groups (8 - (length head + 1)) 0 r in
             map_option (\<lambda>a. (a, r'))
               (to_ipv6 (head @ replicate (8 - length head - length tail) 0 @ tail)))))"

definition read_port :: "string \<Rightarrow> (u16 \<times> string) option" where
  "read_port s = Option.bind (read_char CHR '':'' s)
     (\<lambda>s. map_option (\<lambda>(v, r). (of_nat v, r)) (read_number 10 65535 None True s))"

definition read_scope :: "string \<Rightarrow> u32 \<times> string" where
  "read_scope s =
     (case Option.bind (read_char CHR ''%'' s) (read_number 10 4294967295 None True) of
        Some (v, r) \<Rightarrow> (of_nat v, r) | None \<Rightarrow> (0, s))"

definition read_socket_v4 :: "string \<Rightarrow> (socket_addr \<times> string) option" where
  "read_socket_v4 s = Option.bind (read_ipv4 s) (\<lambda>(a, s).
     Option.bind (read_port s) (\<lambda>(p, s). Some (SocketV4 a p, s)))"

definition read_socket_v6 :: "string \<Rightarrow> (socket_addr \<times> string) option" where
  "read_socket_v6 s = Option.bind (read_char CHR ''['' s) (\<lambda>s.
     Option.bind (read_ipv6 s) (\<lambda>(a, s).
     let (scope, s) = read_scope s in
     Option.bind (read_char CHR '']'' s) (\<lambda>s.
     Option.bind (read_port s) (\<lambda>(p, s). Some (SocketV6 a p scope, s)))))"

definition parse_socket_addr :: "string \<Rightarrow> socket_addr option" where
  "parse_socket_addr s =
     (case (case read_socket_v4 s of None \<Rightarrow> read_socket_v6 s | r \<Rightarrow> r) of
        Some (a, []) \<Rightarrow> Some a | _ \<Rightarrow> None)"

section \<open>A V4 address reads back from its display\<close>

lemma read_digits_stop:
  "rest = [] \<or> to_digit r (hd rest) = None \<Longrightarrow> read_digits r mx maxd acc cnt rest = Some (acc, cnt, rest)"
  by (cases rest) auto

lemma show_nat_3:
  assumes "n < 256"
  shows "show_nat n =
    (if n < 10 then [digit_char n]
     else if n < 100 then [digit_char (n div 10), digit_char (n mod 10)]
     else [digit_char (n div 100), digit_char (n div 10 mod 10), digit_char (n mod 10)])"
proof -
  have "n div 10 div 10 = n div 100" by (simp add: div_mult2_eq [symmetric])
  then show ?thesis
    using assms by (subst show_nat.simps, subst show_nat.simps, subst show_nat.simps) auto
qed

lemma digit_char_zero: "d < 10 \<Longrightarrow> digit_char d = CHR ''0'' \<longleftrightarrow> d = 0"
  by (drule less_10_cases) (auto simp: digit_char_def)

lemma read_octet_show:
  assumes rest: "rest = [] \<or> to_digit 10 (hd rest) = None"
  shows "read_octet (show_nat (unat b) @ rest) = Some (b, rest)"
proof -
  define n where "n = unat b"
  have n: "n < 256" using unat_u8_less n_def by simp
  have parts: "n div 100 < 10" "n div 10 mod 10 < 10" "n mod 10 < 10" "n div 10 \<le> 25"
    using n by linarith+
  have "n div 100 = n div 10 div 10" by (simp add: div_mult2_eq [symmetric])
  then have eq: "n div 100 * 10 + n div 10 mod 10 = n div 10" "n div 10 * 10 + n mod 10 = n"
    by simp_all
  have "read_number 10 255 (Some 3) False (show_nat n @ rest) = Some (n, rest)"
  proof -
    consider "n < 10" | "10 \<le> n" "n < 100" | "100 \<le> n" by linarith
    then show ?thesis
    proof cases
      case 1
      then show ?thesis using n rest
        by (simp add: show_nat_3 read_number_def read_digits_stop)
    next
      case 2
      then have "n div 10 < 10" "n div 10 \<noteq> 0" by linarith+
      with 2 show ?thesis using n rest parts eq
        by (simp add: show_nat_3 read_number_def read_digits_stop digit_char_zero)
    next
      case 3
      then have "n div 100 \<noteq> 0" "\<not> n < 10" "\<not> n < 100" by linarith+
      then show ?thesis using n rest parts(1-3) eq
        by (simp add: show_nat_3 read_number_def read_digits_stop digit_char_zero, arith)
    qed
  qed
  then show ?thesis
    by (simp add: read_octet_def n_def)
qed

lemma read_ipv4_show:
  assumes "rest = [] \<or> to_digit 10 (hd rest) = None"
  shows "read_ipv4 (show_ipv4 a @ rest) = Some (a, rest)"
  using assms
  by (cases a) (simp add: read_ipv4_def read_dot_octet_def read_octet_show to_digit_def)

lemma length_show_octet: "length (show_nat (unat (b :: u8))) \<le> 3"
  using unat_u8_less [of b] by (simp add: show_nat_3)

lemma length_show_ipv4: "length (show_ipv4 a) \<le> 15"
proof (cases a)
  case (Ipv4 p q r s)
  have "length (show_nat (unat p)) \<le> 3" "length (show_nat (unat q)) \<le> 3"
    "length (show_nat (unat r)) \<le> 3" "length (show_nat (unat s)) \<le> 3"
    by (simp_all add: length_show_octet)
  with Ipv4 show ?thesis by simp
qed

lemma parse_show_ipv4: "parse_ipv4 (show_ipv4 a) = Some a"
  using length_show_ipv4 [of a] read_ipv4_show [of "[]" a]
  by (simp add: parse_ipv4_def)

lemma show_ipv4_graph: "\<forall>c \<in> set (show_ipv4 a). graph_char c"
  using show_nat_graph by (cases a) (auto simp: graph_char_def)

lemma show_ipv4_byte: "c \<in> set (show_ipv4 a) \<Longrightarrow> 46 \<le> byte c \<and> byte c \<le> 57"
  by (cases a) (auto dest: show_nat_byte)

end
