(* ===== verification/Run_Wake.thy ===== *)
theory Run_Wake
  imports Core_Types Ip_Addr
begin

text \<open>
  The wake state machine \<open>run_wake\<close> of \<open>crates/waker-core/src/lib.rs\<close>. The trait
  \<open>WakeBackend\<close>, the \<open>report\<close> closure and the tokio clock are operations on one world
  state: each returns the world after the call. The polling loop may run for ever, so its
  result is an option, and the locale \<open>wake_clock\<close> holds what makes it return.
\<close>

section \<open>The model\<close>

record 'w wake_env =
  env_connect :: "'w \<Rightarrow> (wake_backend_error + unit) \<times> 'w"
  env_resolve :: "mac_address \<Rightarrow> 'w \<Rightarrow> (wake_backend_error + ipv4) \<times> 'w"
  env_send_wake :: "mac_address \<Rightarrow> 'w \<Rightarrow> (wake_backend_error + unit) \<times> 'w"
  env_probe :: "ipv4 \<Rightarrow> 'w \<Rightarrow> (wake_backend_error + bool) \<times> 'w"
  env_disconnect :: "'w \<Rightarrow> 'w"
  env_report :: "wake_state \<Rightarrow> 'w \<Rightarrow> 'w"
  env_now :: "'w \<Rightarrow> instant"
  env_sleep :: "duration \<Rightarrow> 'w \<Rightarrow> 'w"

definition stage_error :: "wake_failure_stage \<Rightarrow> wake_backend_error \<Rightarrow> wake_failure" where
  "stage_error s e = wake_failure_new s (show_backend_error e)"

definition timeout_failure :: "wake_target \<Rightarrow> wake_failure" where
  "timeout_failure t = wake_failure_new Timeout
     (''PC did not become reachable within '' @ show_nat (as_secs (probe_timeout t)) @ '' seconds'')"

text \<open>
  One turn of the polling loop, its number \<open>n\<close> already counted up: \<open>Some result\<close> leaves
  the loop, \<open>None\<close> has slept and goes round again. The test of the elapsed time comes after
  the probe.
\<close>

definition wake_round ::
  "'w wake_env \<Rightarrow> wake_target \<Rightarrow> ipv4 \<Rightarrow> instant \<Rightarrow> u32 \<Rightarrow> 'w \<Rightarrow> (wake_failure + unit) option \<times> 'w"
where
  "wake_round E t address started n w =
     (case env_probe E address (env_report E (WaitingForPc n) w) of
        (Err e, w) \<Rightarrow> (Some (Err (stage_error Probe e)), w)
      | (Ok reachable, w) \<Rightarrow>
          if reachable then (Some (Ok ()), env_report E Awake w)
          else if env_now E w - started \<ge> probe_timeout t then (Some (Err (timeout_failure t)), w)
          else (None, env_sleep E (probe_interval t) w))"

partial_function (option) wake_loop ::
  "'w wake_env \<Rightarrow> wake_target \<Rightarrow> ipv4 \<Rightarrow> instant \<Rightarrow> u32 \<Rightarrow> 'w \<Rightarrow> ((wake_failure + unit) \<times> 'w) option"
where
  "wake_loop E t address started n w =
     (let n' = saturating_add n 1;
          turn = wake_round E t address started n' w
      in case fst turn of
           Some result \<Rightarrow> Some (result, snd turn)
         | None \<Rightarrow> wake_loop E t address started n' (snd turn))"

text \<open>The inner \<open>async\<close> block, up to its first error.\<close>

definition wake_attempt ::
  "'w wake_env \<Rightarrow> wake_target \<Rightarrow> 'w \<Rightarrow> ((wake_failure + unit) \<times> 'w) option" where
  "wake_attempt E t w =
     (case env_connect E w of
        (Err e, w) \<Rightarrow> Some (Err (stage_error Connect e), w)
      | (Ok _, w) \<Rightarrow>
     (case env_resolve E (target_mac t) (env_report E ResolvingPc w) of
        (Err e, w) \<Rightarrow> Some (Err (stage_error ResolveTarget e), w)
      | (Ok address, w) \<Rightarrow>
     (case env_send_wake E (target_mac t) (env_report E Waking w) of
        (Err e, w) \<Rightarrow> Some (Err (stage_error WakeRequest e), w)
      | (Ok _, w) \<Rightarrow> wake_loop E t address (env_now E w) 0 w)))"

definition run_wake ::
  "'w wake_env \<Rightarrow> wake_target \<Rightarrow> 'w \<Rightarrow> ((wake_failure + unit) \<times> 'w) option" where
  "run_wake E t w =
     (case wake_attempt E t (env_report E Connecting w) of
        None \<Rightarrow> None
      | Some (result, w) \<Rightarrow>
          let w = env_disconnect E w in
          (case result of
             Err f \<Rightarrow> Some (result, env_report E (Failed f) w)
           | Ok _ \<Rightarrow> Some (result, w)))"

section \<open>Traces\<close>

text \<open>
  An observer of the calls: \<open>traced E\<close> does what \<open>E\<close> does and appends every call with
  its answer to a log.
\<close>

datatype wake_event =
  Reported wake_state
| Connected "wake_backend_error + unit"
| Resolved mac_address "wake_backend_error + ipv4"
| WakeSent mac_address "wake_backend_error + unit"
| Probed ipv4 "wake_backend_error + bool"
| Disconnected
| Slept duration

definition traced :: "'w wake_env \<Rightarrow> ('w \<times> wake_event list) wake_env" where
  "traced E = \<lparr>
     env_connect = (\<lambda>(w, tr). let (r, w') = env_connect E w in (r, w', tr @ [Connected r])),
     env_resolve = (\<lambda>m (w, tr). let (r, w') = env_resolve E m w in (r, w', tr @ [Resolved m r])),
     env_send_wake = (\<lambda>m (w, tr). let (r, w') = env_send_wake E m w in (r, w', tr @ [WakeSent m r])),
     env_probe = (\<lambda>a (w, tr). let (r, w') = env_probe E a w in (r, w', tr @ [Probed a r])),
     env_disconnect = (\<lambda>(w, tr). (env_disconnect E w, tr @ [Disconnected])),
     env_report = (\<lambda>s (w, tr). (env_report E s w, tr @ [Reported s])),
     env_now = (\<lambda>(w, tr). env_now E w),
     env_sleep = (\<lambda>d (w, tr). (env_sleep E d w, tr @ [Slept d]))\<rparr>"

text \<open>
  The protocol of one wake attempt, as a deterministic automaton over events. \<open>Done r\<close> is
  its only accepting kind of state and carries the result the attempt must return.
\<close>

datatype phase =
  Fresh | Announced | Linked | Resolving | Located ipv4 | Sending ipv4
| Ready ipv4 u32 | Trying ipv4 u32 | Missed ipv4 u32
| Reached | Celebrated | Failing wake_failure | Cleaned wake_failure | Done "wake_failure + unit"

fun next_phase :: "wake_target \<Rightarrow> phase \<Rightarrow> wake_event \<Rightarrow> phase option" where
  "next_phase t Fresh e = (if e = Reported Connecting then Some Announced else None)"
| "next_phase t Announced e =
     (case e of
        Connected (Ok _) \<Rightarrow> Some Linked
      | Connected (Err x) \<Rightarrow> Some (Failing (stage_error Connect x))
      | _ \<Rightarrow> None)"
| "next_phase t Linked e = (if e = Reported ResolvingPc then Some Resolving else None)"
| "next_phase t Resolving e =
     (case e of
        Resolved m r \<Rightarrow>
          if m \<noteq> target_mac t then None
          else (case r of Ok a \<Rightarrow> Some (Located a)
                | Err x \<Rightarrow> Some (Failing (stage_error ResolveTarget x)))
      | _ \<Rightarrow> None)"
| "next_phase t (Located a) e = (if e = Reported Waking then Some (Sending a) else None)"
| "next_phase t (Sending a) e =
     (case e of
        WakeSent m r \<Rightarrow>
          if m \<noteq> target_mac t then None
          else (case r of Ok _ \<Rightarrow> Some (Ready a 0)
                | Err x \<Rightarrow> Some (Failing (stage_error WakeRequest x)))
      | _ \<Rightarrow> None)"
| "next_phase t (Ready a n) e =
     (if e = Reported (WaitingForPc (saturating_add n 1))
      then Some (Trying a (saturating_add n 1)) else None)"
| "next_phase t (Trying a n) e =
     (case e of
        Probed b r \<Rightarrow>
          if b \<noteq> a then None
          else (case r of Ok reachable \<Rightarrow> Some (if reachable then Reached else Missed a n)
                | Err x \<Rightarrow> Some (Failing (stage_error Probe x)))
      | _ \<Rightarrow> None)"
| "next_phase t (Missed a n) e =
     (if e = Slept (probe_interval t) then Some (Ready a n)
      else if e = Disconnected then Some (Cleaned (timeout_failure t)) else None)"
| "next_phase t Reached e = (if e = Reported Awake then Some Celebrated else None)"
| "next_phase t Celebrated e = (if e = Disconnected then Some (Done (Ok ())) else None)"
| "next_phase t (Failing f) e = (if e = Disconnected then Some (Cleaned f) else None)"
| "next_phase t (Cleaned f) e = (if e = Reported (Failed f) then Some (Done (Err f)) else None)"
| "next_phase t (Done r) e = None"

fun phases :: "wake_target \<Rightarrow> phase \<Rightarrow> wake_event list \<Rightarrow> phase option" where
  "phases t p [] = Some p"
| "phases t p (e # es) = Option.bind (next_phase t p e) (\<lambda>q. phases t q es)"

fun reports :: "wake_event list \<Rightarrow> wake_state list" where
  "reports [] = []"
| "reports (Reported s # es) = s # reports es"
| "reports (_ # es) = reports es"

section \<open>Reasoning about the loop\<close>

text \<open>
  A returning loop is a run of turns: an invariant that every turn which goes round keeps holds
  at the last one. All facts about returned values below come from this rule.
\<close>

lemma wake_loop_rule:
  assumes "wake_loop E t a st n w = Some (r, w')"
    and "I n w"
    and go: "\<And>n w w2. I n w \<Longrightarrow> wake_round E t a st (saturating_add n 1) w = (None, w2) \<Longrightarrow>
      I (saturating_add n 1) w2"
    and stop: "\<And>n w r w2. I n w \<Longrightarrow> wake_round E t a st (saturating_add n 1) w = (Some r, w2) \<Longrightarrow> Q r w2"
  shows "Q r w'"
proof -
  have "E' = E \<and> t' = t \<and> a' = a \<and> st' = st \<longrightarrow> I n w \<longrightarrow> Q (fst x) (snd x)"
    if "wake_loop E' t' a' st' n w = Some x" for E' t' a' st' n w x
  proof (rule wake_loop.raw_induct
      [where P = "\<lambda>E' t' a' st' n w x. E' = E \<and> t' = t \<and> a' = a \<and> st' = st \<longrightarrow> I n w \<longrightarrow> Q (fst x) (snd x)",
       OF _ that], intro impI, elim conjE)
    fix f :: "'a wake_env \<Rightarrow> _" and E' t' a' st' n w x
    assume IH: "\<And>E' t' a' st' n w x. f E' t' a' st' n w = Some x \<Longrightarrow>
        E' = E \<and> t' = t \<and> a' = a \<and> st' = st \<longrightarrow> I n w \<longrightarrow> Q (fst x) (snd x)"
      and eq: "(let n' = saturating_add n 1; turn = wake_round E' t' a' st' n' w
        in case fst turn of None \<Rightarrow> f E' t' a' st' n' (snd turn) | Some r \<Rightarrow> Some (r, snd turn)) = Some x"
      and same: "E' = E" "t' = t" "a' = a" "st' = st" and inv: "I n w"
    obtain res w2 where turn: "wake_round E t a st (saturating_add n 1) w = (res, w2)" by force
    show "Q (fst x) (snd x)"
    proof (cases res)
      case None
      with eq turn same have "f E t a st (saturating_add n 1) w2 = Some x" by simp
      with IH go [OF inv] turn None show ?thesis by blast
    next
      case (Some r)
      with eq turn same stop [OF inv] show ?thesis by auto
    qed
  qed
  with assms(1,2) show ?thesis by fastforce
qed

lemma wake_loop_unfold:
  "wake_loop E t a st n w =
     (case wake_round E t a st (saturating_add n 1) w of
        (Some r, w2) \<Rightarrow> Some (r, w2)
      | (None, w2) \<Rightarrow> wake_loop E t a st (saturating_add n 1) w2)"
  by (subst wake_loop.simps) (simp add: Let_def split_beta split: option.splits prod.splits)

lemma phases_append: "phases t p (a @ b) = Option.bind (phases t p a) (\<lambda>q. phases t q b)"
  by (induction a arbitrary: p) (auto split: bind_splits)

lemma reports_append [simp]: "reports (a @ b) = reports a @ reports b"
  by (induction a rule: reports.induct) auto

section \<open>Observing does not change the run\<close>

lemma traced_sel [simp]:
  "env_connect (traced E) (w, tr) = (case env_connect E w of (r, w') \<Rightarrow> (r, w', tr @ [Connected r]))"
  "env_resolve (traced E) m (w, tr) = (case env_resolve E m w of (r, w') \<Rightarrow> (r, w', tr @ [Resolved m r]))"
  "env_send_wake (traced E) m (w, tr) = (case env_send_wake E m w of (r, w') \<Rightarrow> (r, w', tr @ [WakeSent m r]))"
  "env_probe (traced E) a (w, tr) = (case env_probe E a w of (r, w') \<Rightarrow> (r, w', tr @ [Probed a r]))"
  "env_disconnect (traced E) (w, tr) = (env_disconnect E w, tr @ [Disconnected])"
  "env_report (traced E) s (w, tr) = (env_report E s w, tr @ [Reported s])"
  "env_now (traced E) (w, tr) = env_now E w"
  "env_sleep (traced E) d (w, tr) = (env_sleep E d w, tr @ [Slept d])"
  by (simp_all add: traced_def)

lemma traced_round:
  "\<exists>ev. wake_round (traced E) t a st n (w, tr) =
     (fst (wake_round E t a st n w), snd (wake_round E t a st n w), tr @ ev)"
  by (auto simp: wake_round_def split: prod.splits sum.splits)

lemma traced_loop_sound:
  fixes wt' :: "'w \<times> wake_event list"
  assumes "wake_loop (traced E) t a st n (w, tr) = Some (r, wt')"
  shows "wake_loop E t a st n w = Some (r, fst wt')"
proof (rule wake_loop_rule [OF assms,
    where I = "\<lambda>k wt. wake_loop E t a st k (fst wt) = wake_loop E t a st n w"])
  fix k and wt w2 :: "'w \<times> wake_event list"
  assume I: "wake_loop E t a st k (fst wt) = wake_loop E t a st n w"
  note step = traced_round [of E t a st "saturating_add k 1" "fst wt" "snd wt"]
  {
    assume "wake_round (traced E) t a st (saturating_add k 1) wt = (None, w2)"
    with step I show "wake_loop E t a st (saturating_add k 1) (fst w2) = wake_loop E t a st n w"
      by (subst (asm) wake_loop_unfold) (auto split: prod.splits)
  next
    fix r
    assume "wake_round (traced E) t a st (saturating_add k 1) wt = (Some r, w2)"
    with step I show "wake_loop E t a st n w = Some (r, fst w2)"
      by (subst (asm) wake_loop_unfold) (auto split: prod.splits)
  }
qed simp

lemma traced_loop_complete:
  assumes "wake_loop E t a st n w = Some (r, w')"
  shows "\<exists>tr'. wake_loop (traced E) t a st n (w, tr) = Some (r, w', tr')"
proof (rule wake_loop_rule [OF assms,
    where I = "\<lambda>k v. \<exists>tv. wake_loop (traced E) t a st k (v, tv) = wake_loop (traced E) t a st n (w, tr)"])
  fix k v w2
  assume "\<exists>tv. wake_loop (traced E) t a st k (v, tv) = wake_loop (traced E) t a st n (w, tr)"
  then obtain tv where I: "wake_loop (traced E) t a st k (v, tv) = wake_loop (traced E) t a st n (w, tr)"
    by blast
  note step = traced_round [of E t a st "saturating_add k 1" v tv]
  {
    assume "wake_round E t a st (saturating_add k 1) v = (None, w2)"
    with step I show "\<exists>tv. wake_loop (traced E) t a st (saturating_add k 1) (w2, tv) =
        wake_loop (traced E) t a st n (w, tr)"
      by (subst (asm) wake_loop_unfold) (auto split: prod.splits)
  next
    fix r
    assume "wake_round E t a st (saturating_add k 1) v = (Some r, w2)"
    with step I show "\<exists>tr'. wake_loop (traced E) t a st n (w, tr) = Some (r, w2, tr')"
      by (subst (asm) wake_loop_unfold) (auto split: prod.splits dest: sym)
  }
qed blast

lemma traced_loop:
  "map_option (\<lambda>(r, w, tr). (r, w)) (wake_loop (traced E) t a st n (w, tr)) = wake_loop E t a st n w"
proof (cases "wake_loop (traced E) t a st n (w, tr)")
  case None
  then show ?thesis using traced_loop_complete [of E t a st n w _ _ tr]
    by (cases "wake_loop E t a st n w") auto
next
  case (Some x)
  then show ?thesis using traced_loop_sound [of E t a st n w tr] by (cases x) fastforce
qed

lemma traced_run:
  "map_option (\<lambda>(r, w, tr). (r, w)) (run_wake (traced E) t (w, tr)) = run_wake E t w"
proof -
  have "map_option (\<lambda>(r, w, tr). (r, w)) (wake_attempt (traced E) t (w, tr)) = wake_attempt E t w" for w tr
    by (auto simp: wake_attempt_def traced_loop split: prod.splits sum.splits)
  from this [of "env_report E Connecting w" "tr @ [Reported Connecting]", symmetric] show ?thesis
    by (auto simp: run_wake_def Let_def split: option.splits sum.splits)
qed

text \<open>\<^bold>\<open>observation\<close>. Logging every call of a wake attempt changes neither its result
  nor the world it leaves, nor whether it returns: what is proved of the log of \<open>traced E\<close>
  is true of the calls \<open>run_wake E\<close> makes.\<close>

theorem traced_run_wake:
  "map_option (\<lambda>(r, w, tr). (r, w)) (run_wake (traced E) t (w, tr)) = run_wake E t w"
  by (rule traced_run)

section \<open>The protocol\<close>

fun after :: "wake_failure + unit \<Rightarrow> phase" where
  "after (Ok u) = Done (Ok ())"
| "after (Err f) = Cleaned f"

text \<open>The log of a run that has only to disconnect, and then report its failure.\<close>

definition closing :: "wake_target \<Rightarrow> wake_event list \<Rightarrow> wake_failure + unit \<Rightarrow> bool" where
  "closing t tr r \<longleftrightarrow> phases t Fresh (tr @ [Disconnected]) = Some (after r)"

lemma closing_loop:
  assumes "wake_loop (traced E) t a st n (w, tr) = Some (r, w', tr')"
    and "phases t Fresh tr = Some (Ready a n)"
  shows "closing t tr' r"
proof -
  have "closing t (snd (w', tr')) r"
  proof (rule wake_loop_rule [OF assms(1), where I = "\<lambda>k wt. phases t Fresh (snd wt) = Some (Ready a k)"])
    fix k and wt w2 :: "'a \<times> wake_event list"
    assume I: "phases t Fresh (snd wt) = Some (Ready a k)"
    obtain v tv where wt: "wt = (v, tv)" by force
    {
      assume "wake_round (traced E) t a st (saturating_add k 1) wt = (None, w2)"
      with I wt show "phases t Fresh (snd w2) = Some (Ready a (saturating_add k 1))"
        by (auto simp: wake_round_def phases_append split: prod.splits sum.splits if_splits)
    next
      fix r
      assume "wake_round (traced E) t a st (saturating_add k 1) wt = (Some r, w2)"
      with I wt show "closing t (snd w2) r"
        by (auto simp: wake_round_def closing_def phases_append split: prod.splits sum.splits if_splits)
    }
  qed (use assms(2) in simp)
  then show ?thesis by simp
qed

lemma closing_attempt:
  assumes "wake_attempt (traced E) t (w, [Reported Connecting]) = Some (r, w', tr')"
  shows "closing t tr' r"
  using assms
  by (auto simp: wake_attempt_def closing_def split: prod.splits sum.splits
      dest!: closing_loop [unfolded closing_def])

lemma run_wake_follows:
  assumes "run_wake (traced E) t (w, []) = Some (r, w', tr)"
  shows "phases t Fresh tr = Some (Done r)"
proof -
  obtain r' v tv where att: "wake_attempt (traced E) t (env_report E Connecting w, [Reported Connecting]) = Some (r', v, tv)"
    and rest: "(case r' of Err f \<Rightarrow> Some (r', env_report (traced E) (Failed f) (env_disconnect (traced E) (v, tv)))
         | Ok _ \<Rightarrow> Some (r', env_disconnect (traced E) (v, tv))) = Some (r, w', tr)"
    using assms by (auto simp: run_wake_def Let_def split: option.splits)
  have "closing t tv r'" using att by (rule closing_attempt)
  with rest show ?thesis
    by (cases r') (auto simp: closing_def phases_append split: bind_splits)
qed

text \<open>C1: \<^bold>\<open>the order of calls\<close>. The log of every attempt that returns is a run of the
  protocol automaton: connect, resolve, wake request, numbered probes separated by the configured
  sleep, one disconnect, in this order, each step only after the one before it succeeded, and the
  automaton's final state carries the very result that is returned.\<close>

theorem run_wake_protocol:
  assumes "run_wake (traced E) t (w, []) = Some (r, w', tr)"
  shows "phases t Fresh tr = Some (Done r)"
  using assms by (rule run_wake_follows)

section \<open>Consequences of the protocol\<close>

fun final_state :: "wake_failure + unit \<Rightarrow> wake_state" where
  "final_state (Ok u) = Awake"
| "final_state (Err f) = Failed f"

lemma phases_snoc:
  "phases t p (tr @ [e]) = Some q \<longleftrightarrow> (\<exists>p'. phases t p tr = Some p' \<and> next_phase t p' e = Some q)"
  by (auto simp: phases_append split: bind_splits)

text \<open>An invariant of phase and log that every event keeps holds of every log.\<close>

lemma phases_invariant:
  assumes "phases t Fresh tr = Some p" "I Fresh []"
    and "\<And>p tr e q. phases t Fresh tr = Some p \<Longrightarrow> I p tr \<Longrightarrow> next_phase t p e = Some q \<Longrightarrow> I q (tr @ [e])"
  shows "I p tr"
  using assms(1)
proof (induction tr arbitrary: p rule: rev_induct)
  case Nil
  with assms(2) show ?case by simp
next
  case (snoc e tr)
  then show ?case using assms(3) unfolding phases_snoc by blast
qed

definition under_way :: "wake_state \<Rightarrow> bool" where
  "under_way s \<longleftrightarrow> \<not> is_terminal s \<and> s \<noteq> Idle"

lemma under_way_simps [simp]:
  "under_way Connecting" "under_way ResolvingPc" "under_way Waking" "under_way (WaitingForPc n)"
  "\<not> under_way Idle" "\<not> under_way Awake" "\<not> under_way (Failed f)"
  by (simp_all add: under_way_def)

fun reports_ok :: "phase \<Rightarrow> wake_state list \<Rightarrow> bool" where
  "reports_ok Celebrated rs = (rs \<noteq> [] \<and> last rs = Awake \<and> (\<forall>s \<in> set (butlast rs). under_way s))"
| "reports_ok (Done r) rs = (rs \<noteq> [] \<and> last rs = final_state r \<and> (\<forall>s \<in> set (butlast rs). under_way s))"
| "reports_ok p rs = (\<forall>s \<in> set rs. under_way s)"

lemma reports_ok_step:
  "reports_ok p rs \<Longrightarrow> next_phase t p e = Some q \<Longrightarrow> reports_ok q (rs @ reports [e])"
  by (cases p; cases e) (auto split: if_splits sum.splits)

lemma reports_ok_phases: "phases t Fresh tr = Some p \<Longrightarrow> reports_ok p (reports tr)"
  by (erule phases_invariant [where I = "\<lambda>p tr. reports_ok p (reports tr)"])
     (simp, simp only: reports_append reports_ok_step)

lemma in_reports: "s \<in> set (reports tr) \<Longrightarrow> Reported s \<in> set tr"
  by (induction tr rule: reports.induct) auto

lemma run_wake_reports_orderly:
  assumes "run_wake (traced E) t (w, []) = Some (r, w', tr)"
  shows "reports tr \<noteq> [] \<and> last (reports tr) = final_state r \<and>
    (\<forall>s \<in> set (butlast (reports tr)). under_way s)"
  using reports_ok_phases [OF run_wake_follows [OF assms]] by simp

text \<open>What has happened before each phase.\<close>

fun history_ok :: "wake_target \<Rightarrow> phase \<Rightarrow> wake_event set \<Rightarrow> bool" where
  "history_ok t p H = (
     (p \<in> {Fresh, Announced} \<longrightarrow> (\<forall>r. Connected r \<notin> H)) \<and>
     (p \<in> {Linked, Resolving} \<longrightarrow> Connected (Ok ()) \<in> H) \<and>
     (case p of
        Located a \<Rightarrow> Connected (Ok ()) \<in> H \<and> Resolved (target_mac t) (Ok a) \<in> H
      | Sending a \<Rightarrow> Connected (Ok ()) \<in> H \<and> Resolved (target_mac t) (Ok a) \<in> H
      | Ready a n \<Rightarrow> Resolved (target_mac t) (Ok a) \<in> H \<and> WakeSent (target_mac t) (Ok ()) \<in> H
      | Trying a n \<Rightarrow> Resolved (target_mac t) (Ok a) \<in> H \<and> WakeSent (target_mac t) (Ok ()) \<in> H
      | Missed a n \<Rightarrow> Resolved (target_mac t) (Ok a) \<in> H \<and> WakeSent (target_mac t) (Ok ()) \<in> H
      | Done r \<Rightarrow> Disconnected \<in> H
      | Cleaned f \<Rightarrow> Disconnected \<in> H
      | _ \<Rightarrow> True) \<and>
     ((\<exists>m r. WakeSent m r \<in> H) \<longrightarrow> p \<notin> {Fresh, Announced, Linked, Resolving} \<and> (\<forall>a. p \<noteq> Located a \<and> p \<noteq> Sending a)) \<and>
     (Disconnected \<in> H \<longrightarrow> (\<exists>r. p = Done r) \<or> (\<exists>f. p = Cleaned f)))"

lemma history_step:
  "history_ok t p H \<Longrightarrow> next_phase t p e = Some q \<Longrightarrow> history_ok t q (insert e H)"
  by (cases p; cases e) (auto split: if_splits sum.splits)

lemma history_phases: "phases t Fresh tr = Some p \<Longrightarrow> history_ok t p (set tr)"
  by (erule phases_invariant [where I = "\<lambda>p tr. history_ok t p (set tr)"])
     (simp, auto simp del: history_ok.simps dest: history_step)

text \<open>What comes before a phase and what is still to come.\<close>

lemma reached_after_probe:
  "phases t Fresh tr = Some p \<Longrightarrow> p = Reached \<Longrightarrow> \<exists>start a. tr = start @ [Probed a (Ok True)]"
proof (erule phases_invariant [where I = "\<lambda>p tr. p = Reached \<longrightarrow> (\<exists>start a. tr = start @ [Probed a (Ok True)])", THEN mp])
  fix p tr e q
  assume "next_phase t p e = Some q"
  then show "q = Reached \<longrightarrow> (\<exists>start a. tr @ [e] = start @ [Probed a (Ok True)])"
    by (cases p; cases e) (auto split: if_splits sum.splits)
qed simp_all

lemma phases_end:
  "phases t (Done r') es = Some (Done r) \<longleftrightarrow> es = [] \<and> r' = r"
  "phases t (Cleaned f) es = Some (Done r) \<longleftrightarrow> es = [Reported (Failed f)] \<and> r = Err f"
  "phases t Celebrated es = Some (Done r) \<longleftrightarrow> es = [Disconnected] \<and> r = Ok ()"
proof -
  show d: "phases t (Done r') es = Some (Done r) \<longleftrightarrow> es = [] \<and> r' = r" for r' r es by (cases es) auto
  show "phases t (Cleaned f) es = Some (Done r) \<longleftrightarrow> es = [Reported (Failed f)] \<and> r = Err f"
    by (cases es) (auto simp: d split: bind_splits if_splits)
  show "phases t Celebrated es = Some (Done r) \<longleftrightarrow> es = [Disconnected] \<and> r = Ok ()"
    by (cases es) (auto simp: d split: bind_splits if_splits)
qed

lemma phases_at:
  assumes "phases t Fresh (pre @ e # post) = Some (Done r)"
  obtains p q where "phases t Fresh pre = Some p" "next_phase t p e = Some q" "phases t q post = Some (Done r)"
  using assms by (auto simp: phases_append split: bind_splits)

text \<open>C2: \<^bold>\<open>no wake request before the lookup, no success without an answer\<close>. A Wake-on-LAN request goes to
  the configured address only, at most once, after a successful connect and a successful host lookup; the
  probes go only to the address that lookup returned, after the request was accepted. \<open>Awake\<close> is reported
  exactly when the attempt returns success, and right after a probe that was answered. The backend is
  disconnected exactly once, and that is the last call on it: only the report of a failure follows.\<close>

theorem run_wake_safety:
  assumes "run_wake (traced E) t (w, []) = Some (r, w', tr)"
  shows "(\<forall>pre m x post. tr = pre @ WakeSent m x # post \<longrightarrow>
            m = target_mac t \<and> Connected (Ok ()) \<in> set pre \<and>
            (\<exists>a. Resolved (target_mac t) (Ok a) \<in> set pre) \<and> (\<forall>m' x'. WakeSent m' x' \<notin> set pre))
       \<and> (\<forall>pre a x post. tr = pre @ Probed a x # post \<longrightarrow>
            Resolved (target_mac t) (Ok a) \<in> set pre \<and> WakeSent (target_mac t) (Ok ()) \<in> set pre)
       \<and> (\<forall>pre post. tr = pre @ Reported Awake # post \<longrightarrow>
            (\<exists>start a. pre = start @ [Probed a (Ok True)]) \<and> post = [Disconnected])
       \<and> (r = Ok () \<longleftrightarrow> Reported Awake \<in> set tr)
       \<and> (\<exists>pre. tr = pre @ Disconnected # (case r of Ok _ \<Rightarrow> [] | Err f \<Rightarrow> [Reported (Failed f)]) \<and> Disconnected \<notin> set pre)"
proof (intro conjI allI impI)
  have fin: "phases t Fresh tr = Some (Done r)" using assms by (rule run_wake_follows)
  {
    fix pre m x post
    assume "tr = pre @ WakeSent m x # post"
    with fin obtain p q where "history_ok t p (set pre)" "next_phase t p (WakeSent m x) = Some q"
      using history_phases by (metis phases_at)
    then show "m = target_mac t" "Connected (Ok ()) \<in> set pre" "\<exists>a. Resolved (target_mac t) (Ok a) \<in> set pre"
      "WakeSent m' x' \<notin> set pre" for m' x' by (cases p; auto split: if_splits)+
  }
  {
    fix pre a x post
    assume "tr = pre @ Probed a x # post"
    with fin obtain p q where "history_ok t p (set pre)" "next_phase t p (Probed a x) = Some q"
      using history_phases by (metis phases_at)
    then show "Resolved (target_mac t) (Ok a) \<in> set pre" "WakeSent (target_mac t) (Ok ()) \<in> set pre"
      by (cases p; auto split: if_splits)+
  }
  have awake: "(\<exists>start a. pre = start @ [Probed a (Ok True)]) \<and> post = [Disconnected] \<and> r = Ok ()"
    if tr: "tr = pre @ Reported Awake # post" for pre post
  proof -
    obtain p q where pq: "phases t Fresh pre = Some p" "next_phase t p (Reported Awake) = Some q" "phases t q post = Some (Done r)"
      using fin [unfolded tr] by (rule phases_at)
    then have "p = Reached" "q = Celebrated" by (cases p; auto split: if_splits)+
    with pq reached_after_probe show ?thesis by (simp add: phases_end)
  qed
  then show "\<exists>start a. pre = start @ [Probed a (Ok True)]" "post = [Disconnected]" if "tr = pre @ Reported Awake # post" for pre post
    using that by blast+
  have "Disconnected \<in> set tr" using history_phases [OF fin] by simp
  then obtain pre post where tr: "tr = pre @ Disconnected # post" "Disconnected \<notin> set pre"
    using split_list_first by metis
  obtain p q where pq: "phases t Fresh pre = Some p" "next_phase t p Disconnected = Some q" "phases t q post = Some (Done r)"
    using fin [unfolded tr(1)] by (rule phases_at)
  have post: "post = (case r of Ok _ \<Rightarrow> [] | Err f \<Rightarrow> [Reported (Failed f)])"
    using pq(2,3) by (cases p) (auto simp: phases_end split: if_splits)
  with tr show "\<exists>pre. tr = pre @ Disconnected # (case r of Ok _ \<Rightarrow> [] | Err f \<Rightarrow> [Reported (Failed f)]) \<and> Disconnected \<notin> set pre"
    by blast
  have "Reported Awake \<in> set tr" if "r = Ok ()"
  proof -
    have "reports tr \<noteq> []" "last (reports tr) = Awake" using reports_ok_phases [OF fin] that by simp_all
    then show ?thesis using in_reports last_in_set by metis
  qed
  then show "r = Ok () \<longleftrightarrow> Reported Awake \<in> set tr"
    using awake tr(1) by (metis in_set_conv_decomp)
qed

section \<open>Numbered attempts\<close>

fun attempts :: "wake_state list \<Rightarrow> u32 list" where
  "attempts [] = []"
| "attempts (WaitingForPc k # ss) = k # attempts ss"
| "attempts (s # ss) = attempts ss"

definition numbered :: "nat \<Rightarrow> u32" where
  "numbered k = of_nat (min k (2 ^ 32 - 1))"

lemma attempts_append [simp]: "attempts (a @ b) = attempts a @ attempts b"
  by (induction a rule: attempts.induct) auto

lemma saturating_numbered: "saturating_add (numbered k) 1 = numbered (Suc k)"
proof -
  have u: "unat (numbered j) = min j (2 ^ 32 - 1)" for j
  proof -
    have "min j (2 ^ 32 - 1) < 2 ^ 32" by (simp add: min_less_iff_disj)
    then show ?thesis unfolding numbered_def unat_of_nat by simp
  qed
  have "unat (saturating_add (numbered k) 1) = min (Suc k) (2 ^ 32 - 1)"
    unfolding unat_saturating_add u by simp
  with u [of "Suc k"] show ?thesis by (simp add: word_unat_eq_iff)
qed

fun numbered_ok :: "phase \<Rightarrow> u32 list \<Rightarrow> bool" where
  "numbered_ok (Ready a n) ks = (n = numbered (length ks) \<and> ks = map (\<lambda>i. numbered (Suc i)) [0..<length ks])"
| "numbered_ok (Missed a n) ks = (n = numbered (length ks) \<and> ks = map (\<lambda>i. numbered (Suc i)) [0..<length ks])"
| "numbered_ok (Trying a n) ks = (n = numbered (length ks) \<and> ks = map (\<lambda>i. numbered (Suc i)) [0..<length ks])"
| "numbered_ok p ks = (ks = map (\<lambda>i. numbered (Suc i)) [0..<length ks] \<and>
     (p \<in> {Fresh, Announced, Linked, Resolving} \<or> (\<exists>a. p = Located a \<or> p = Sending a) \<longrightarrow> ks = []))"

lemma numbered_0: "numbered 0 = 0"
  by (simp add: numbered_def)

lemma numbered_step:
  "numbered_ok p ks \<Longrightarrow> next_phase t p e = Some q \<Longrightarrow> numbered_ok q (ks @ attempts (reports [e]))"
  by (cases p; cases e) (auto simp: numbered_0 saturating_numbered split: if_splits sum.splits)

lemma numbered_phases: "phases t Fresh tr = Some p \<Longrightarrow> numbered_ok p (attempts (reports tr))"
  by (erule phases_invariant [where I = "\<lambda>p tr. numbered_ok p (attempts (reports tr))"])
     (simp, simp only: reports_append attempts_append numbered_step)

text \<open>\<^bold>\<open>probe numbers\<close>. The probes an attempt reports are numbered 1, 2, 3 and so on
  without gap or repetition, up to the largest \<open>u32\<close>, where the counter stays.\<close>

theorem run_wake_attempt_numbers:
  assumes "run_wake (traced E) t (w, []) = Some (r, w', tr)"
  shows "attempts (reports tr) = map (\<lambda>i. numbered (Suc i)) [0..<length (attempts (reports tr))]"
  using numbered_phases [OF run_wake_follows [OF assms]] by simp

section \<open>All that is reported\<close>

definition waits :: "nat \<Rightarrow> wake_state list" where
  "waits n = map (\<lambda>i. WaitingForPc (numbered (Suc i))) [0..<n]"

lemma waits_Suc: "waits (Suc n) = waits n @ [WaitingForPc (numbered (Suc n))]"
  by (simp add: waits_def)

lemma waits_0 [simp]: "waits 0 = []"
  by (simp add: waits_def)

text \<open>The steps announced so far, all three once there are rounds.\<close>

definition announced :: "nat \<Rightarrow> nat \<Rightarrow> wake_state list" where
  "announced k n = take k [Connecting, ResolvingPc, Waking] @ waits n"

definition partly :: "wake_state list \<Rightarrow> bool" where
  "partly rs = (\<exists>k n. rs = announced k n \<and> 1 \<le> k \<and> k \<le> 3 \<and> (k < 3 \<longrightarrow> n = 0))"

lemma partlyI: "1 \<le> k \<Longrightarrow> k \<le> 3 \<Longrightarrow> (k < 3 \<Longrightarrow> n = 0) \<Longrightarrow> partly (announced k n)"
  unfolding partly_def by blast

lemma partly_announced [simp]: "partly (announced 3 n)" "partly (announced (Suc 0) 0)" "partly (announced 2 0)"
  by (rule partlyI; simp)+

fun shape_ok :: "phase \<Rightarrow> wake_state list \<Rightarrow> bool" where
  "shape_ok Fresh rs = (rs = [])"
| "shape_ok Announced rs = (rs = announced 1 0)"
| "shape_ok Linked rs = (rs = announced 1 0)"
| "shape_ok Resolving rs = (rs = announced 2 0)"
| "shape_ok (Located a) rs = (rs = announced 2 0)"
| "shape_ok (Sending a) rs = (rs = announced 3 0)"
| "shape_ok (Ready a c) rs = (\<exists>n. c = numbered n \<and> rs = announced 3 n)"
| "shape_ok (Trying a c) rs = (\<exists>n. c = numbered (Suc n) \<and> rs = announced 3 (Suc n))"
| "shape_ok (Missed a c) rs = (\<exists>n. c = numbered (Suc n) \<and> rs = announced 3 (Suc n))"
| "shape_ok Reached rs = (\<exists>n. rs = announced 3 (Suc n))"
| "shape_ok Celebrated rs = (\<exists>n. rs = announced 3 (Suc n) @ [Awake])"
| "shape_ok (Failing f) rs = partly rs"
| "shape_ok (Cleaned f) rs = partly rs"
| "shape_ok (Done (Err f)) rs = (\<exists>rs'. rs = rs' @ [Failed f] \<and> partly rs')"
| "shape_ok (Done (Ok u)) rs = (\<exists>n. rs = announced 3 (Suc n) @ [Awake])"

lemma announced_steps:
  "[Connecting] = announced 1 0" "announced 1 0 @ [ResolvingPc] = announced 2 0" "announced 2 0 @ [Waking] = announced 3 0"
  "announced 3 n @ [WaitingForPc (numbered (Suc n))] = announced 3 (Suc n)"
  by (simp_all add: announced_def waits_Suc)

lemma shape_step: "shape_ok p rs \<Longrightarrow> next_phase t p e = Some q \<Longrightarrow> shape_ok q (rs @ reports [e])"
  by (cases p; cases e) (auto simp: announced_steps announced_steps(2) [simplified] saturating_numbered
      split: if_splits sum.splits intro: exI [of _ "0 :: nat"] simp flip: numbered_0)

lemma shape_phases: "phases t Fresh tr = Some p \<Longrightarrow> shape_ok p (reports tr)"
  by (erule phases_invariant [where I = "\<lambda>p tr. shape_ok p (reports tr)"])
     (simp, simp only: reports_append shape_step)

text \<open>C3: \<^bold>\<open>what an attempt reports\<close>. The states an attempt reports are \<open>Connecting\<close>, then as far as it gets
  \<open>ResolvingPc\<close> and \<open>Waking\<close>, then its rounds with their numbers from one on, then \<open>Awake\<close> when it returns
  success, after a round at least, or \<open>Failed f\<close> when it returns the failure \<open>f\<close>. So no state before the last
  is terminal or idle: a receiver may stop at the first terminal state.\<close>

theorem run_wake_reports:
  assumes "run_wake (traced E) t (w, []) = Some (r, w', tr)"
  shows "(\<exists>k n. reports tr = take k [Connecting, ResolvingPc, Waking] @
        map (\<lambda>i. WaitingForPc (numbered (Suc i))) [0..<n] @ [final_state r] \<and>
      1 \<le> k \<and> k \<le> 3 \<and> (k < 3 \<longrightarrow> n = 0) \<and> (r = Ok () \<longrightarrow> 0 < n)) \<and>
    hd (reports tr) = Connecting \<and> last (reports tr) = final_state r \<and>
    (\<forall>s \<in> set (butlast (reports tr)). under_way s)"
proof -
  have shape: "shape_ok (Done r) (reports tr)" using shape_phases [OF run_wake_follows [OF assms]] .
  obtain k n where s: "reports tr = announced k n @ [final_state r]" "1 \<le> k" "k \<le> 3" "k < 3 \<longrightarrow> n = 0" "r = Ok () \<longrightarrow> 0 < n"
  proof (cases r)
    case (Inl f)
    with shape that show ?thesis by (auto simp: partly_def)
  next
    case (Inr u)
    with shape obtain n where "reports tr = announced 3 (Suc n) @ [Awake]" by auto
    with Inr that [of 3 "Suc n"] show ?thesis by simp
  qed
  moreover have "hd (reports tr) = Connecting" using s(1,2) by (cases k) (simp_all add: announced_def)
  ultimately show ?thesis
    using run_wake_reports_orderly [OF assms] by (auto simp: announced_def waits_def)
qed

section \<open>Time\<close>

text \<open>C39: \<^bold>\<open>a timeout is earned\<close>. The loop gives up with a timeout only when at least the
  configured \<open>probe_timeout\<close> has passed on the clock since it started, whatever the backend does.\<close>

theorem wake_loop_timeout:
  assumes "wake_loop E t a st n w = Some (Err f, w')" and "stage f = Timeout"
  shows "f = timeout_failure t \<and> probe_timeout t \<le> env_now E w' - st"
proof -
  have "Err f = (Err f :: wake_failure + unit) \<longrightarrow> stage f = Timeout \<longrightarrow> f = timeout_failure t \<and> probe_timeout t \<le> env_now E w' - st"
  proof (rule wake_loop_rule [OF assms(1), where I = "\<lambda>n w. True"
      and Q = "\<lambda>r w. r = Err f \<longrightarrow> stage f = Timeout \<longrightarrow> f = timeout_failure t \<and> probe_timeout t \<le> env_now E w - st"])
    fix n w r w2
    assume "wake_round E t a st (saturating_add n 1) w = (Some r, w2)"
    then show "r = Err f \<longrightarrow> stage f = Timeout \<longrightarrow> f = timeout_failure t \<and> probe_timeout t \<le> env_now E w2 - st"
      by (auto simp: wake_round_def stage_error_def wake_failure_new_def split: prod.splits sum.splits if_splits)
  qed simp_all
  with assms(2) show ?thesis by simp
qed

text \<open>
  The contract of the clock the loop needs in order to return: no call turns it back, and a
  sleep lets at least the requested time pass (tokio documents both).
\<close>

locale wake_clock =
  fixes E :: "'w wake_env"
  assumes report_clock: "env_now E w \<le> env_now E (env_report E s w)"
    and probe_clock: "env_now E w \<le> env_now E (snd (env_probe E a w))"
    and sleep_clock: "env_now E w + d \<le> env_now E (env_sleep E d w)"
begin

lemma round_clock:
  assumes "wake_round E t a st n w = (None, w2)"
  shows "env_now E w + probe_interval t \<le> env_now E w2"
    and "env_now E w - st < probe_timeout t"
proof -
  let ?w1 = "env_report E (WaitingForPc n) w"
  obtain v where v: "env_probe E a ?w1 = (Ok False, v)" "env_now E v - st < probe_timeout t"
    "w2 = env_sleep E (probe_interval t) v"
    using assms by (auto simp: wake_round_def split: prod.splits sum.splits if_splits)
  have "env_now E w \<le> env_now E v"
    using report_clock [of w "WaitingForPc n"] probe_clock [of ?w1 a] v(1) by simp
  with v(2,3) sleep_clock [of v "probe_interval t"]
  show "env_now E w + probe_interval t \<le> env_now E w2" "env_now E w - st < probe_timeout t" by simp_all
qed

lemma loop_returns:
  assumes "0 < probe_interval t"
  shows "\<exists>x. wake_loop E t a st n w = Some x"
proof (induction "st + probe_timeout t - env_now E w" arbitrary: n w rule: less_induct)
  case less
  obtain res w2 where turn: "wake_round E t a st (saturating_add n 1) w = (res, w2)" by force
  show ?case
  proof (cases res)
    case None
    note clock = round_clock [OF turn [unfolded None]]
    then have "st + probe_timeout t - env_now E w2 < st + probe_timeout t - env_now E w"
      using assms by linarith
    from less [OF this] turn None show ?thesis by (subst wake_loop_unfold) simp
  next
    case (Some r)
    with turn show ?thesis by (subst wake_loop_unfold) simp
  qed
qed

lemma run_returns:
  assumes "0 < probe_interval t"
  shows "\<exists>x. run_wake E t w = Some x"
proof -
  have "\<exists>x. wake_attempt E t v = Some x" for v
    using loop_returns [OF assms] by (auto simp: wake_attempt_def split: prod.splits sum.splits)
  then show ?thesis
    by (fastforce simp: run_wake_def Let_def split: option.splits sum.splits)
qed

end

fun probes :: "wake_event list \<Rightarrow> nat" where
  "probes [] = 0"
| "probes (Probed a r # es) = Suc (probes es)"
| "probes (e # es) = probes es"

lemma probes_append [simp]: "probes (a @ b) = probes a + probes b"
  by (induction a rule: probes.induct) auto

lemma traced_wake_clock: "wake_clock E \<Longrightarrow> wake_clock (traced E)"
  unfolding wake_clock_def by (auto simp: split_beta)

context wake_clock
begin

lemma round_probes:
  assumes "wake_round (traced E) t a st n (w, tr) = (x, w2, tr2)"
  shows "probes tr2 = Suc (probes tr)"
  using assms by (auto simp: wake_round_def split: prod.splits sum.splits if_splits)

lemma loop_probes:
  assumes "wake_loop (traced E) t a st n (w, tr) = Some (r, w', tr')"
    and "probes tr = 0" "st \<le> env_now E w"
  shows "probes tr' \<le> 1 \<or> (probes tr' - 2) * probe_interval t < probe_timeout t"
proof -
  note clock = wake_clock.round_clock [OF traced_wake_clock [OF wake_clock_axioms]]
  have "probes (snd (w', tr')) \<le> 1 \<or> (probes (snd (w', tr')) - 2) * probe_interval t < probe_timeout t"
  proof (rule wake_loop_rule [OF assms(1), where
        I = "\<lambda>n (v, tv). st + probes tv * probe_interval t \<le> env_now E v \<and>
               (probes tv = 0 \<or> (probes tv - 1) * probe_interval t < probe_timeout t)"
        and Q = "\<lambda>r wt. probes (snd wt) \<le> 1 \<or> (probes (snd wt) - 2) * probe_interval t < probe_timeout t"])
    fix n and vt w2 :: "'w \<times> wake_event list"
    obtain v tv where vt: "vt = (v, tv)" by force
    obtain v2 tv2 where w2: "w2 = (v2, tv2)" by force
    assume "case vt of (v, tv) \<Rightarrow> st + probes tv * probe_interval t \<le> env_now E v \<and>
               (probes tv = 0 \<or> (probes tv - 1) * probe_interval t < probe_timeout t)"
    then have I: "st + probes tv * probe_interval t \<le> env_now E v"
      "probes tv = 0 \<or> (probes tv - 1) * probe_interval t < probe_timeout t" by (simp_all add: vt)
    {
      assume turn: "wake_round (traced E) t a st (saturating_add n 1) vt = (None, w2)"
      then have "probes tv2 = Suc (probes tv)" using round_probes by (simp add: vt w2)
      with clock [OF turn] I(1) show "case w2 of (v, tv) \<Rightarrow> st + probes tv * probe_interval t \<le> env_now E v \<and>
               (probes tv = 0 \<or> (probes tv - 1) * probe_interval t < probe_timeout t)"
        by (simp add: vt w2)
    next
      fix r
      assume "wake_round (traced E) t a st (saturating_add n 1) vt = (Some r, w2)"
      then have "probes tv2 = Suc (probes tv)" using round_probes by (simp add: vt w2)
      with I(2) show "probes (snd w2) \<le> 1 \<or> (probes (snd w2) - 2) * probe_interval t < probe_timeout t"
        by (cases "probes tv") (simp_all add: w2)
    }
  qed (use assms(2,3) in simp)
  then show ?thesis by simp
qed

lemma run_probes:
  assumes "run_wake (traced E) t (w, []) = Some (r, w', tr)"
  shows "probes tr \<le> 1 \<or> (probes tr - 2) * probe_interval t < probe_timeout t"
proof -
  have "probes tv \<le> 1 \<or> (probes tv - 2) * probe_interval t < probe_timeout t"
    if "wake_attempt (traced E) t (v0, [Reported Connecting]) = Some (q, v, tv)" for v0 q v tv
    using that by (auto simp: wake_attempt_def split: prod.splits sum.splits dest!: loop_probes)
  then show ?thesis using assms
    by (fastforce simp: run_wake_def Let_def split: option.splits sum.splits)
qed

end

section \<open>A scripted backend\<close>

text \<open>
  The in-memory backends of the crate's tests, in one: a list of probe answers (an empty list
  answers \<open>false\<close>) each with the time it takes, the answer of the host lookup, and the flags
  the tests look at. It shows that the hypotheses of the properties can hold.
\<close>

record scripted =
  sc_probes :: "(duration \<times> (wake_backend_error + bool)) list"
  sc_lookup :: "wake_backend_error + ipv4"
  sc_now :: instant
  sc_wake_sent :: bool
  sc_disconnected :: bool

fun scripted_probe :: "scripted \<Rightarrow> (wake_backend_error + bool) \<times> scripted" where
  "scripted_probe s =
     (case sc_probes s of
        [] \<Rightarrow> (Ok False, s)
      | (d, r) # ps \<Rightarrow> (r, s\<lparr>sc_probes := ps, sc_now := sc_now s + d\<rparr>))"

definition scripted_env :: "scripted wake_env" where
  "scripted_env = \<lparr>
     env_connect = (\<lambda>s. (Ok (), s)),
     env_resolve = (\<lambda>m s. (sc_lookup s, s)),
     env_send_wake = (\<lambda>m s. (Ok (), s\<lparr>sc_wake_sent := True\<rparr>)),
     env_probe = (\<lambda>a s. scripted_probe s),
     env_disconnect = (\<lambda>s. s\<lparr>sc_disconnected := True\<rparr>),
     env_report = (\<lambda>st s. s),
     env_now = sc_now,
     env_sleep = (\<lambda>d s. s\<lparr>sc_now := sc_now s + d\<rparr>)\<rparr>"

interpretation scripted: wake_clock scripted_env
  by unfold_locales (auto simp: scripted_env_def split: list.splits)

definition scripted_start :: scripted where
  "scripted_start = \<lparr>sc_probes = [(700, Ok False), (10, Ok True)],
     sc_lookup = Ok (Ipv4 127 0 0 1), sc_now = 0, sc_wake_sent = False, sc_disconnected = False\<rparr>"

definition test_target :: wake_target where
  "test_target = wake_target_new (MacAddress [0xAA, 0xBB, 0xCC, 0xDD, 0xEE, 0xFF])"

lemmas run_eval = run_wake_def wake_attempt_def wake_loop_unfold wake_round_def scripted_env_def
  test_target_def wake_target_new_def from_millis_def from_mins_def from_secs_def Let_def

lemma scripted_success_log:
  "run_wake (traced scripted_env) test_target (scripted_start, []) =
     Some (Ok (), scripted_start\<lparr>sc_probes := [], sc_now := 250000710, sc_wake_sent := True, sc_disconnected := True\<rparr>,
       [Reported Connecting, Connected (Ok ()), Reported ResolvingPc,
        Resolved (target_mac test_target) (Ok (Ipv4 127 0 0 1)), Reported Waking,
        WakeSent (target_mac test_target) (Ok ()), Reported (WaitingForPc 1),
        Probed (Ipv4 127 0 0 1) (Ok False), Slept 250000000, Reported (WaitingForPc 2),
        Probed (Ipv4 127 0 0 1) (Ok True), Reported Awake, Disconnected])"
  by (simp add: run_eval scripted_start_def saturating_add_def)

text \<open>A lookup that fails: no request is sent.\<close>

lemma scripted_lookup_failure:
  "run_wake scripted_env test_target (scripted_start\<lparr>sc_lookup := Err (WakeBackendError ''host lookup failed'')\<rparr>) =
     Some (Err \<lparr>stage = ResolveTarget, detail = ''host lookup failed''\<rparr>,
       scripted_start\<lparr>sc_lookup := Err (WakeBackendError ''host lookup failed''), sc_disconnected := True\<rparr>)"
  by (simp add: run_eval scripted_start_def stage_error_def wake_failure_new_def)

lemma scripted_timeout:
  "wake_loop scripted_env (test_target\<lparr>probe_timeout := 0\<rparr>) (Ipv4 127 0 0 1) 5 0 (scripted_start\<lparr>sc_now := 5, sc_probes := []\<rparr>) =
     Some (Err (timeout_failure (test_target\<lparr>probe_timeout := 0\<rparr>)), scripted_start\<lparr>sc_now := 5, sc_probes := []\<rparr>)"
  by (simp add: run_eval scripted_start_def saturating_add_def)

theorem run_wake_protocol_witness:
  "\<exists>s tr. run_wake (traced scripted_env) test_target (scripted_start, []) = Some (Ok (), s, tr) \<and>
     phases test_target Fresh tr = Some (Done (Ok ()))"
  using run_wake_protocol [OF scripted_success_log] scripted_success_log by blast

theorem run_wake_reports_witness:
  "\<exists>s tr. run_wake (traced scripted_env) test_target (scripted_start, []) = Some (Ok (), s, tr) \<and>
     hd (reports tr) = Connecting \<and> last (reports tr) = Awake"
  using run_wake_reports [OF scripted_success_log] scripted_success_log
  by (metis final_state.simps(1))

theorem run_wake_safety_witness:
  "\<exists>s tr pre. run_wake (traced scripted_env) test_target (scripted_start, []) = Some (Ok (), s, tr) \<and>
     Reported Awake \<in> set tr \<and> tr = pre @ [Disconnected] \<and> Disconnected \<notin> set pre"
proof -
  obtain s tr where run: "run_wake (traced scripted_env) test_target (scripted_start, []) = Some (Ok (), s, tr)"
    using scripted_success_log by blast
  note safe = run_wake_safety [OF run, THEN conjunct2, THEN conjunct2, THEN conjunct2]
  obtain pre where "tr = pre @ [Disconnected]" "Disconnected \<notin> set pre"
    using safe [THEN conjunct2] by auto
  with run safe [THEN conjunct1] show ?thesis by blast
qed

theorem run_wake_attempt_numbers_witness:
  "\<exists>s tr. run_wake (traced scripted_env) test_target (scripted_start, []) = Some (Ok (), s, tr) \<and>
     attempts (reports tr) = [numbered 1, numbered 2]"
  using run_wake_attempt_numbers [OF scripted_success_log] scripted_success_log
  by (simp add: upt_rec numeral_2_eq_2)

theorem wake_loop_timeout_witness:
  "\<exists>f w'. wake_loop scripted_env (test_target\<lparr>probe_timeout := 0\<rparr>) (Ipv4 127 0 0 1) 5 0
       (scripted_start\<lparr>sc_now := 5, sc_probes := []\<rparr>) = Some (Err f, w') \<and>
     stage f = Timeout \<and> 0 \<le> env_now scripted_env w' - 5"
proof -
  have st: "stage (timeout_failure (test_target\<lparr>probe_timeout := 0\<rparr>)) = Timeout"
    by (simp add: timeout_failure_def wake_failure_new_def)
  show ?thesis using wake_loop_timeout [OF scripted_timeout st] scripted_timeout st by blast
qed

section \<open>Backends that make progress\<close>

text \<open>
  A relation between worlds that waiting for the PC respects: it holds over the whole loop, and up to
  and from the answer a successful wait rests on.
\<close>

locale wake_waiting =
  fixes E :: "'w wake_env" and R :: "'w \<Rightarrow> 'w \<Rightarrow> bool"
  assumes refl: "R w w"
    and trans: "R u v \<Longrightarrow> R v w \<Longrightarrow> R u w"
    and probe: "R w (snd (env_probe E a w))"
    and report: "R w (env_report E s w)"
    and sleep: "R w (env_sleep E d w)"
begin

lemma round_progress: "wake_round E t a st n w = (x, w') \<Longrightarrow> R w w'"
proof -
  assume round: "wake_round E t a st n w = (x, w')"
  obtain r v where p: "env_probe E a (env_report E (WaitingForPc n) w) = (r, v)" by force
  have v: "R w v" using trans [OF report probe] p by (metis snd_conv)
  from round p have "w' = v \<or> w' = env_report E Awake v \<or> w' = env_sleep E (probe_interval t) v"
    by (auto simp: wake_round_def split: sum.splits if_splits)
  then show ?thesis using v trans [OF v report] trans [OF v sleep] by auto
qed

lemma round_success:
  assumes "wake_round E t a st n w = (Some (Ok ()), w')"
  shows "\<exists>x. R w x \<and> fst (env_probe E a x) = Ok True \<and> R (snd (env_probe E a x)) w'"
proof -
  let ?x = "env_report E (WaitingForPc n) w"
  obtain r v where p: "env_probe E a ?x = (r, v)" by force
  have "r = Ok True \<and> w' = env_report E Awake v"
    using assms p by (auto simp: wake_round_def split: sum.splits if_splits)
  with p report show ?thesis by (intro exI [of _ ?x]) simp
qed

lemma loop_progress:
  assumes "wake_loop E t a st n w = Some (r, w')"
  shows "R w w'"
  by (rule wake_loop_rule [OF assms, where I = "\<lambda>n v. R w v" and Q = "\<lambda>r v. R w v"])
    (auto intro: refl trans round_progress)

lemma loop_success:
  assumes "wake_loop E t a st n w = Some (Ok (), w')"
  shows "\<exists>x. R w x \<and> fst (env_probe E a x) = Ok True \<and> R (snd (env_probe E a x)) w'"
proof -
  let ?Q = "\<lambda>w'. \<exists>x. R w x \<and> fst (env_probe E a x) = Ok True \<and> R (snd (env_probe E a x)) w'"
  have "(Ok () :: wake_failure + unit) = Ok () \<longrightarrow> ?Q w'"
  proof (rule wake_loop_rule [OF assms, where I = "\<lambda>n v. R w v" and Q = "\<lambda>r v. r = Ok () \<longrightarrow> ?Q v"])
    fix n v r v2
    assume v: "R w v" and turn: "wake_round E t a st (saturating_add n 1) v = (Some r, v2)"
    show "r = Ok () \<longrightarrow> ?Q v2"
    proof
      assume "r = Ok ()"
      with turn obtain x where x: "R v x" "fst (env_probe E a x) = Ok True" "R (snd (env_probe E a x)) v2"
        using round_success by blast
      from trans [OF v x(1)] x(2,3) show "?Q v2" by (intro exI [of _ x]) simp
    qed
  next
    fix n v v2
    assume "R w v" "wake_round E t a st (saturating_add n 1) v = (None, v2)"
    then show "R w v2" using trans round_progress by blast
  qed (rule refl)
  then show ?thesis by simp
qed

end

text \<open>
  A relation that every call of a backend respects: what has happened so far is kept
  (a log grows, a clock goes on, an invariant stays). Such a relation holds over whole attempts, and
  a successful attempt shows the three answers its success rests on, in their order.
\<close>

locale wake_progress = wake_waiting E R for E :: "'w wake_env" and R :: "'w \<Rightarrow> 'w \<Rightarrow> bool" +
  assumes connect: "R w (snd (env_connect E w))"
    and resolve: "R w (snd (env_resolve E m w))"
    and send_wake: "R w (snd (env_send_wake E m w))"
    and disconnect: "R w (env_disconnect E w)"
begin

lemma attempt_progress:
  assumes "wake_attempt E t w = Some (r, w')"
  shows "R w w'"
proof -
  obtain r1 w1 where c: "env_connect E w = (r1, w1)" by force
  obtain r2 w2 where s: "env_resolve E (target_mac t) (env_report E ResolvingPc w1) = (r2, w2)" by force
  obtain r3 w3 where k: "env_send_wake E (target_mac t) (env_report E Waking w2) = (r3, w3)" by force
  have 1: "R w w1" using connect [of w] c by simp
  have 2: "R w w2" using trans [OF trans [OF 1 report] resolve] s by (metis snd_conv)
  have 3: "R w w3" using trans [OF trans [OF 2 report] send_wake] k by (metis snd_conv)
  from assms c s k have "w' = w1 \<or> w' = w2 \<or> w' = w3 \<or> (\<exists>a st. wake_loop E t a st 0 w3 = Some (r, w'))"
    by (auto simp: wake_attempt_def split: sum.splits)
  with 1 2 3 show ?thesis using trans [OF 3 loop_progress] by auto
qed

lemma run_progress:
  assumes "run_wake E t w = Some (r, w')"
  shows "R w w'"
proof -
  obtain v where a: "wake_attempt E t (env_report E Connecting w) = Some (r, v)"
    and w': "w' = env_disconnect E v \<or> (\<exists>f. w' = env_report E (Failed f) (env_disconnect E v))"
  proof (cases "wake_attempt E t (env_report E Connecting w)")
    case (Some rv)
    obtain q v where rv: "rv = (q, v)" by force
    have "r = q \<and> (w' = env_disconnect E v \<or> (\<exists>f. w' = env_report E (Failed f) (env_disconnect E v)))"
      using assms Some rv by (cases q) (auto simp: run_wake_def Let_def)
    with Some rv that show ?thesis by blast
  qed (use assms in \<open>simp add: run_wake_def\<close>)
  have "R w (env_disconnect E v)" using trans [OF trans [OF report attempt_progress [OF a]] disconnect] .
  with w' show ?thesis using trans [OF _ report] by auto
qed

text \<open>A successful attempt located the PC, had its request accepted and then reached the PC.\<close>

lemma run_success:
  assumes "run_wake E t w = Some (Ok (), w')"
  shows "\<exists>a u v x. R w u \<and> fst (env_resolve E (target_mac t) u) = Ok a \<and>
    R (snd (env_resolve E (target_mac t) u)) v \<and> fst (env_send_wake E (target_mac t) v) = Ok () \<and>
    R (snd (env_send_wake E (target_mac t) v)) x \<and> fst (env_probe E a x) = Ok True \<and>
    R (snd (env_probe E a x)) w'"
proof -
  obtain z where a: "wake_attempt E t (env_report E Connecting w) = Some (Ok (), z)"
    and w': "w' = env_disconnect E z"
    using assms by (auto simp: run_wake_def Let_def split: option.splits sum.splits)
  obtain r1 w1 where c: "env_connect E (env_report E Connecting w) = (r1, w1)" by force
  let ?u = "env_report E ResolvingPc w1"
  obtain r2 w2 where s: "env_resolve E (target_mac t) ?u = (r2, w2)" by force
  let ?v = "env_report E Waking w2"
  obtain r3 w3 where k: "env_send_wake E (target_mac t) ?v = (r3, w3)" by force
  obtain address where ok: "r2 = Ok address" "r3 = Ok ()" "wake_loop E t address (env_now E w3) 0 w3 = Some (Ok (), z)"
    using a c s k by (auto simp: wake_attempt_def split: sum.splits)
  obtain x where x: "R w3 x" "fst (env_probe E address x) = Ok True" "R (snd (env_probe E address x)) z"
    using loop_success [OF ok(3)] by blast
  have "R w ?u" using trans [OF trans [OF report connect] report] c by (metis snd_conv)
  moreover have "R (snd (env_probe E address x)) w'" using trans [OF x(3) disconnect] w' by simp
  moreover have "R w2 ?v" by (rule report)
  ultimately show ?thesis using x(1,2) ok s k by (intro exI [of _ address] exI [of _ ?u] exI [of _ ?v] exI [of _ x]) simp
qed

end

text \<open>An invariant is a relation of this kind.\<close>

locale wake_invariant = wake_progress E "\<lambda>w w'. I w \<longrightarrow> I w'" for E :: "'w wake_env" and I :: "'w \<Rightarrow> bool"
begin

lemma run_invariant: "run_wake E t w = Some (r, w') \<Longrightarrow> I w \<Longrightarrow> I w'"
  using run_progress by blast

end

end
