(* ===== verification/Profile.thy ===== *)
theory Profile
  imports Ip_Addr
begin

text \<open>
  \<open>NetError\<close> and the WireGuard profile parser of \<open>crates/waker-net/src/lib.rs\<close>. The crates
  \<open>base64\<close> and \<open>ipnetwork\<close> are the record \<open>codecs\<close>: a decoder answers the value or the
  text of its error.
\<close>

section \<open>Errors\<close>

datatype net_error = Config string | WireGuard string | Network string | NetTimeout | WorkerStopped

fun show_net_error :: "net_error \<Rightarrow> string" where
  "show_net_error (Config m) = ''configuration error: '' @ m"
| "show_net_error (WireGuard m) = ''WireGuard error: '' @ m"
| "show_net_error (Network m) = ''network error: '' @ m"
| "show_net_error NetTimeout = ''operation timed out''"
| "show_net_error WorkerStopped = ''tunnel worker stopped''"

section \<open>Profiles\<close>

text \<open>A network of the \<open>ipnetwork\<close> crate: address and prefix length.\<close>

datatype ip_network = NetV4 ipv4 u8 | NetV6 ipv6 u8

record codecs =
  parse_ipnet :: "string \<Rightarrow> string + ip_network"
  b64_decode :: "string \<Rightarrow> string + u8 list"

record wireguard_profile =
  wg_address :: "ipv4 \<times> u8"
  wg_private_key :: "u8 list"
  wg_peer_public_key :: "u8 list"
  wg_preshared_key :: "u8 list option"
  wg_endpoint :: string
  wg_allowed_ips :: "ip_network list"
  wg_persistent_keepalive :: "u16 option"

definition has_preshared_key :: "wireguard_profile \<Rightarrow> bool" where
  "has_preshared_key p \<longleftrightarrow> wg_preshared_key p \<noteq> None"

definition parse_key :: "codecs \<Rightarrow> string \<Rightarrow> net_error + u8 list" where
  "parse_key C value =
     and_then (map_err (\<lambda>e. Config (''invalid WireGuard key: '' @ e)) (b64_decode C value))
       (\<lambda>bytes. if length bytes = 32 then Ok bytes
                else Err (Config ''WireGuard keys must decode to exactly 32 bytes''))"

datatype section_kind = SecNone | SecInterface | SecPeer

text \<open>The local variables of \<open>WireGuardProfile::parse\<close>.\<close>

record parse_state =
  ps_section :: section_kind
  ps_address :: "(ipv4 \<times> u8) option"
  ps_private_key :: "u8 list option"
  ps_peer_public_key :: "u8 list option"
  ps_preshared_key :: "u8 list option"
  ps_endpoint :: "string option"
  ps_allowed_ips :: "ip_network list"
  ps_persistent_keepalive :: "u16 option"

definition parse_init :: parse_state where
  "parse_init = \<lparr>ps_section = SecNone, ps_address = None, ps_private_key = None,
     ps_peer_public_key = None, ps_preshared_key = None, ps_endpoint = None,
     ps_allowed_ips = [], ps_persistent_keepalive = None\<rparr>"

fun first_v4 :: "codecs \<Rightarrow> string list \<Rightarrow> (ipv4 \<times> u8) option" where
  "first_v4 C [] = None"
| "first_v4 C (c # cs) =
     (case parse_ipnet C c of Ok (NetV4 a n) \<Rightarrow> Some (a, n) | _ \<Rightarrow> first_v4 C cs)"

fun push_allowed :: "codecs \<Rightarrow> string list \<Rightarrow> ip_network list \<Rightarrow> net_error + ip_network list" where
  "push_allowed C [] acc = Ok acc"
| "push_allowed C (n # ns) acc =
     (case parse_ipnet C n of
        Err e \<Rightarrow> Err (Config (''invalid AllowedIPs entry '' @ n @ '': '' @ e))
      | Ok net \<Rightarrow> push_allowed C ns (acc @ [net]))"

definition assign :: "codecs \<Rightarrow> string \<Rightarrow> string \<Rightarrow> parse_state \<Rightarrow> net_error + parse_state" where
  "assign C key value st =
     (if ps_section st = SecInterface \<and> key = ''Address'' then
        (case first_v4 C (map trim (split_on CHR '','' value)) of
           Some net \<Rightarrow> Ok (st\<lparr>ps_address := Some net\<rparr>)
         | None \<Rightarrow> Ok st)
      else if ps_section st = SecInterface \<and> key = ''PrivateKey'' then
        and_then (parse_key C value) (\<lambda>k. Ok (st\<lparr>ps_private_key := Some k\<rparr>))
      else if ps_section st = SecPeer \<and> key = ''PublicKey'' then
        and_then (parse_key C value) (\<lambda>k. Ok (st\<lparr>ps_peer_public_key := Some k\<rparr>))
      else if ps_section st = SecPeer \<and> key = ''PresharedKey'' then
        and_then (parse_key C value) (\<lambda>k. Ok (st\<lparr>ps_preshared_key := Some k\<rparr>))
      else if ps_section st = SecPeer \<and> key = ''Endpoint'' then
        Ok (st\<lparr>ps_endpoint := Some value\<rparr>)
      else if ps_section st = SecPeer \<and> key = ''AllowedIPs'' then
        and_then (push_allowed C (map trim (split_on CHR '','' value)) (ps_allowed_ips st))
          (\<lambda>nets. Ok (st\<lparr>ps_allowed_ips := nets\<rparr>))
      else if ps_section st = SecPeer \<and> key = ''PersistentKeepalive'' then
        and_then (map_err (\<lambda>e. Config (''invalid PersistentKeepalive: '' @ show_int_error e)) (parse_u16 value))
          (\<lambda>k. Ok (st\<lparr>ps_persistent_keepalive := Some k\<rparr>))
      else Ok st)"

text \<open>The part of a line before a comment, trimmed.\<close>

definition line_content :: "string \<Rightarrow> string" where
  "line_content raw = trim (hd (split_on CHR ''#'' raw))"

definition parse_line :: "codecs \<Rightarrow> nat \<Rightarrow> string \<Rightarrow> parse_state \<Rightarrow> net_error + parse_state" where
  "parse_line C line_number raw st =
     (let line = line_content raw in
      if line = [] then Ok st
      else if line = ''[Interface]'' then Ok (st\<lparr>ps_section := SecInterface\<rparr>)
      else if line = ''[Peer]'' then
        (if ps_peer_public_key st \<noteq> None
         then Err (Config ''Waker currently supports exactly one WireGuard peer'')
         else Ok (st\<lparr>ps_section := SecPeer\<rparr>))
      else (case split_once CHR ''='' line of
              None \<Rightarrow> Err (Config (''invalid WireGuard line '' @ show_nat (line_number + 1)))
            | Some (key, value) \<Rightarrow> assign C (trim key) (trim value) st))"

fun parse_lines :: "codecs \<Rightarrow> nat \<Rightarrow> string list \<Rightarrow> parse_state \<Rightarrow> net_error + parse_state" where
  "parse_lines C n [] st = Ok st"
| "parse_lines C n (l # ls) st = and_then (parse_line C n l st) (parse_lines C (n + 1) ls)"

definition parse_finish :: "parse_state \<Rightarrow> net_error + wireguard_profile" where
  "parse_finish st =
     and_then (ok_or (Config ''WireGuard profile has no IPv4 Interface Address'') (ps_address st)) (\<lambda>address.
     and_then (ok_or (Config ''WireGuard profile has no PrivateKey'') (ps_private_key st)) (\<lambda>private_key.
     and_then (ok_or (Config ''WireGuard profile has no peer PublicKey'') (ps_peer_public_key st)) (\<lambda>peer_public_key.
     and_then (ok_or (Config ''WireGuard profile has no peer Endpoint'') (ps_endpoint st)) (\<lambda>endpoint.
     if ps_allowed_ips st = [] then Err (Config ''WireGuard profile has no peer AllowedIPs'')
     else Ok \<lparr>wg_address = address, wg_private_key = private_key,
        wg_peer_public_key = peer_public_key, wg_preshared_key = ps_preshared_key st,
        wg_endpoint = endpoint, wg_allowed_ips = ps_allowed_ips st,
        wg_persistent_keepalive = ps_persistent_keepalive st\<rparr>))))"

definition parse_profile :: "codecs \<Rightarrow> string \<Rightarrow> net_error + wireguard_profile" where
  "parse_profile C input = and_then (parse_lines C 0 (lines input) parse_init) parse_finish"

section \<open>Well-formed profiles\<close>

definition key_wf :: "u8 list option \<Rightarrow> bool" where
  "key_wf k \<longleftrightarrow> (case k of None \<Rightarrow> True | Some bs \<Rightarrow> length bs = 32)"

definition parse_state_wf :: "parse_state \<Rightarrow> bool" where
  "parse_state_wf st \<longleftrightarrow>
     key_wf (ps_private_key st) \<and> key_wf (ps_peer_public_key st) \<and> key_wf (ps_preshared_key st)"

definition profile_wf :: "wireguard_profile \<Rightarrow> bool" where
  "profile_wf p \<longleftrightarrow> length (wg_private_key p) = 32 \<and> length (wg_peer_public_key p) = 32 \<and>
     key_wf (wg_preshared_key p) \<and> wg_allowed_ips p \<noteq> []"

lemma parse_key_length: "parse_key C v = Ok k \<Longrightarrow> length k = 32"
  by (auto simp: parse_key_def result_simps split: if_splits)

text \<open>The branches of an assignment.\<close>

lemma assign_elim:
  assumes "assign C k v st = Ok st'"
  obtains (address) "ps_section st = SecInterface" "k = ''Address''"
        "(case first_v4 C (map trim (split_on CHR '','' v)) of Some net \<Rightarrow> Ok (st\<lparr>ps_address := Some net\<rparr>) | None \<Rightarrow> Ok st) = (Ok st' :: net_error + parse_state)"
    | (private_key) "ps_section st = SecInterface" "k = ''PrivateKey''"
        "and_then (parse_key C v) (\<lambda>k. Ok (st\<lparr>ps_private_key := Some k\<rparr>)) = (Ok st' :: net_error + parse_state)"
    | (public_key) "ps_section st = SecPeer" "k = ''PublicKey''"
        "and_then (parse_key C v) (\<lambda>k. Ok (st\<lparr>ps_peer_public_key := Some k\<rparr>)) = (Ok st' :: net_error + parse_state)"
    | (preshared_key) "ps_section st = SecPeer" "k = ''PresharedKey''"
        "and_then (parse_key C v) (\<lambda>k. Ok (st\<lparr>ps_preshared_key := Some k\<rparr>)) = (Ok st' :: net_error + parse_state)"
    | (endpoint) "ps_section st = SecPeer" "k = ''Endpoint''" "Ok (st\<lparr>ps_endpoint := Some v\<rparr>) = (Ok st' :: net_error + parse_state)"
    | (nets) "ps_section st = SecPeer" "k = ''AllowedIPs''"
        "and_then (push_allowed C (map trim (split_on CHR '','' v)) (ps_allowed_ips st)) (\<lambda>nets. Ok (st\<lparr>ps_allowed_ips := nets\<rparr>)) = (Ok st' :: net_error + parse_state)"
    | (keepalive) "ps_section st = SecPeer" "k = ''PersistentKeepalive''"
        "and_then (map_err (\<lambda>e. Config (''invalid PersistentKeepalive: '' @ show_int_error e)) (parse_u16 v)) (\<lambda>k. Ok (st\<lparr>ps_persistent_keepalive := Some k\<rparr>)) = (Ok st' :: net_error + parse_state)"
    | (other) "Ok st = (Ok st' :: net_error + parse_state)"
proof -
  show thesis using assms unfolding assign_def by (elim if_branch conjE) (rule that; assumption)+
qed

text \<open>The updates one assignment can make.\<close>

lemma assign_cases:
  assumes "assign C k v st = Ok st'"
  shows "st' = st
    \<or> (\<exists>n. ps_section st = SecInterface \<and> st' = st\<lparr>ps_address := Some n\<rparr>)
    \<or> (\<exists>b. ps_section st = SecInterface \<and> length b = 32 \<and> st' = st\<lparr>ps_private_key := Some b\<rparr>)
    \<or> (\<exists>b. ps_section st = SecPeer \<and> length b = 32 \<and> st' = st\<lparr>ps_peer_public_key := Some b\<rparr>)
    \<or> (\<exists>b. ps_section st = SecPeer \<and> length b = 32 \<and> st' = st\<lparr>ps_preshared_key := Some b\<rparr>)
    \<or> (ps_section st = SecPeer \<and> st' = st\<lparr>ps_endpoint := Some v\<rparr>)
    \<or> (\<exists>ns. ps_section st = SecPeer \<and> st' = st\<lparr>ps_allowed_ips := ns\<rparr>)
    \<or> (\<exists>w. ps_section st = SecPeer \<and> st' = st\<lparr>ps_persistent_keepalive := Some w\<rparr>)"
  using assms
proof (cases rule: assign_elim)
  case address
  then show ?thesis by (auto split: option.splits)
qed (auto simp: result_simps dest: parse_key_length)

lemma assign_wf: "parse_state_wf st \<Longrightarrow> assign C k v st = Ok st' \<Longrightarrow> parse_state_wf st'"
  by (drule assign_cases) (elim disjE exE conjE; simp add: parse_state_wf_def key_wf_def)

text \<open>What one line can do.\<close>

lemma parse_line_cases:
  assumes "parse_line C n l st = Ok st'"
  shows "st' = st \<or> st' = st\<lparr>ps_section := SecInterface\<rparr>
    \<or> (ps_peer_public_key st = None \<and> line_content l = ''[Peer]'' \<and> st' = st\<lparr>ps_section := SecPeer\<rparr>)
    \<or> (\<exists>k v. split_once CHR ''='' (line_content l) = Some (k, v) \<and> assign C (trim k) (trim v) st = Ok st')"
proof -
  have key: "\<exists>k v. x = Some (k, v) \<and> assign C (trim k) (trim v) st = Ok st'"
    if "(case x of None \<Rightarrow> Err e | Some (k, v) \<Rightarrow> assign C (trim k) (trim v) st) = Ok st'" for x e
    using that by (auto split: option.splits)
  have peer: "ps_peer_public_key st = None \<and> st' = st\<lparr>ps_section := SecPeer\<rparr>"
    if "(if ps_peer_public_key st \<noteq> None then Err e else Ok (st\<lparr>ps_section := SecPeer\<rparr>)) = Ok st'" for e
    using that by (cases "ps_peer_public_key st") auto
  show ?thesis
    using assms unfolding parse_line_def Let_def
    by (elim if_branch [of "line_content l = _"]; (unfold sum.inject)?; blast dest: key peer)
qed

lemma parse_line_wf: "parse_state_wf st \<Longrightarrow> parse_line C n l st = Ok st' \<Longrightarrow> parse_state_wf st'"
  by (drule parse_line_cases)
     (elim disjE exE conjE; (simp add: parse_state_wf_def; fail | rule assign_wf, assumption+))

lemma parse_lines_rule:
  assumes "I st" "parse_lines C n ls st = Ok st'"
    and "\<And>n l st st'. l \<in> set ls \<Longrightarrow> I st \<Longrightarrow> parse_line C n l st = Ok st' \<Longrightarrow> I st'"
  shows "I st'"
  using assms
proof (induction ls arbitrary: n st)
  case (Cons l ls)
  then obtain st1 where "parse_line C n l st = Ok st1" "parse_lines C (n + 1) ls st1 = Ok st'"
    by (auto simp: result_simps)
  with Cons show ?case by (meson list.set_intros)
qed simp

lemma parse_lines_append:
  "parse_lines C n (a @ b) st = and_then (parse_lines C n a st) (parse_lines C (n + length a) b)"
proof (induction a arbitrary: n st)
  case (Cons l a)
  then show ?case by (cases "parse_line C n l st") auto
qed simp

text \<open>
  The section the lines read so far have opened, and the settings a profile makes: \<open>assigns ls sec key v\<close>
  when a line of \<open>ls\<close> in section \<open>sec\<close> assigns the text \<open>v\<close> to \<open>key\<close>.
\<close>

definition next_section :: "section_kind \<Rightarrow> string \<Rightarrow> section_kind" where
  "next_section sec l = (if line_content l = ''[Interface]'' then SecInterface
     else if line_content l = ''[Peer]'' then SecPeer else sec)"

definition section_after :: "string list \<Rightarrow> section_kind" where
  "section_after ls = foldl next_section SecNone ls"

definition assigns :: "string list \<Rightarrow> section_kind \<Rightarrow> string \<Rightarrow> string \<Rightarrow> bool" where
  "assigns ls sec key v \<longleftrightarrow> (\<exists>pre l post k x. ls = pre @ l # post \<and> section_after pre = sec \<and>
     split_once CHR ''='' (line_content l) = Some (k, x) \<and> trim k = key \<and> trim x = v)"

lemma section_after_simps [simp]: "section_after [] = SecNone" "section_after (ls @ [l]) = next_section (section_after ls) l"
  by (simp_all add: section_after_def)

lemma assigns_later: "assigns ls sec key v \<Longrightarrow> assigns (ls @ [l]) sec key v"
  unfolding assigns_def by (metis append.assoc append_Cons)

lemma assigns_last:
  "split_once CHR ''='' (line_content l) = Some (k, x) \<Longrightarrow> assigns (ls @ [l]) (section_after ls) (trim k) (trim x)"
  unfolding assigns_def by blast

text \<open>Everything a state or a profile holds was assigned.\<close>

definition assigns_key :: "codecs \<Rightarrow> string list \<Rightarrow> section_kind \<Rightarrow> string \<Rightarrow> u8 list \<Rightarrow> bool" where
  "assigns_key C ls sec key b \<longleftrightarrow> (\<exists>v. assigns ls sec key v \<and> parse_key C v = Ok b)"

definition assigns_address :: "codecs \<Rightarrow> string list \<Rightarrow> ipv4 \<times> u8 \<Rightarrow> bool" where
  "assigns_address C ls a \<longleftrightarrow> (\<exists>v. assigns ls SecInterface ''Address'' v \<and> first_v4 C (map trim (split_on CHR '','' v)) = Some a)"

definition assigns_net :: "codecs \<Rightarrow> string list \<Rightarrow> ip_network \<Rightarrow> bool" where
  "assigns_net C ls net \<longleftrightarrow> (\<exists>v. assigns ls SecPeer ''AllowedIPs'' v \<and>
     (\<exists>n \<in> set (split_on CHR '','' v). parse_ipnet C (trim n) = Ok net))"

definition assigns_keepalive :: "string list \<Rightarrow> u16 \<Rightarrow> bool" where
  "assigns_keepalive ls w \<longleftrightarrow> (\<exists>v. assigns ls SecPeer ''PersistentKeepalive'' v \<and> parse_u16 v = Ok w)"

lemma assigned_later:
  "assigns_key C ls sec key b \<Longrightarrow> assigns_key C (ls @ [l]) sec key b"
  "assigns_address C ls a \<Longrightarrow> assigns_address C (ls @ [l]) a"
  "assigns_net C ls net \<Longrightarrow> assigns_net C (ls @ [l]) net"
  "assigns_keepalive ls w \<Longrightarrow> assigns_keepalive (ls @ [l]) w"
  unfolding assigns_key_def assigns_address_def assigns_net_def assigns_keepalive_def using assigns_later by blast+

definition all_assigned :: "codecs \<Rightarrow> string list \<Rightarrow> parse_state \<Rightarrow> bool" where
  "all_assigned C ls st \<longleftrightarrow>
     (\<forall>a. ps_address st = Some a \<longrightarrow> assigns_address C ls a) \<and>
     (\<forall>b. ps_private_key st = Some b \<longrightarrow> assigns_key C ls SecInterface ''PrivateKey'' b) \<and>
     (\<forall>b. ps_peer_public_key st = Some b \<longrightarrow> assigns_key C ls SecPeer ''PublicKey'' b) \<and>
     (\<forall>b. ps_preshared_key st = Some b \<longrightarrow> assigns_key C ls SecPeer ''PresharedKey'' b) \<and>
     (\<forall>v. ps_endpoint st = Some v \<longrightarrow> assigns ls SecPeer ''Endpoint'' v) \<and>
     (\<forall>net \<in> set (ps_allowed_ips st). assigns_net C ls net) \<and>
     (\<forall>w. ps_persistent_keepalive st = Some w \<longrightarrow> assigns_keepalive ls w)"

lemma all_assigned_later: "all_assigned C ls st \<Longrightarrow> all_assigned C (ls @ [l]) (st\<lparr>ps_section := sec\<rparr>)"
  by (simp add: all_assigned_def assigned_later assigns_later)

lemma push_allowed_from:
  "push_allowed C ns acc = Ok nets \<Longrightarrow> net \<in> set nets \<Longrightarrow> net \<in> set acc \<or> (\<exists>n \<in> set ns. parse_ipnet C n = Ok net)"
  by (induction C ns acc rule: push_allowed.induct) (auto split: sum.splits)

lemma assign_assigned:
  assumes "assign C k v st = Ok st'" "all_assigned C ls st" "assigns ls (ps_section st) k v"
  shows "all_assigned C ls st' \<and> ps_section st' = ps_section st"
  using assms(1)
proof (cases rule: assign_elim)
  case address
  then show ?thesis using assms(2,3)
    by (auto simp: all_assigned_def assigns_address_def split: option.splits)
next
  case nets
  then obtain ns where "push_allowed C (map trim (split_on CHR '','' v)) (ps_allowed_ips st) = Ok ns" "st' = st\<lparr>ps_allowed_ips := ns\<rparr>"
    by (auto simp: result_simps)
  then show ?thesis using assms(2,3) nets push_allowed_from
    by (fastforce simp: all_assigned_def assigns_net_def)
qed (use assms(2,3) in \<open>auto simp: all_assigned_def assigns_key_def assigns_keepalive_def result_simps\<close>)

lemma parse_line_assigned:
  assumes line: "parse_line C n l st = Ok st'" and st: "all_assigned C ls st" "ps_section st = section_after ls"
  shows "all_assigned C (ls @ [l]) st' \<and> ps_section st' = section_after (ls @ [l])"
proof (cases "line_content l \<in> {[], ''[Interface]'', ''[Peer]''}")
  case True
  then have "st' = st\<lparr>ps_section := next_section (ps_section st) l\<rparr>"
    using line by (auto simp: parse_line_def next_section_def split: if_splits)
  with st show ?thesis by (simp add: all_assigned_later)
next
  case False
  then obtain k x where kx: "split_once CHR ''='' (line_content l) = Some (k, x)" "assign C (trim k) (trim x) st = Ok st'"
    using line by (auto simp: parse_line_def split: option.splits)
  have "all_assigned C (ls @ [l]) st" using all_assigned_later [OF st(1), of l "ps_section st"] by simp
  from assign_assigned [OF kx(2) this] assigns_last [OF kx(1), of ls] st(2) False
  show ?thesis by (simp add: next_section_def)
qed

lemma parse_lines_assigned:
  "parse_lines C n ls parse_init = Ok st \<Longrightarrow> all_assigned C ls st \<and> ps_section st = section_after ls"
proof (induction ls arbitrary: st rule: rev_induct)
  case Nil
  then have "st = parse_init" by simp
  then show ?case by (simp add: all_assigned_def parse_init_def)
next
  case (snoc l ls)
  then obtain st1 where "parse_lines C n ls parse_init = Ok st1" "parse_line C (n + length ls) l st1 = Ok st"
    by (auto simp: parse_lines_append result_simps)
  with snoc.IH parse_line_assigned show ?case by blast
qed

text \<open>C21: \<^bold>\<open>a parsed profile is complete, and nothing in it is made up\<close>. Every profile the parser returns
  has a private and a peer key of exactly 32 bytes, a preshared key of 32 bytes when it has one, and at least one
  allowed network. Its address, its keys, its endpoint, every allowed network and its keepalive are each read
  from the value a line of the input gives that setting in the right section: a profile whose \<open>[Peer]\<close> section
  has no \<open>Endpoint\<close>, say, is refused.\<close>

theorem parse_profile_wf:
  assumes "parse_profile C input = Ok p"
  shows "profile_wf p
    \<and> assigns_address C (lines input) (wg_address p)
    \<and> assigns_key C (lines input) SecInterface ''PrivateKey'' (wg_private_key p)
    \<and> assigns_key C (lines input) SecPeer ''PublicKey'' (wg_peer_public_key p)
    \<and> (\<forall>b. wg_preshared_key p = Some b \<longrightarrow> assigns_key C (lines input) SecPeer ''PresharedKey'' b)
    \<and> assigns (lines input) SecPeer ''Endpoint'' (wg_endpoint p)
    \<and> (\<forall>net \<in> set (wg_allowed_ips p). assigns_net C (lines input) net)
    \<and> (\<forall>w. wg_persistent_keepalive p = Some w \<longrightarrow> assigns_keepalive (lines input) w)"
proof -
  obtain st where st: "parse_lines C 0 (lines input) parse_init = Ok st" "parse_finish st = Ok p"
    using assms by (auto simp: parse_profile_def result_simps)
  have "parse_state_wf parse_init"
    by (simp add: parse_init_def parse_state_wf_def key_wf_def)
  then have "parse_state_wf st"
    using st(1) by (rule parse_lines_rule) (rule parse_line_wf)
  then have "profile_wf p" using st(2)
    by (auto simp: parse_finish_def parse_state_wf_def profile_wf_def key_wf_def result_simps split: if_splits)
  moreover have "all_assigned C (lines input) st" using parse_lines_assigned [OF st(1)] by blast
  ultimately show ?thesis using st(2)
    by (auto simp: parse_finish_def all_assigned_def result_simps split: if_splits)
qed

section \<open>One peer\<close>

lemma public_key_kept:
  assumes "parse_line C n l st = Ok st'" "ps_peer_public_key st \<noteq> None"
  shows "ps_peer_public_key st' \<noteq> None \<and> line_content l \<noteq> ''[Peer]''"
proof -
  have "line_content l \<noteq> ''[Peer]''"
    using assms by (auto simp: parse_line_def)
  moreover have "ps_peer_public_key st' \<noteq> None"
    using parse_line_cases [OF assms(1)] assms(2)
    by (elim disjE exE conjE; (simp; fail)?) (drule assign_cases, elim disjE exE conjE; simp)
  ultimately show ?thesis by blast
qed

lemma public_key_kept_lines:
  "parse_lines C n ls st = Ok st' \<Longrightarrow> ps_peer_public_key st \<noteq> None \<Longrightarrow>
   \<forall>l \<in> set ls. line_content l \<noteq> ''[Peer]''"
proof (induction ls arbitrary: n st)
  case (Cons l ls)
  then obtain st1 where "parse_line C n l st = Ok st1" "parse_lines C (n + 1) ls st1 = Ok st'"
    by (auto simp: result_simps)
  with Cons show ?case using public_key_kept by (metis set_ConsD)
qed simp

text \<open>C22: \<^bold>\<open>a second peer is refused\<close>. Once the lines read so far have given a peer public
  key, an accepted profile has no further \<open>[Peer]\<close> header: the text after that point is all
  about the same peer or about the interface.\<close>

theorem parse_profile_one_peer:
  assumes "parse_profile C input = Ok p" and "lines input = pre @ post"
    and "parse_lines C 0 pre parse_init = Ok st" and "ps_peer_public_key st \<noteq> None"
  shows "\<forall>l \<in> set post. line_content l \<noteq> ''[Peer]''"
proof -
  obtain st' where "parse_lines C 0 (pre @ post) parse_init = Ok st'"
    using assms(1,2) by (auto simp: parse_profile_def result_simps)
  then have "parse_lines C (length pre) post st = Ok st'"
    by (simp add: parse_lines_append assms(3))
  then show ?thesis using assms(4) by (rule public_key_kept_lines)
qed

section \<open>Ignored lines\<close>

definition known_keys :: "string list" where
  "known_keys = [''Address'', ''PrivateKey'', ''PublicKey'', ''PresharedKey'', ''Endpoint'',
     ''AllowedIPs'', ''PersistentKeepalive'']"

text \<open>A line the parser has no use for: blank, a comment, or an assignment to another key.\<close>

definition ignored_line :: "string \<Rightarrow> bool" where
  "ignored_line l \<longleftrightarrow> line_content l = [] \<or>
     (line_content l \<notin> {''[Interface]'', ''[Peer]''} \<and>
      (\<exists>k v. split_once CHR ''='' (line_content l) = Some (k, v) \<and> trim k \<notin> set known_keys))"

lemma assign_ignored: "k \<notin> set known_keys \<Longrightarrow> assign C k v st = Ok st"
  by (simp add: known_keys_def assign_def)

lemma parse_line_ignored: "ignored_line l \<Longrightarrow> parse_line C n l st = Ok st"
  by (auto simp: ignored_line_def parse_line_def Let_def assign_ignored)

lemma parse_line_number:
  "parse_line C n l st = Ok st' \<Longrightarrow> parse_line C m l st = Ok st'"
  by (cases "split_once CHR ''='' (line_content l)")
     (auto simp: parse_line_def Let_def split: if_splits)

lemma parse_lines_number:
  "parse_lines C n ls st = Ok st' \<Longrightarrow> parse_lines C m ls st = Ok st'"
  by (induction ls arbitrary: n m st) (auto simp: result_simps dest: parse_line_number)

text \<open>\<^bold>\<open>other settings do not matter\<close>. Waker's own keys and every other \<open>wg-quick\<close> field
  may stand in a profile anywhere: with such a line, a comment or a blank line added between any
  two lines, the parser accepts the profile in the same cases and returns the same value.\<close>

theorem parse_profile_ignores:
  assumes "ignored_line l" and "lines input = pre @ l # post" and "lines input' = pre @ post"
  shows "parse_profile C input = Ok p \<longleftrightarrow> parse_profile C input' = Ok p"
proof -
  have "parse_lines C 0 (pre @ l # post) parse_init = Ok st \<longleftrightarrow>
        parse_lines C 0 (pre @ post) parse_init = Ok st" for st
  proof (cases "parse_lines C 0 pre parse_init")
    case (Inr st1)
    then show ?thesis
      using parse_lines_number [of C "Suc (length pre)" post st1 st "length pre"]
        parse_lines_number [of C "length pre" post st1 st "Suc (length pre)"]
      by (auto simp: parse_lines_append parse_line_ignored [OF assms(1)])
  qed (simp add: parse_lines_append)
  then show ?thesis
    by (simp add: parse_profile_def assms(2,3) result_simps)
qed

section \<open>Reading back a written profile\<close>

fun unlines :: "string list \<Rightarrow> string" where
  "unlines [] = []"
| "unlines (l # ls) = l @ nl # unlines ls"

lemma lines_unlines:
  "\<forall>l \<in> set ls. nl \<notin> set l \<and> cr \<notin> set l \<Longrightarrow> lines (unlines ls) = ls"
  by (induction ls) (auto simp: str_simps)

text \<open>The texts that may stand for a value: visible ASCII at both ends and no comment sign or
  line end inside; a word has visible characters only and no comma.\<close>

definition value_text :: "string \<Rightarrow> bool" where
  "value_text v \<longleftrightarrow> v \<noteq> [] \<and> graph_char (hd v) \<and> graph_char (last v) \<and>
     CHR ''#'' \<notin> set v \<and> nl \<notin> set v \<and> cr \<notin> set v"

definition word_text :: "string \<Rightarrow> bool" where
  "word_text v \<longleftrightarrow> v \<noteq> [] \<and> (\<forall>c \<in> set v. graph_char c \<and> c \<noteq> CHR ''#'' \<and> c \<noteq> CHR '','')"

lemma not_graph [simp]: "\<not> graph_char nl" "\<not> graph_char cr" "\<not> graph_char CHR '' ''"
  by (simp_all add: graph_char_def)

lemma word_value_text: "word_text v \<Longrightarrow> value_text v"
  unfolding word_text_def value_text_def
  by (metis hd_in_set last_in_set not_graph(1,2))

lemma word_no_comma: "word_text v \<Longrightarrow> CHR '','' \<notin> set v"
  by (auto simp: word_text_def)

lemma word_trim: "word_text v \<Longrightarrow> trim v = v"
  by (simp add: word_text_def trim_graph_all)

text \<open>One setting, as a line.\<close>

definition setting :: "string \<Rightarrow> string \<Rightarrow> string" where
  "setting k v = k @ '' = '' @ v"

lemma known_keys_clean:
  "list_all (\<lambda>k. k \<noteq> [] \<and> hd k \<noteq> CHR ''['' \<and>
     list_all (\<lambda>c. graph_char c \<and> c \<noteq> CHR ''#'' \<and> c \<noteq> CHR ''='') k) known_keys"
  by code_simp

lemma setting_content:
  assumes "k \<in> set known_keys" "value_text v"
  shows "line_content (setting k v) = setting k v"
    and "split_once CHR ''='' (setting k v) = Some (k @ '' '', CHR '' '' # v)"
    and "trim (k @ '' '') = k" "trim (CHR '' '' # v) = v"
    and "setting k v \<notin> {[], ''[Interface]'', ''[Peer]''}"
    and "nl \<notin> set (setting k v)" "cr \<notin> set (setting k v)"
proof -
  have v: "v \<noteq> []" "graph_char (hd v)" "graph_char (last v)" "CHR ''#'' \<notin> set v" "nl \<notin> set v" "cr \<notin> set v"
    using assms(2) by (auto simp: value_text_def)
  have k: "k \<noteq> []" "\<forall>c \<in> set k. graph_char c \<and> c \<noteq> CHR ''#'' \<and> c \<noteq> CHR ''=''" "hd k \<noteq> CHR ''[''"
    using known_keys_clean assms(1) unfolding list_all_iff by blast+
  then have kc: "CHR ''#'' \<notin> set k" "CHR ''='' \<notin> set k" "nl \<notin> set k" "cr \<notin> set k" "graph_char (hd k)"
    using not_graph by (metis hd_in_set)+
  have "trim (setting k v) = setting k v"
    using k kc v by (intro trim_graph) (simp add: setting_def)
  then show "line_content (setting k v) = setting k v"
    using v kc by (simp add: line_content_def split_on_no_sep setting_def)
  show "split_once CHR ''='' (setting k v) = Some (k @ '' '', CHR '' '' # v)"
    using split_once_append [of "CHR ''=''" "k @ '' ''" "CHR '' '' # v"] kc by (simp add: setting_def)
  show "trim (k @ '' '') = k"
  proof -
    have "trim_start (k @ '' '') = k @ '' ''"
      using trim_start_graph [OF kc(5), of "tl k @ '' ''"] k(1) by (metis append_Cons list.collapse)
    moreover have "trim_end k = k"
      using trim_end_graph [of "last k" "butlast k"] k by simp
    ultimately show ?thesis by (simp add: trim_def trim_end_space)
  qed
  show "trim (CHR '' '' # v) = v"
    using v by (simp add: trim_space_front trim_graph)
  show "setting k v \<notin> {[], ''[Interface]'', ''[Peer]''}"
    using k by (cases k) (simp_all add: setting_def)
  show "nl \<notin> set (setting k v)" "cr \<notin> set (setting k v)"
    using kc v by (auto simp: setting_def)
qed

lemma known [simp]:
  "''Address'' \<in> set known_keys" "''PrivateKey'' \<in> set known_keys" "''PublicKey'' \<in> set known_keys"
  "''PresharedKey'' \<in> set known_keys" "''Endpoint'' \<in> set known_keys"
  "''AllowedIPs'' \<in> set known_keys" "''PersistentKeepalive'' \<in> set known_keys"
  by (simp_all add: known_keys_def)

lemma assign_interface:
  assumes "ps_section st = SecInterface"
  shows "first_v4 C (map trim (split_on CHR '','' v)) = Some net \<Longrightarrow>
      assign C ''Address'' v st = Ok (st\<lparr>ps_address := Some net\<rparr>)"
    and "parse_key C v = Ok b \<Longrightarrow> assign C ''PrivateKey'' v st = Ok (st\<lparr>ps_private_key := Some b\<rparr>)"
  using assms by (simp_all add: assign_def)

lemma assign_peer:
  assumes "ps_section st = SecPeer"
  shows "parse_key C v = Ok b \<Longrightarrow> assign C ''PublicKey'' v st = Ok (st\<lparr>ps_peer_public_key := Some b\<rparr>)"
    and "parse_key C v = Ok b \<Longrightarrow> assign C ''PresharedKey'' v st = Ok (st\<lparr>ps_preshared_key := Some b\<rparr>)"
    and "assign C ''Endpoint'' v st = Ok (st\<lparr>ps_endpoint := Some v\<rparr>)"
    and "push_allowed C (map trim (split_on CHR '','' v)) (ps_allowed_ips st) = Ok ns \<Longrightarrow>
      assign C ''AllowedIPs'' v st = Ok (st\<lparr>ps_allowed_ips := ns\<rparr>)"
    and "parse_u16 v = Ok w \<Longrightarrow>
      assign C ''PersistentKeepalive'' v st = Ok (st\<lparr>ps_persistent_keepalive := Some w\<rparr>)"
  using assms by (simp_all add: assign_def)

lemma parse_setting:
  assumes "k \<in> set known_keys" "value_text v"
  shows "parse_line C n (setting k v) st = assign C k v st"
  using setting_content [OF assms] by (simp add: parse_line_def)

lemma parse_headers:
  "parse_line C n ''[Interface]'' st = Ok (st\<lparr>ps_section := SecInterface\<rparr>)"
  "ps_peer_public_key st = None \<Longrightarrow> parse_line C n ''[Peer]'' st = Ok (st\<lparr>ps_section := SecPeer\<rparr>)"
proof -
  have "graph_char CHR ''[''" "graph_char CHR '']''" by (simp_all add: graph_char_def)
  then have "line_content ''[Interface]'' = ''[Interface]''" "line_content ''[Peer]'' = ''[Peer]''"
    by (simp_all add: line_content_def trim_graph)
  then show "parse_line C n ''[Interface]'' st = Ok (st\<lparr>ps_section := SecInterface\<rparr>)"
    "ps_peer_public_key st = None \<Longrightarrow> parse_line C n ''[Peer]'' st = Ok (st\<lparr>ps_section := SecPeer\<rparr>)"
    by (simp_all add: parse_line_def)
qed

lemma split_nets:
  "ns \<noteq> [] \<Longrightarrow> \<forall>n \<in> set ns. word_text n \<Longrightarrow> map trim (split_on CHR '','' (join '', '' ns)) = ns"
proof (induction "'', ''" ns rule: join.induct)
  case (2 l)
  then show ?case by (simp add: word_trim split_on_no_sep word_no_comma)
next
  case (3 l l' ls)
  then have l: "word_text l" "CHR '','' \<notin> set l" by (simp_all add: word_no_comma)
  obtain p ps where ps: "split_on CHR '','' (join '', '' (l' # ls)) = p # ps"
    by (meson neq_Nil_conv split_on_not_Nil)
  with 3 l show ?case by (simp add: split_on_append word_trim trim_space_front)
qed simp

lemma join_value_text:
  "ns \<noteq> [] \<Longrightarrow> \<forall>n \<in> set ns. word_text n \<Longrightarrow> value_text (join '', '' ns)"
proof (induction "'', ''" ns rule: join.induct)
  case (3 l l' ls)
  then have "value_text l" "value_text (join '', '' (l' # ls))" by (auto intro: word_value_text)
  then show ?case by (auto simp: value_text_def)
qed (auto intro: word_value_text)

text \<open>The lines of a profile whose values have the given texts.\<close>

definition profile_text ::
  "string \<Rightarrow> string \<Rightarrow> string \<Rightarrow> string option \<Rightarrow> string list \<Rightarrow> string \<Rightarrow> u16 option \<Rightarrow> string list" where
  "profile_text addr priv pub psk nets ep ka =
     [''[Interface]'', setting ''Address'' addr, setting ''PrivateKey'' priv,
      ''[Peer]'', setting ''PublicKey'' pub] @
     (case psk of None \<Rightarrow> [] | Some t \<Rightarrow> [setting ''PresharedKey'' t]) @
     [setting ''AllowedIPs'' (join '', '' nets), setting ''Endpoint'' ep] @
     (case ka of None \<Rightarrow> [] | Some w \<Rightarrow> [setting ''PersistentKeepalive'' (show_nat (unat w))])"

lemma push_allowed_all:
  "\<forall>n \<in> set ns. parse_ipnet C n = Ok (f n) \<Longrightarrow> push_allowed C ns acc = Ok (acc @ map f ns)"
  by (induction ns arbitrary: acc) auto

lemma show_nat_word: "word_text (show_nat n)"
proof -
  have "CHR ''#'' \<notin> set (show_nat n)" "CHR '','' \<notin> set (show_nat n)" by simp_all
  then show ?thesis using show_nat_graph unfolding word_text_def by (metis show_nat_not_Nil)
qed

text \<open>C20: \<^bold>\<open>what is written is what is read\<close>. A profile file that gives an address, keys,
  networks, endpoint and keepalive by texts their decoders read as those values parses to exactly
  the profile with these values.\<close>

theorem parse_profile_roundtrip:
  assumes addr: "word_text addr" "parse_ipnet C addr = Ok (NetV4 a n)"
    and priv: "word_text priv" "b64_decode C priv = Ok kpriv" "length kpriv = 32"
    and pub: "word_text pub" "b64_decode C pub = Ok kpub" "length kpub = 32"
    and psk: "\<And>s. psk = Some s \<Longrightarrow> word_text s \<and> b64_decode C s = Ok kpsk \<and> length kpsk = 32"
    and nets: "nets \<noteq> []" "\<forall>s \<in> set nets. word_text s \<and> parse_ipnet C s = Ok (f s)"
    and ep: "word_text ep"
  shows "parse_profile C (unlines (profile_text addr priv pub psk nets ep ka)) =
    Ok \<lparr>wg_address = (a, n), wg_private_key = kpriv, wg_peer_public_key = kpub,
        wg_preshared_key = map_option (\<lambda>s. kpsk) psk, wg_endpoint = ep,
        wg_allowed_ips = map f nets, wg_persistent_keepalive = ka\<rparr>"
proof -
  let ?ls = "profile_text addr priv pub psk nets ep ka"
  have nv: "value_text (join '', '' nets)" using nets by (intro join_value_text) auto
  have words: "value_text addr" "value_text priv" "value_text pub" "value_text ep"
      "\<And>w. value_text (show_nat w)" "\<And>s. psk = Some s \<Longrightarrow> value_text s"
    using addr priv pub psk ep show_nat_word word_value_text by blast+
  have "\<forall>l \<in> set ?ls. nl \<notin> set l \<and> cr \<notin> set l"
    using words nv by (cases psk; cases ka) (simp_all add: profile_text_def setting_content(6,7))
  then have ls: "lines (unlines ?ls) = ?ls" by (rule lines_unlines)
  have keys: "parse_key C priv = Ok kpriv" "parse_key C pub = Ok kpub"
      "\<And>s. psk = Some s \<Longrightarrow> parse_key C s = Ok kpsk"
    using priv pub psk by (simp_all add: parse_key_def)
  have addr': "first_v4 C (map trim (split_on CHR '','' addr)) = Some (a, n)"
    by (simp add: split_on_no_sep word_no_comma word_trim addr)
  have nets': "push_allowed C (map trim (split_on CHR '','' (join '', '' nets))) [] = Ok (map f nets)"
    using nets push_allowed_all [of nets C f "[]"] by (simp add: split_nets)
  have wv: "value_text addr" "value_text priv" "value_text pub" "value_text ep" using words by auto
  note sim = profile_text_def parse_setting parse_headers parse_init_def assign_interface assign_peer
    parse_finish_def wv nv keys addr' nets' nets(1) parse_u16_show_nat words(5)
  show ?thesis
    unfolding parse_profile_def ls
    by (cases psk; cases ka) (simp_all add: sim words(6))
qed


text \<open>Codecs that compute: networks by the V4 parser, keys as their 32 bytes in clear.\<close>

definition plain_codecs :: codecs where
  "plain_codecs = \<lparr>
     parse_ipnet = (\<lambda>s. case split_once CHR ''/'' s of
         None \<Rightarrow> Err ''invalid address''
       | Some (a, n) \<Rightarrow> (case (parse_ipv4 a, from_str_radix 10 32 n) of
             (Some ip, Ok k) \<Rightarrow> Ok (NetV4 ip (of_nat k)) | _ \<Rightarrow> Err ''invalid address'')),
     b64_decode = (\<lambda>s. if length s = 32 then Ok (map (\<lambda>c. of_nat (byte c)) s)
                       else Err ''Invalid input length'')\<rparr>"

definition plain_key :: "char \<Rightarrow> string" where
  "plain_key c = replicate 32 c"

lemma plain_key_text: "graph_char c \<Longrightarrow> c \<noteq> CHR ''#'' \<Longrightarrow> c \<noteq> CHR '','' \<Longrightarrow> word_text (plain_key c)"
  by (simp add: word_text_def plain_key_def)

lemma plain_key_decode: "b64_decode plain_codecs (plain_key c) = Ok (replicate 32 (of_nat (byte c)))"
  by (simp add: plain_codecs_def plain_key_def)

lemma plain_net: "parse_ipnet plain_codecs ''10.231.0.2/24'' = Ok (NetV4 (Ipv4 10 231 0 2) 24)"
  by (simp add: plain_codecs_def parse_ipv4_def read_ipv4_def read_dot_octet_def read_octet_def
      read_number_def to_digit_def from_str_radix_def)

lemma plain_texts:
  "word_text ''10.231.0.2/24''" "word_text ''127.0.0.1:51820''" "word_text ''host:2''"
  by (simp_all add: word_text_def graph_char_def)

theorem parse_profile_roundtrip_witness:
  "parse_profile plain_codecs (unlines (profile_text ''10.231.0.2/24'' (plain_key CHR ''A'') (plain_key CHR ''B'')
      (Some (plain_key CHR ''C'')) [''10.231.0.2/24''] ''127.0.0.1:51820'' (Some 25))) =
   Ok \<lparr>wg_address = (Ipv4 10 231 0 2, 24), wg_private_key = replicate 32 65,
       wg_peer_public_key = replicate 32 66, wg_preshared_key = Some (replicate 32 67),
       wg_endpoint = ''127.0.0.1:51820'', wg_allowed_ips = [NetV4 (Ipv4 10 231 0 2) 24],
       wg_persistent_keepalive = Some 25\<rparr>"
proof -
  have ch: "graph_char CHR ''A''" "graph_char CHR ''B''" "graph_char CHR ''C''"
    by (simp_all add: graph_char_def)
  then have keys: "word_text (plain_key CHR ''A'')" "word_text (plain_key CHR ''B'')" "word_text (plain_key CHR ''C'')"
    by (simp_all add: plain_key_text)
  show ?thesis
    using parse_profile_roundtrip [of "''10.231.0.2/24''" plain_codecs "Ipv4 10 231 0 2" 24
        "plain_key CHR ''A''" _ "plain_key CHR ''B''" _ "Some (plain_key CHR ''C'')" "replicate 32 67"
        "[''10.231.0.2/24'']" "\<lambda>_. NetV4 (Ipv4 10 231 0 2) 24" "''127.0.0.1:51820''" "Some 25",
        OF plain_texts(1) plain_net keys(1) plain_key_decode _ keys(2) plain_key_decode]
    by (simp add: keys plain_texts plain_net plain_key_decode)
qed

text \<open>One profile the witnesses below share.\<close>

definition sample_lines :: "string list" where
  "sample_lines = [''[Interface]'', setting ''Address'' ''10.231.0.2/24'', setting ''PrivateKey'' (plain_key CHR ''A''),
     ''[Peer]'', setting ''PublicKey'' (plain_key CHR ''B''), setting ''AllowedIPs'' ''10.231.0.2/24'',
     setting ''Endpoint'' ''127.0.0.1:51820'']"

definition sample_profile :: wireguard_profile where
  "sample_profile = \<lparr>wg_address = (Ipv4 10 231 0 2, 24), wg_private_key = replicate 32 65,
     wg_peer_public_key = replicate 32 66, wg_preshared_key = None, wg_endpoint = ''127.0.0.1:51820'',
     wg_allowed_ips = [NetV4 (Ipv4 10 231 0 2) 24], wg_persistent_keepalive = None\<rparr>"

lemma plain_values:
  "value_text (plain_key CHR ''A'')" "value_text (plain_key CHR ''B'')"
  "value_text ''10.231.0.2/24''" "value_text ''127.0.0.1:51820''" "value_text ''host:2''"
proof -
  have "graph_char CHR ''A''" "graph_char CHR ''B''" by (simp_all add: graph_char_def)
  then show "value_text (plain_key CHR ''A'')" "value_text (plain_key CHR ''B'')"
    "value_text ''10.231.0.2/24''" "value_text ''127.0.0.1:51820''" "value_text ''host:2''"
    by (simp_all add: plain_key_text plain_texts word_value_text)
qed

lemma plain_nets:
  "first_v4 plain_codecs (map trim (split_on CHR '','' ''10.231.0.2/24'')) = Some (Ipv4 10 231 0 2, 24)"
  "push_allowed plain_codecs (map trim (split_on CHR '','' ''10.231.0.2/24'')) [] = Ok [NetV4 (Ipv4 10 231 0 2) 24]"
proof -
  have "split_on CHR '','' ''10.231.0.2/24'' = [''10.231.0.2/24'']" by simp
  then have net: "map trim (split_on CHR '','' ''10.231.0.2/24'') = [''10.231.0.2/24'']"
    by (simp only: list.map word_trim [OF plain_texts(1)])
  show "first_v4 plain_codecs (map trim (split_on CHR '','' ''10.231.0.2/24'')) = Some (Ipv4 10 231 0 2, 24)"
    "push_allowed plain_codecs (map trim (split_on CHR '','' ''10.231.0.2/24'')) [] = Ok [NetV4 (Ipv4 10 231 0 2) 24]"
    unfolding net by (simp_all add: plain_net)
qed

lemma plain_keys: "parse_key plain_codecs (plain_key c) = Ok (replicate 32 (of_nat (byte c)))"
  by (simp add: parse_key_def plain_key_decode)

lemmas sample_eval = parse_setting parse_headers parse_init_def assign_interface assign_peer
  parse_finish_def plain_values plain_nets plain_keys sample_lines_def sample_profile_def

lemma sample_unlines: "lines (unlines (pre @ sample_lines)) = pre @ sample_lines"
  if "\<forall>l \<in> set pre. nl \<notin> set l \<and> cr \<notin> set l"
  using that by (intro lines_unlines) (simp add: sample_lines_def setting_content(6,7) plain_values)

lemma sample_parses: "parse_profile plain_codecs (unlines sample_lines) = Ok sample_profile"
proof -
  have "lines (unlines sample_lines) = sample_lines" using sample_unlines [of "[]"] by simp
  then show ?thesis
    unfolding parse_profile_def by (simp add: sample_eval del: split_on.simps)
qed

theorem parse_profile_wf_witness:
  "parse_profile plain_codecs (unlines sample_lines) = Ok sample_profile \<and> profile_wf sample_profile \<and>
     assigns (lines (unlines sample_lines)) SecPeer ''Endpoint'' (wg_endpoint sample_profile)"
  using sample_parses parse_profile_wf [OF sample_parses] by simp

theorem parse_profile_one_peer_witness:
  "\<exists>st. parse_lines plain_codecs 0 (take 5 sample_lines) parse_init = Ok st \<and>
     (\<forall>l \<in> set (drop 5 sample_lines). line_content l \<noteq> ''[Peer]'')"
proof -
  have split: "lines (unlines sample_lines) = take 5 sample_lines @ drop 5 sample_lines"
    using sample_unlines [of "[]"] by simp
  obtain st where "parse_lines plain_codecs 0 (take 5 sample_lines) parse_init = Ok st"
    "ps_peer_public_key st \<noteq> None"
    by (simp add: sample_eval del: split_on.simps)
  then show ?thesis
    using parse_profile_one_peer [OF sample_parses split] by blast
qed

theorem parse_profile_ignores_witness:
  "parse_profile plain_codecs (unlines (''WakerPcMac=x'' # sample_lines)) = Ok sample_profile"
proof -
  have "ignored_line ''WakerPcMac=x''"
    by (simp add: ignored_line_def line_content_def trim_graph graph_char_def known_keys_def)
  moreover have "lines (unlines (''WakerPcMac=x'' # sample_lines)) = [] @ ''WakerPcMac=x'' # sample_lines"
    using sample_unlines [of "[''WakerPcMac=x'']"] by simp
  moreover have "lines (unlines sample_lines) = [] @ sample_lines"
    using sample_unlines [of "[]"] by simp
  ultimately show ?thesis
    using parse_profile_ignores [of "''WakerPcMac=x''" _ "[]" sample_lines "unlines sample_lines"]
      sample_parses by blast
qed

text \<open>Two \<open>[Peer]\<close> sections are merged into one peer when only the second names a public key:
  the check looks at the key read so far, not at the header.\<close>

lemma two_peer_sections_accepted:
  "and_then (parse_lines plain_codecs 0
     [''[Interface]'', setting ''Address'' ''10.231.0.2/24'', setting ''PrivateKey'' (plain_key CHR ''A''),
      ''[Peer]'', setting ''Endpoint'' ''127.0.0.1:51820'',
      ''[Peer]'', setting ''PublicKey'' (plain_key CHR ''B''), setting ''AllowedIPs'' ''10.231.0.2/24'',
      setting ''Endpoint'' ''host:2''] parse_init) parse_finish
   = Ok (sample_profile\<lparr>wg_endpoint := ''host:2''\<rparr>)"
  by (simp add: sample_eval del: split_on.simps)

end
