(* ===== verification/Dns_Guard.thy ===== *)
theory Dns_Guard
  imports Profile
begin

text \<open>
  Resolution of the WireGuard endpoint (\<open>resolve_endpoint\<close>, \<open>suspicious_dns_result\<close>) and the
  address the outer UDP socket is bound to (\<open>WakerUdpFactory\<close>), from
  \<open>crates/waker-net/src/lib.rs\<close>. The operating system's resolver is a parameter \<open>lookup_host\<close>
  that answers the addresses in its order or the text of its error.
\<close>

section \<open>The model\<close>

fun to_v4 :: "ip_addr \<Rightarrow> ipv4 option" where
  "to_v4 (V4 a) = Some a"
| "to_v4 (V6 a) = to_ipv4_mapped a"

fun block_page :: "ipv4 \<Rightarrow> bool" where
  "block_page (Ipv4 a b c d) \<longleftrightarrow>
     [a, b, c] = [146, 112, 61] \<and> d \<in> set [104, 105, 106, 107, 108, 110]"

definition suspicious_dns_result :: "ip_addr \<Rightarrow> string option" where
  "suspicious_dns_result address =
     (if (case to_v4 address of Some v4 \<Rightarrow> block_page v4 | None \<Rightarrow> False)
      then Some ''is a Cisco Umbrella/OpenDNS block-page address''
      else if is_unspecified address then Some ''is an unusable unspecified address''
      else if is_loopback address
      then Some ''is a loopback address rather than the configured internet endpoint''
      else if is_multicast address
      then Some ''is a multicast address rather than the configured internet endpoint''
      else None)"

text \<open>The loop over the answers: the first one that is not suspicious, or the rejected ones.\<close>

fun first_trusted ::
  "(ip_addr \<times> string) list \<Rightarrow> socket_addr list \<Rightarrow> (ip_addr \<times> string) list + socket_addr" where
  "first_trusted rejected [] = Err rejected"
| "first_trusted rejected (a # as) =
     (case suspicious_dns_result (socket_ip a) of
        Some reason \<Rightarrow> first_trusted (rejected @ [(socket_ip a, reason)]) as
      | None \<Rightarrow> Ok a)"

definition rejection :: "string \<Rightarrow> ip_addr \<times> string \<Rightarrow> net_error" where
  "rejection endpoint r = Network
     (''WireGuard endpoint DNS for '' @ endpoint @ '' resolved to '' @ show_ip (fst r) @ '', which '' @ snd r @
      ''. The current network may be filtering or blocking the MyFRITZ hostname; try mobile data or another network.'')"

definition resolve_endpoint ::
  "(string \<Rightarrow> string + socket_addr list) \<Rightarrow> string \<Rightarrow> net_error + socket_addr" where
  "resolve_endpoint lookup_host endpoint =
     (case parse_socket_addr endpoint of
        Some address \<Rightarrow> Ok address
      | None \<Rightarrow>
          and_then
            (map_err (\<lambda>e. Network (''WireGuard endpoint DNS lookup failed for '' @ endpoint @ '': '' @ e @
                ''. Check the current network's DNS/internet access.''))
              (lookup_host endpoint))
            (\<lambda>resolved.
               case first_trusted [] resolved of
                 Ok address \<Rightarrow> Ok address
               | Err (r # _) \<Rightarrow> Err (rejection endpoint r)
               | Err [] \<Rightarrow> Err (Network (''WireGuard endpoint DNS lookup for '' @ endpoint @
                   '' returned no addresses''))))"

text \<open>
  \<open>WakerUdpFactory\<close>: the address and port handed to the socket's \<open>bind\<close>.
\<close>

record udp_params =
  param_addr :: "ip_addr option"
  param_port :: u16

record waker_udp_factory =
  endpoint_ip :: ip_addr

definition udp_factory_new :: "socket_addr \<Rightarrow> waker_udp_factory" where
  "udp_factory_new endpoint = \<lparr>endpoint_ip = socket_ip endpoint\<rparr>"

definition udp_bind_address :: "waker_udp_factory \<Rightarrow> udp_params \<Rightarrow> ip_addr \<times> u16" where
  "udp_bind_address f p =
     (case param_addr p of
        Some a \<Rightarrow> a
      | None \<Rightarrow> (case endpoint_ip f of
            V4 _ \<Rightarrow> V4 (Ipv4 0 0 0 0)
          | V6 _ \<Rightarrow> V6 (Ipv6 0 0 0 0 0 0 0 0)),
      param_port p)"

text \<open>
  The socket: \<open>bind\<close>, \<open>local_addr\<close>, \<open>send_to\<close> and \<open>recv_from\<close> of the operating system are arguments. A
  \<open>recv_from\<close> writes a datagram over the front of the buffer, as far as it fits, and answers its length;
  the buffer comes from a pool and has what was in it before.
\<close>

definition udp_bind ::
  "(ip_addr \<times> u16 \<Rightarrow> string + 's) \<Rightarrow> ('s \<Rightarrow> string + socket_addr) \<Rightarrow> waker_udp_factory \<Rightarrow> udp_params \<Rightarrow> string + 's \<times> 's" where
  "udp_bind os_bind os_local_addr f p =
     and_then (os_bind (udp_bind_address f p)) (\<lambda>socket.
     and_then (os_local_addr socket) (\<lambda>_. Ok (socket, socket)))"

definition udp_send_to :: "(u8 list \<Rightarrow> socket_addr \<Rightarrow> string + nat) \<Rightarrow> u8 list \<Rightarrow> socket_addr \<Rightarrow> string + unit" where
  "udp_send_to os_send_to packet destination = and_then (os_send_to packet destination) (\<lambda>_. Ok ())"

definition udp_local_addr :: "string + socket_addr \<Rightarrow> string + socket_addr option" where
  "udp_local_addr answer = and_then answer (\<lambda>a. Ok (Some a))"

definition os_recv_from :: "u8 list \<times> socket_addr \<Rightarrow> u8 list \<Rightarrow> u8 list \<times> nat \<times> socket_addr" where
  "os_recv_from arrived buffer =
     (let (datagram, source) = arrived
      in (take (length buffer) datagram @ drop (length datagram) buffer, min (length datagram) (length buffer), source))"

definition udp_recv_from :: "string + (u8 list \<times> socket_addr) \<Rightarrow> u8 list \<Rightarrow> string + (u8 list \<times> socket_addr)" where
  "udp_recv_from answer packet =
     and_then answer (\<lambda>arrived.
       let (packet, n, source) = os_recv_from arrived packet
       in Ok (take n packet, source))"

text \<open>Nothing that the pool's buffer held before is part of a packet.\<close>

lemma udp_recv_from_fresh:
  "udp_recv_from (Ok (datagram, source)) buffer = Ok (take (length buffer) datagram, source)"
  by (simp add: udp_recv_from_def os_recv_from_def min_def)

lemma udp_bind_both_ends: "udp_bind os_bind os_local_addr f p = Ok (tx, rx) \<Longrightarrow> tx = rx \<and> os_bind (udp_bind_address f p) = Ok tx"
  by (auto simp: udp_bind_def result_simps)

section \<open>Which addresses are accepted\<close>

definition trusted :: "socket_addr \<Rightarrow> bool" where
  "trusted a \<longleftrightarrow> suspicious_dns_result (socket_ip a) = None"

definition reason_of :: "socket_addr \<Rightarrow> ip_addr \<times> string" where
  "reason_of a = (socket_ip a, the (suspicious_dns_result (socket_ip a)))"

lemma first_trusted_Cons:
  "first_trusted rej (a # as) =
     (if trusted a then Ok a else first_trusted (rej @ [reason_of a]) as)"
  by (auto simp: trusted_def reason_of_def)

lemma first_trusted_Err:
  "first_trusted rej as = Err rs \<longleftrightarrow> list_all (\<lambda>x. \<not> trusted x) as \<and> rs = rej @ map reason_of as"
  by (induction as arbitrary: rej) (auto simp: first_trusted_Cons simp del: first_trusted.simps(2))

lemma first_such_Cons:
  "(\<exists>pre post. b # as = pre @ a # post \<and> P a \<and> list_all (\<lambda>x. \<not> P x) pre) \<longleftrightarrow>
     (if P b then a = b
      else \<exists>pre post. as = pre @ a # post \<and> P a \<and> list_all (\<lambda>x. \<not> P x) pre)"
  (is "?l \<longleftrightarrow> ?r")
proof
  assume ?l then show ?r by (fastforce simp: Cons_eq_append_conv)
next
  assume r: ?r
  show ?l
  proof (cases "P b")
    case True
    with r have "a = b" by simp
    then show ?thesis by (intro exI [of _ "[]"] exI [of _ as]) (simp add: True)
  next
    case False
    with r obtain pre post where "as = pre @ a # post" "P a" "list_all (\<lambda>x. \<not> P x) pre" by auto
    with False have "b # as = (b # pre) @ a # post \<and> P a \<and> list_all (\<lambda>x. \<not> P x) (b # pre)" by simp
    then show ?thesis by blast
  qed
qed

lemma first_trusted_Ok:
  "first_trusted rej as = Ok a \<longleftrightarrow>
     (\<exists>pre post. as = pre @ a # post \<and> trusted a \<and> list_all (\<lambda>x. \<not> trusted x) pre)"
proof (induction as arbitrary: rej)
  case (Cons b as)
  show ?case
    unfolding first_such_Cons first_trusted_Cons by (simp only: Cons.IH split: if_splits) auto
qed simp

text \<open>C27: \<^bold>\<open>what the endpoint becomes, and why not\<close>. A literal socket address is taken as it stands,
  without looking at it; otherwise it is the first address of the resolver's answer that is not
  suspicious, every address before it being so. It fails just when it is no literal and the lookup fails,
  answers nothing, or answers only suspicious addresses: then the error names the first of them and the
  reason it was rejected for.\<close>

theorem resolve_endpoint_exact:
  "(resolve_endpoint lookup e = Ok a \<longleftrightarrow>
     parse_socket_addr e = Some a \<or>
     parse_socket_addr e = None \<and>
       (\<exists>pre post. lookup e = Ok (pre @ a # post) \<and> trusted a \<and> list_all (\<lambda>x. \<not> trusted x) pre)) \<and>
   (resolve_endpoint lookup e = Err f \<longleftrightarrow>
     parse_socket_addr e = None \<and>
       (case lookup e of
          Err r \<Rightarrow> f = Network (''WireGuard endpoint DNS lookup failed for '' @ e @ '': '' @ r @
            ''. Check the current network's DNS/internet access.'')
        | Ok [] \<Rightarrow> f = Network (''WireGuard endpoint DNS lookup for '' @ e @ '' returned no addresses'')
        | Ok (b # bs) \<Rightarrow> list_all (\<lambda>x. \<not> trusted x) (b # bs) \<and>
            f = rejection e (socket_ip b, the (suspicious_dns_result (socket_ip b)))))"
proof (cases "parse_socket_addr e")
  case None
  show ?thesis
  proof (cases "lookup e")
    case (Inr as)
    note run = None Inr resolve_endpoint_def
    show ?thesis
    proof (cases "first_trusted [] as")
      case (Inl rs)
      then have rs: "list_all (\<lambda>x. \<not> trusted x) as" "rs = map reason_of as" using first_trusted_Err [of "[]" as rs] by auto
      then have "\<not> (\<exists>pre post. as = pre @ a # post \<and> trusted a \<and> list_all (\<lambda>x. \<not> trusted x) pre)" by auto
      with rs Inl run show ?thesis by (cases as) (auto simp: reason_of_def)
    next
      case (Inr b)
      then have "\<not> list_all (\<lambda>x. \<not> trusted x) as" using first_trusted_Err [of "[]" as] by auto
      with Inr run first_trusted_Ok [of "[]" as a] show ?thesis by (cases as) auto
    qed
  qed (auto simp: resolve_endpoint_def None)
qed (simp add: resolve_endpoint_def)

theorem resolve_endpoint_exact_witness:
  "resolve_endpoint (\<lambda>_. Ok [SocketV4 (Ipv4 127 0 0 1) 51820, SocketV4 (Ipv4 146 112 61 104) 51820]) ''box.example:51820'' =
   Err (Network (''WireGuard endpoint DNS for box.example:51820 resolved to 127.0.0.1, which is a loopback address rather than the configured internet endpoint.'' @
      '' The current network may be filtering or blocking the MyFRITZ hostname; try mobile data or another network.''))"
proof -
  have "parse_socket_addr ''box.example:51820'' = None" by code_simp
  moreover have "list_all (\<lambda>x. \<not> trusted x) [SocketV4 (Ipv4 127 0 0 1) 51820, SocketV4 (Ipv4 146 112 61 104) 51820]"
    by code_simp
  moreover have "show_ip (V4 (Ipv4 127 0 0 1)) = ''127.0.0.1''" by code_simp
  moreover have "suspicious_dns_result (V4 (Ipv4 127 0 0 1)) =
      Some ''is a loopback address rather than the configured internet endpoint''" by code_simp
  ultimately show ?thesis
    using resolve_endpoint_exact [THEN conjunct2] by (auto simp: rejection_def)
qed

text \<open>\<^bold>\<open>what suspicious means\<close>. An IPv4 answer passes exactly when it is none of the six
  OpenDNS block pages, not \<open>0.0.0.0\<close>, not in \<open>127/8\<close> and not in \<open>224/4\<close>.\<close>

theorem suspicious_v4:
  "suspicious_dns_result (V4 (Ipv4 a b c d)) = None \<longleftrightarrow>
     \<not> (a = 146 \<and> b = 112 \<and> c = 61 \<and> (104 \<le> unat d \<and> unat d \<le> 108 \<or> unat d = 110)) \<and>
     Ipv4 a b c d \<noteq> Ipv4 0 0 0 0 \<and> a \<noteq> 127 \<and> \<not> (224 \<le> unat a \<and> unat a \<le> 239)"
proof -
  have d: "d \<in> set [104, 105, 106, 107, 108, 110] \<longleftrightarrow> 104 \<le> unat d \<and> unat d \<le> 108 \<or> unat d = 110"
  proof -
    have "d \<in> set [104, 105, 106, 107, 108, 110] \<longleftrightarrow> unat d \<in> {104, 105, 106, 107, 108, 110}"
      by (simp add: word_unat_eq_iff)
    also have "\<dots> \<longleftrightarrow> 104 \<le> unat d \<and> unat d \<le> 108 \<or> unat d = 110" by auto
    finally show ?thesis .
  qed
  have a: "224 \<le> a \<and> a \<le> 239 \<longleftrightarrow> 224 \<le> unat a \<and> unat a \<le> 239"
    by (simp add: word_le_nat_alt)
  show ?thesis
    by (auto simp: suspicious_dns_result_def d a simp del: list.set)
qed

text \<open>
  A block page is also recognised behind an IPv4-mapped IPv6 address, but the other three tests see
  the IPv6 address itself: a mapped loopback address passes.
\<close>

lemma mapped_block_page:
  "suspicious_dns_result (V6 (Ipv6 0 0 0 0 0 0xFFFF 0x9270 0x3D68)) =
     Some ''is a Cisco Umbrella/OpenDNS block-page address''"
  by code_simp

lemma mapped_loopback_passes: "suspicious_dns_result (V6 (Ipv6 0 0 0 0 0 0xFFFF 0x7F00 1)) = None"
  by code_simp

fun same_family :: "ip_addr \<Rightarrow> ip_addr \<Rightarrow> bool" where
  "same_family (V4 _) b \<longleftrightarrow> (case b of V4 _ \<Rightarrow> True | V6 _ \<Rightarrow> False)"
| "same_family (V6 _) b \<longleftrightarrow> (case b of V6 _ \<Rightarrow> True | V4 _ \<Rightarrow> False)"

text \<open>\<^bold>\<open>the outer socket has the peer's family\<close>. Without an address of its own in the
  parameters, the UDP socket is bound to the unspecified address of the family of the resolved
  endpoint, at the requested port, so that no IPv4-mapped address is ever sent to.\<close>

theorem udp_bind_family:
  assumes "param_addr p = None"
  shows "same_family (fst (udp_bind_address (udp_factory_new a) p)) (socket_ip a) \<and>
    is_unspecified (fst (udp_bind_address (udp_factory_new a) p)) \<and>
    snd (udp_bind_address (udp_factory_new a) p) = param_port p"
  using assms by (cases a) (simp_all add: udp_bind_address_def udp_factory_new_def)

theorem udp_bind_family_witness:
  "same_family (fst (udp_bind_address (udp_factory_new (SocketV4 (Ipv4 127 0 0 1) 51820)) \<lparr>param_addr = None, param_port = 7\<rparr>))
     (V4 (Ipv4 127 0 0 1))"
  using udp_bind_family [of "\<lparr>param_addr = None, param_port = 7\<rparr>" "SocketV4 (Ipv4 127 0 0 1) 51820"] by simp

end
