(* ===== verification/Rust_Text.thy ===== *)
theory Rust_Text
  imports Rust_Str
begin

text \<open>
  More of Rust's text library: \<open>String::from_utf8_lossy\<close>, the \<open>Debug\<close> format of a string,
  the words of a line, and the facts about searching for a markup tag.
\<close>

section \<open>Lossy decoding\<close>

definition second3 :: "char \<Rightarrow> char \<Rightarrow> bool" where
  "second3 a b \<longleftrightarrow> byte a = 224 \<and> in_range 160 191 b \<or> in_range 225 236 a \<and> cont b \<or>
     byte a = 237 \<and> in_range 128 159 b \<or> in_range 238 239 a \<and> cont b"

definition second4 :: "char \<Rightarrow> char \<Rightarrow> bool" where
  "second4 a b \<longleftrightarrow> byte a = 240 \<and> in_range 144 191 b \<or> in_range 241 243 a \<and> cont b \<or>
     byte a = 244 \<and> in_range 128 143 b"

text \<open>How many bytes one replacement character stands for at the front of an invalid text.\<close>

fun bad_len :: "string \<Rightarrow> nat" where
  "bad_len (a # b # c # s) =
     (if second3 a b then 2 else if second4 a b then (if cont c then 3 else 2) else 1)"
| "bad_len [a, b] = (if second3 a b \<or> second4 a b then 2 else 1)"
| "bad_len [a] = 1"
| "bad_len [] = 1"

lemma bad_len_pos: "0 < bad_len s"
  by (cases s rule: bad_len.cases) auto

function from_utf8_lossy :: "string \<Rightarrow> string" where
  "from_utf8_lossy s =
     (if s = [] then []
      else if utf8_char_len s = 0
      then [CHR 0xEF, CHR 0xBF, CHR 0xBD] @ from_utf8_lossy (drop (bad_len s) s)
      else take (utf8_char_len s) s @ from_utf8_lossy (drop (utf8_char_len s) s))"
  by pat_completeness auto
termination
  by (relation "measure length") (auto simp: bad_len_pos neq_Nil_conv)

declare from_utf8_lossy.simps [simp del]

lemma from_utf8_lossy_Nil [simp]: "from_utf8_lossy [] = []"
  by (simp add: from_utf8_lossy.simps)

lemma from_utf8_lossy_ascii [simp]:
  "\<forall>c \<in> set a. ascii c \<Longrightarrow> from_utf8_lossy (a @ s) = a @ from_utf8_lossy s"
proof (induction a)
  case (Cons c a)
  have "from_utf8_lossy (c # a @ s) = c # from_utf8_lossy (a @ s)"
    using Cons.prems by (subst from_utf8_lossy.simps) (simp add: utf8_char_len_ascii)
  with Cons show ?case by simp
qed simp

lemma from_utf8_lossy_ascii_all: "\<forall>c \<in> set a. ascii c \<Longrightarrow> from_utf8_lossy a = a"
  using from_utf8_lossy_ascii [of a "[]"] by simp

lemma from_utf8_lossy_valid: "utf8_valid s \<Longrightarrow> from_utf8_lossy s = s"
proof (induction s rule: utf8_valid.induct)
  case (1 s)
  then show ?case
    by (cases "s = []"; cases "utf8_char_len s = 0")
      (auto simp: utf8_valid.simps [of s] from_utf8_lossy.simps [of s])
qed

section \<open>The Debug format of a string\<close>

fun hex_lower :: "nat \<Rightarrow> string" where
  "hex_lower n = (if n < 16 then [''0123456789abcdef'' ! n]
     else hex_lower (n div 16) @ [''0123456789abcdef'' ! (n mod 16)])"

declare hex_lower.simps [simp del]

definition debug_char :: "char \<Rightarrow> string" where
  "debug_char c =
     (if byte c = 0 then [CHR 0x5C, CHR ''0'']
      else if byte c = 9 then [CHR 0x5C, CHR ''t'']
      else if c = nl then [CHR 0x5C, CHR ''n'']
      else if c = cr then [CHR 0x5C, CHR ''r'']
      else if c = CHR 0x5C \<or> c = dquote then [CHR 0x5C, c]
      else if byte c < 32 \<or> byte c = 127
      then [CHR 0x5C, CHR ''u'', CHR 0x7B] @ hex_lower (byte c) @ [CHR 0x7D]
      else [c])"

text \<open>
  \<open>{value:?}\<close>. Which characters beyond ASCII are shown escaped depends on the Unicode tables
  of the compiler's library, so their form is the parameter \<open>wide\<close>.
\<close>

function debug_chars :: "(string \<Rightarrow> string) \<Rightarrow> string \<Rightarrow> string" where
  "debug_chars wide s =
     (if s = [] then []
      else if utf8_char_len s \<le> 1 then debug_char (hd s) @ debug_chars wide (tl s)
      else wide (take (utf8_char_len s) s) @ debug_chars wide (drop (utf8_char_len s) s))"
  by pat_completeness auto
termination
  by (relation "measure (\<lambda>(w, s). length s)") (auto simp: neq_Nil_conv)

declare debug_chars.simps [simp del]

definition debug_str :: "(string \<Rightarrow> string) \<Rightarrow> string \<Rightarrow> string" where
  "debug_str wide s = [dquote] @ debug_chars wide s @ [dquote]"

section \<open>Words\<close>

text \<open>\<open>trim_end_matches\<close> with one ASCII character.\<close>

definition trim_end_char :: "char \<Rightarrow> string \<Rightarrow> string" where
  "trim_end_char c s = rev (dropWhile (\<lambda>x. x = c) (rev s))"

lemma no_space_at_graph: "graph_char c \<Longrightarrow> find (\<lambda>p. prefix p (c # s)) white_space = None"
  by (auto simp: find_None_iff prefix_def Cons_eq_append_conv dest: white_space_not_graph)

lemma word_end_graph [str_simps]:
  "\<forall>c \<in> set w. graph_char c \<Longrightarrow> word_end (w @ s) = (let (w', r) = word_end s in (w @ w', r))"
  by (induction w) (auto simp: no_space_at_graph split: prod.splits)

lemma word_end_space [str_simps]: "word_end (CHR '' '' # s) = ([], CHR '' '' # s)"
  by (simp add: white_space_def)

lemma next_word_graph:
  assumes "w \<noteq> []" "\<forall>c \<in> set w. graph_char c" "s = [] \<or> hd s = CHR '' ''"
  shows "next_word (w @ s) = Some (w, s)"
proof -
  have "trim_start (w @ s) = w @ s"
    using assms by (cases w) (simp_all add: trim_start_graph)
  then show ?thesis
    using assms word_end_space word_end_graph [OF assms(2), of s]
    by (cases s) (simp_all add: next_word_def del: word_end.simps(2))
qed

lemma next_word_space [str_simps]: "next_word (CHR '' '' # s) = next_word s"
  by (simp add: next_word_def trim_start_space)

section \<open>Searching\<close>

text \<open>
  A pattern whose first character does not occur again in it, as in a markup tag, has no occurrence
  that overlaps another.
\<close>

definition tag_like :: "string \<Rightarrow> bool" where
  "tag_like p \<longleftrightarrow> p \<noteq> [] \<and> hd p \<notin> set (tl p)"

lemma prefix_overlap:
  assumes "tag_like p" "prefix p (a @ p @ b)" "a \<noteq> []"
  shows "length p \<le> length a"
proof (rule ccontr)
  assume "\<not> length p \<le> length a"
  then have l: "length a < length p" by simp
  have "p ! length a = (a @ p @ b) ! length a"
    using assms(2) l by (auto simp: prefix_def nth_append [of p])
  also have "\<dots> = hd p" using assms(1) by (auto simp: tag_like_def nth_append hd_conv_nth)
  finally have "tl p ! (length a - 1) = hd p"
    using l assms(3) by (cases a) (simp_all add: nth_tl)
  moreover have "length a - 1 < length (tl p)" using l assms(3) by (cases a) auto
  ultimately show False using assms(1) unfolding tag_like_def by (metis nth_mem)
qed

lemma find_str_tag [str_simps]:
  assumes "tag_like p" "\<not> contains a p"
  shows "find_str p (a @ p @ b) = Some (length a)"
  using assms(2)
proof (induction a)
  case Nil
  have "p \<noteq> []" using assms(1) by (simp add: tag_like_def)
  then show ?case by (cases p) simp_all
next
  case (Cons x a)
  have "\<not> prefix p (x # a @ p @ b)"
  proof
    assume pre: "prefix p (x # a @ p @ b)"
    then have "length p \<le> length (x # a)" using prefix_overlap [OF assms(1), of "x # a" b] by simp
    with pre have "prefix p (x # a)" by (metis append_Cons prefix_length_prefix prefixI)
    with Cons.prems show False by (simp add: contains_iff_sublist prefix_imp_sublist)
  qed
  moreover have "\<not> contains a p"
    using Cons.prems by (auto simp: contains_iff_sublist sublist_Cons_right)
  ultimately show ?case using Cons.IH by simp
qed

lemma split_once_str_iff:
  assumes "tag_like p"
  shows "split_once_str p s = Some (a, b) \<longleftrightarrow> s = a @ p @ b \<and> \<not> contains a p"
proof
  assume l: "split_once_str p s = Some (a, b)"
  then have s: "s = a @ p @ b" by (rule split_once_str_SomeD)
  have "find_str p s = Some (length a)"
    using l find_str_SomeD [of p s] by (auto simp: split_once_str_def split: option.splits)
  have "\<not> contains a p"
  proof
    assume "contains a p"
    then obtain u v where uv: "a = u @ p @ v" by (auto simp: contains_iff_sublist sublist_def)
    define n where "n = length u"
    have "\<exists>j \<le> length u. find_str p (u @ p @ v @ p @ b) = Some j"
    proof (induction u)
      case Nil then show ?case using assms by (cases p) (auto simp: tag_like_def)
    qed auto
    with uv s \<open>find_str p s = Some (length a)\<close> have "length a \<le> length u" by auto
    with uv assms show False by (simp add: tag_like_def)
  qed
  with s show "s = a @ p @ b \<and> \<not> contains a p" by simp
next
  assume "s = a @ p @ b \<and> \<not> contains a p"
  then show "split_once_str p s = Some (a, b)"
    by (simp add: split_once_str_def find_str_tag [OF assms])
qed

end
