(* ===== verification/Fritz_Soap.thy ===== *)
theory Fritz_Soap
  imports Rust_Text Core_Types Profile
begin

text \<open>
  The FRITZ!Box Hosts service as \<open>crates/waker-net/src/lib.rs\<close> speaks it: the SOAP request in
  its HTTP frame, the status line, and the two fields read from a host entry. \<open>wide\<close> is the
  parameter of the \<open>Debug\<close> format of strings.
\<close>

section \<open>Requests\<close>

definition fritz_hosts_service :: string where
  "fritz_hosts_service = ''urn:dslforum-org:service:Hosts:1''"

definition soap_body :: "string \<Rightarrow> string \<Rightarrow> string" where
  "soap_body action args =
     ''<?xml version=\"1.0\"?><s:Envelope xmlns:s=\"http://schemas.xmlsoap.org/soap/envelope/\" s:encodingStyle=\"http://schemas.xmlsoap.org/soap/encoding/\"><s:Body><u:'' @
     action @ '' xmlns:u=\"'' @ fritz_hosts_service @ ''\">'' @ args @ ''</u:'' @ action @
     ''></s:Body></s:Envelope>''"

definition fritz_hosts_request :: "ipv4 \<Rightarrow> string \<Rightarrow> string \<Rightarrow> string" where
  "fritz_hosts_request fritz_ip action args =
     (let body = soap_body action args in
      ''POST /upnp/control/hosts HTTP/1.1'' @ crlf @
      ''Host: '' @ show_ipv4 fritz_ip @ '':49000'' @ crlf @
      ''Content-Type: text/xml; charset=\"utf-8\"'' @ crlf @
      ''SOAPAction: \"'' @ fritz_hosts_service @ ''#'' @ action @ ''\"'' @ crlf @
      ''Content-Length: '' @ show_nat (length body) @ crlf @
      ''Connection: close'' @ crlf @ crlf @ body)"

definition mac_arguments :: "mac_address \<Rightarrow> string" where
  "mac_arguments mac = ''<NewMACAddress>'' @ mac_display mac @ ''</NewMACAddress>''"

definition fritz_wol_request :: "ipv4 \<Rightarrow> mac_address \<Rightarrow> string" where
  "fritz_wol_request fritz_ip mac =
     fritz_hosts_request fritz_ip ''X_AVM-DE_WakeOnLANByMACAddress'' (mac_arguments mac)"

section \<open>Responses\<close>

definition http_status :: "string \<Rightarrow> net_error + u16" where
  "http_status response =
     and_then (map_err (\<lambda>_. Network ''HTTP status line was not UTF-8'') (from_utf8 (hd (split_on nl response))))
       (\<lambda>first_line.
          let parts = trim_end_char cr first_line;
              parts = (case next_word parts of None \<Rightarrow> [] | Some (version, rest) \<Rightarrow> rest)
          in and_then (ok_or (Network ''HTTP response had no status code'') (map_option fst (next_word parts)))
               (\<lambda>code. map_err (\<lambda>e. Network (''invalid HTTP status: '' @ show_int_error e)) (parse_u16 code)))"

text \<open>
  The value between the first start tag and the end tag after it, trimmed; \<open>field\<close> names it in
  the errors.
\<close>

definition start_tag :: "string \<Rightarrow> string" where "start_tag field = ''<'' @ field @ ''>''"
definition end_tag :: "string \<Rightarrow> string" where "end_tag field = ''</'' @ field @ ''>''"

definition host_field :: "string \<Rightarrow> string \<Rightarrow> net_error + string" where
  "host_field field response =
     and_then (map_err (\<lambda>_. Network ''FRITZ!Box host response was not UTF-8'') (from_utf8 response)) (\<lambda>text.
     and_then (ok_or (Network (''FRITZ!Box host response had no '' @ field @ '' field''))
         (map_option (\<lambda>index. index + length (start_tag field)) (find_str (start_tag field) text))) (\<lambda>start.
     ok_or (Network (''FRITZ!Box host response had an incomplete '' @ field @ '' field''))
       (map_option (\<lambda>(value, _). trim value) (split_once_str (end_tag field) (drop start text)))))"

definition fritz_host_ip :: "(string \<Rightarrow> string) \<Rightarrow> string \<Rightarrow> net_error + ipv4" where
  "fritz_host_ip wide response =
     and_then (host_field ''NewIPAddress'' response) (\<lambda>value.
       ok_or (Network (''FRITZ!Box returned invalid NewIPAddress value '' @ debug_str wide value @ '': '' @ addr_parse_error_v4))
         (parse_ipv4 value))"

definition fritz_host_active :: "(string \<Rightarrow> string) \<Rightarrow> string \<Rightarrow> net_error + bool" where
  "fritz_host_active wide response =
     and_then (host_field ''NewActive'' response) (\<lambda>value.
       if value = ''1'' \<or> value = ''true'' then Ok True
       else if value = ''0'' \<or> value = ''false'' then Ok False
       else Err (Network (''FRITZ!Box returned invalid NewActive value '' @ debug_str wide value)))"

section \<open>What the readers accept\<close>

text \<open>The text \<open>response\<close> has \<open>value\<close> as the content of its first \<open>field\<close> element.\<close>

definition first_element :: "string \<Rightarrow> string \<Rightarrow> string \<Rightarrow> bool" where
  "first_element field response value \<longleftrightarrow>
     (\<exists>pre post. response = pre @ start_tag field @ value @ end_tag field @ post \<and>
        \<not> contains pre (start_tag field) \<and> \<not> contains value (end_tag field))"

lemma tags:
  "CHR ''<'' \<notin> set field \<Longrightarrow> tag_like (start_tag field)"
  "CHR ''<'' \<notin> set field \<Longrightarrow> tag_like (end_tag field)"
  by (auto simp: tag_like_def start_tag_def end_tag_def)

lemma host_field_Ok:
  assumes f: "CHR ''<'' \<notin> set field"
  shows "host_field field response = Ok v \<longleftrightarrow>
    utf8_valid response \<and> (\<exists>value. first_element field response value \<and> v = trim value)"
proof -
  let ?s = "start_tag field" and ?e = "end_tag field"
  have "(\<exists>i r. find_str ?s response = Some i \<and> split_once_str ?e (drop (i + length ?s) response) = Some (u, r)) \<longleftrightarrow>
      first_element field response u" for u
  proof
    assume "\<exists>i r. find_str ?s response = Some i \<and> split_once_str ?e (drop (i + length ?s) response) = Some (u, r)"
    then obtain i r where i: "find_str ?s response = Some i"
      and r: "split_once_str ?e (drop (i + length ?s) response) = Some (u, r)" by blast
    have "split_once_str ?s response = Some (take i response, drop (i + length ?s) response)"
      using i by (simp add: split_once_str_def)
    then have "response = take i response @ ?s @ drop (i + length ?s) response"
        "\<not> contains (take i response) ?s"
      unfolding split_once_str_iff [OF tags(1) [OF f]] by simp_all
    moreover from r have "drop (i + length ?s) response = u @ ?e @ r" "\<not> contains u ?e"
      unfolding split_once_str_iff [OF tags(2) [OF f]] by simp_all
    ultimately show "first_element field response u"
      unfolding first_element_def by metis
  next
    assume "first_element field response u"
    then obtain pre post where r: "response = pre @ ?s @ u @ ?e @ post"
      and "\<not> contains pre ?s" "\<not> contains u ?e"
      unfolding first_element_def by blast
    then have "find_str ?s response = Some (length pre)"
      and "split_once_str ?e (drop (length pre + length ?s) response) = Some (u, post)"
      by (simp_all add: find_str_tag [OF tags(1) [OF f]] split_once_str_iff [OF tags(2) [OF f]])
    then show "\<exists>i r. find_str ?s response = Some i \<and> split_once_str ?e (drop (i + length ?s) response) = Some (u, r)"
      by blast
  qed
  note * = this
  show ?thesis
    by (auto simp: host_field_def result_simps from_utf8_def * [symmetric] split: if_splits)
qed

lemma field_names: "CHR ''<'' \<notin> set ''NewIPAddress''" "CHR ''<'' \<notin> set ''NewActive''"
  by simp_all

text \<open>\<^bold>\<open>which host address is read\<close>. The address is that of the first \<open>NewIPAddress\<close>
  element of a UTF-8 response, white space around it ignored, and nothing else in the response
  matters.\<close>

theorem fritz_host_ip_iff:
  "fritz_host_ip wide response = Ok a \<longleftrightarrow>
     utf8_valid response \<and>
     (\<exists>value. first_element ''NewIPAddress'' response value \<and> parse_ipv4 (trim value) = Some a)"
  by (auto simp: fritz_host_ip_def result_simps host_field_Ok [OF field_names(1)])

text \<open>\<^bold>\<open>which activity is read\<close>. A host is active exactly when its first \<open>NewActive\<close>
  element is \<open>1\<close> or \<open>true\<close>, inactive exactly when it is \<open>0\<close> or \<open>false\<close>; anything
  else is an error.\<close>

theorem fritz_host_active_iff:
  "fritz_host_active wide response = Ok b \<longleftrightarrow>
     utf8_valid response \<and>
     (\<exists>value. first_element ''NewActive'' response value \<and>
        trim value \<in> (if b then {''1'', ''true''} else {''0'', ''false''}))"
proof -
  have "fritz_host_active wide response = Ok b \<longleftrightarrow>
      (\<exists>v. host_field ''NewActive'' response = Ok v \<and> v \<in> (if b then {''1'', ''true''} else {''0'', ''false''}))"
  proof (cases "host_field ''NewActive'' response")
    case (Inr v)
    have "''1'' \<noteq> ''0''" "''1'' \<noteq> ''false''" "''true'' \<noteq> ''0''" "''true'' \<noteq> ''false''" by simp_all
    with Inr show ?thesis by (cases b) (auto simp: fritz_host_active_def simp del: list.inject char.inject)
  qed (simp add: fritz_host_active_def)
  then show ?thesis by (auto simp only: host_field_Ok [OF field_names(2)])
qed

lemma trim_end_char_other: "last s \<noteq> c \<Longrightarrow> trim_end_char c s = s"
  by (cases s rule: rev_cases) (auto simp: trim_end_char_def)

lemma trim_end_char_one: "last s \<noteq> c \<Longrightarrow> trim_end_char c (s @ [c]) = s"
  using trim_end_char_other by (simp add: trim_end_char_def)

lemma next_word_two:
  assumes "v \<noteq> []" "\<forall>c \<in> set v. graph_char c" "w \<noteq> []" "\<forall>c \<in> set w. graph_char c" "s = [] \<or> hd s = CHR '' ''"
  shows "next_word (v @ '' '' @ w @ s) = Some (v, '' '' @ w @ s)"
    and "next_word ('' '' @ w @ s) = Some (w, s)"
proof -
  show "next_word (v @ '' '' @ w @ s) = Some (v, '' '' @ w @ s)"
    by (rule next_word_graph [OF assms(1,2)]) simp
  have "next_word ('' '' @ w @ s) = next_word (w @ s)" by (simp only: append.simps next_word_space)
  then show "next_word ('' '' @ w @ s) = Some (w, s)"
    by (simp only: next_word_graph [OF assms(3,4,5)])
qed

lemma graph_or_space:
  "graph_char c \<or> c = CHR '' '' \<Longrightarrow> ascii c \<and> c \<noteq> nl \<and> c \<noteq> cr"
  by (auto simp: graph_char_def)

text \<open>The first line of a response, cleaned of its line ending.\<close>

lemma status_line_text:
  assumes line: "\<forall>c \<in> set line. graph_char c \<or> c = CHR '' ''" "line \<noteq> []"
    and ending: "ending = [] \<or> ending = [cr]"
  shows "hd (split_on nl (line @ ending @ nl # rest)) = line @ ending"
    and "from_utf8 (line @ ending) = Ok (line @ ending)"
    and "trim_end_char cr (line @ ending) = line"
proof -
  have c: "\<forall>c \<in> set line. ascii c \<and> c \<noteq> nl \<and> c \<noteq> cr"
    using line(1) graph_or_space by blast
  have "nl \<notin> set line" using c by blast
  then have "nl \<notin> set (line @ ending)" using ending by (elim disjE) simp_all
  then show "hd (split_on nl (line @ ending @ nl # rest)) = line @ ending"
    using split_on_append [of nl "line @ ending" rest] by simp
  have "\<forall>c \<in> set line. ascii c" using c by blast
  then have "\<forall>c \<in> set (line @ ending). ascii c" using ending by (elim disjE) simp_all
  then show "from_utf8 (line @ ending) = Ok (line @ ending)"
    by (simp add: from_utf8_def utf8_valid_ascii)
  have "last line \<noteq> cr" using c last_in_set [OF line(2)] by blast
  then show "trim_end_char cr (line @ ending) = line"
    using ending trim_end_char_other trim_end_char_one by (elim disjE) simp_all
qed

lemma status_line_code:
  assumes version: "version \<noteq> []" "\<forall>c \<in> set version. graph_char c"
    and reason: "\<forall>c \<in> set reason. graph_char c \<or> c = CHR '' ''" "reason = [] \<or> hd reason = CHR '' ''"
    and ending: "ending \<in> {[], [cr]}"
  shows "http_status (version @ '' '' @ show_nat (unat code) @ reason @ ending @ nl # rest) = Ok code"
proof -
  define line where "line = version @ '' '' @ show_nat (unat code) @ reason"
  have line: "\<forall>c \<in> set line. graph_char c \<or> c = CHR '' ''" "line \<noteq> []"
    using version reason(1) show_nat_graph by (auto simp: line_def)
  have e: "ending = [] \<or> ending = [cr]" using ending by simp
  have "http_status (line @ ending @ nl # rest) = Ok code"
    unfolding http_status_def status_line_text [OF line e] and_then.simps map_err.simps Let_def
    unfolding line_def
    by (simp only: next_word_two [OF version show_nat_not_Nil show_nat_graph reason(2)]
        option.case prod.case option.map fst_conv ok_or.simps and_then.simps map_err.simps parse_u16_show_nat)
  then show ?thesis by (simp add: line_def)
qed

text \<open>\<^bold>\<open>the status code of a response\<close>. Whatever the protocol version, reason phrase,
  headers and body, the number in the status line is the code, with either line ending.\<close>

theorem http_status_line:
  assumes version: "version \<noteq> []" "\<forall>c \<in> set version. graph_char c"
    and reason: "\<forall>c \<in> set reason. graph_char c \<or> c = CHR '' ''" "reason = [] \<or> hd reason = CHR '' ''"
    and ending: "ending \<in> {[], [cr]}"
  shows "http_status (version @ '' '' @ show_nat (unat code) @ reason @ ending @ nl # rest) = Ok code"
  using assms by (rule status_line_code)

theorem http_status_line_witness: "http_status (''HTTP/1.1 200 OK'' @ crlf @ crlf @ ''body'') = Ok 200"
proof -
  have "show_nat (unat (200 :: u16)) = ''200''" by code_simp
  moreover have "\<forall>c \<in> set ''HTTP/1.1''. graph_char c" by code_simp
  moreover have "\<forall>c \<in> set '' OK''. graph_char c \<or> c = CHR '' ''" by code_simp
  ultimately show ?thesis
    using http_status_line [of "''HTTP/1.1''" "'' OK''" "[cr]" 200 "crlf @ ''body''"] by simp
qed

end
