(* ===== verification/Lab.thy ===== *)
theory Lab
  imports Fritz_Soap
begin

text \<open>
  The fake FRITZ!Box of \<open>crates/waker-lab/src/main.rs\<close> and its agreement with the client's
  requests and readers. The socket is a script: what each \<open>read\<close> and each \<open>accept\<close> answers.
\<close>

section \<open>The model\<close>

fun find_map :: "('a \<Rightarrow> 'b option) \<Rightarrow> 'a list \<Rightarrow> 'b option" where
  "find_map f [] = None"
| "find_map f (x # xs) = (case f x of Some y \<Rightarrow> Some y | None \<Rightarrow> find_map f xs)"

text \<open>\<open>usize\<close> is 64 bits wide.\<close>

definition parse_usize :: "string \<Rightarrow> int_error_kind + nat" where
  "parse_usize = from_str_radix 10 (2 ^ 64 - 1)"

definition length_header :: "string \<Rightarrow> nat option" where
  "length_header line =
     (case split_once CHR '':'' line of
        None \<Rightarrow> None
      | Some (name, value) \<Rightarrow>
          if eq_ignore_ascii_case name ''Content-Length''
          then (case parse_usize (trim value) of Ok n \<Rightarrow> Some n | Err _ \<Rightarrow> None)
          else None)"

definition content_length :: "string \<Rightarrow> nat option" where
  "content_length request = find_map length_header (lines (from_utf8_lossy request))"

text \<open>The end of the headers: four bytes behind the first blank line.\<close>

definition blank_line :: string where "blank_line = crlf @ crlf"

definition header_end :: "string \<Rightarrow> nat" where
  "header_end request =
     (case find_str blank_line request of None \<Rightarrow> length request | Some position \<Rightarrow> position + 4)"

text \<open>
  The lab runs in the development profile (\<open>cargo run -p waker-lab\<close>), where an addition that leaves \<open>usize\<close>
  panics: the \<open>None\<close> of \<open>usize_add\<close> and of \<open>request_complete\<close>.
\<close>

definition usize_add :: "nat \<Rightarrow> nat \<Rightarrow> nat option" where
  "usize_add a b = (if a + b < 2 ^ 64 then Some (a + b) else None)"

definition request_complete :: "string \<Rightarrow> bool option" where
  "request_complete request =
     (if contains request blank_line
      then (case content_length request of
              None \<Rightarrow> Some False
            | Some n \<Rightarrow> map_option (\<lambda>total. total \<le> length request) (usize_add (header_end request) n))
      else Some False)"

datatype read_result = Read string | ReadError string

datatype connection = Served string | Aborted string | Panicked string | Pending string

text \<open>The read loop: zero bytes end it, an error gives up, a script that ends leaves it waiting.\<close>

fun read_request :: "string \<Rightarrow> read_result list \<Rightarrow> connection" where
  "read_request request [] = Pending request"
| "read_request request (ReadError e # rs) = Aborted e"
| "read_request request (Read bytes # rs) =
     (if bytes = [] then Served request
      else (case request_complete (request @ bytes) of
              None \<Rightarrow> Panicked (request @ bytes)
            | Some True \<Rightarrow> Served (request @ bytes)
            | Some False \<Rightarrow> read_request (request @ bytes) rs))"

definition wake_response_body :: string where
  "wake_response_body = ''<?xml version=\"1.0\"?><s:Envelope xmlns:s=\"http://schemas.xmlsoap.org/soap/envelope/\"><s:Body><u:X_AVM-DE_WakeOnLANByMACAddressResponse xmlns:u=\"urn:dslforum-org:service:Hosts:1\"/></s:Body></s:Envelope>''"

definition entry_response_body :: "ip_addr \<Rightarrow> string" where
  "entry_response_body pc_ip = ''<?xml version=\"1.0\"?><s:Envelope xmlns:s=\"http://schemas.xmlsoap.org/soap/envelope/\"><s:Body><u:GetSpecificHostEntryResponse xmlns:u=\"urn:dslforum-org:service:Hosts:1\"><NewIPAddress>'' @
     show_ip pc_ip @ ''</NewIPAddress><NewActive>1</NewActive></u:GetSpecificHostEntryResponse></s:Body></s:Envelope>''"

definition response_body :: "ip_addr \<Rightarrow> string \<Rightarrow> string option" where
  "response_body pc_ip request =
     (let text = from_utf8_lossy request in
      if contains text ''X_AVM-DE_WakeOnLANByMACAddress'' \<and> contains text ''<NewMACAddress>''
      then Some wake_response_body
      else if contains text ''GetSpecificHostEntry'' \<and> contains text ''<NewMACAddress>''
      then Some (entry_response_body pc_ip)
      else None)"

definition http_ok :: "string \<Rightarrow> string" where
  "http_ok body = ''HTTP/1.1 200 OK'' @ crlf @ ''Content-Type: text/xml'' @ crlf @
     ''Content-Length: '' @ show_nat (length body) @ crlf @ ''Connection: close'' @ crlf @ crlf @ body"

definition http_not_found :: string where
  "http_not_found = ''HTTP/1.1 404 Not Found'' @ crlf @ ''Content-Length: 0'' @ crlf @
     ''Connection: close'' @ crlf @ crlf"

definition fritz_response :: "ip_addr \<Rightarrow> string \<Rightarrow> string" where
  "fritz_response pc_ip request =
     (case response_body pc_ip request of Some body \<Rightarrow> http_ok body | None \<Rightarrow> http_not_found)"

text \<open>
  One spawned connection: the bytes it writes, if it gets as far as writing. A panic ends its task alone, for
  nobody awaits the task.
\<close>

definition serve :: "ip_addr \<Rightarrow> read_result list \<Rightarrow> string option" where
  "serve pc_ip rs =
     (case read_request [] rs of
        Served request \<Rightarrow> Some (fritz_response pc_ip request)
      | Aborted _ \<Rightarrow> None
      | Panicked _ \<Rightarrow> None
      | Pending _ \<Rightarrow> None)"

datatype accept_result = Accepted "read_result list" | ConnectionAborted | AcceptError string

text \<open>
  The accept loop: an aborted connection is skipped, another error ends the program with it, and with the
  program those tasks that are still reading; the replies listed before such an end are the ones the tasks
  come to if there is time.
\<close>

fun run_fake_fritz :: "ip_addr \<Rightarrow> accept_result list \<Rightarrow> string option list \<times> string option" where
  "run_fake_fritz pc_ip [] = ([], None)"
| "run_fake_fritz pc_ip (ConnectionAborted # as) = run_fake_fritz pc_ip as"
| "run_fake_fritz pc_ip (AcceptError e # as) = ([], Some e)"
| "run_fake_fritz pc_ip (Accepted rs # as) =
     (let (replies, e) = run_fake_fritz pc_ip as in (serve pc_ip rs # replies, e))"

section \<open>Finding the blank line\<close>

lemma find_str_skip [str_simps]:
  "p \<noteq> [] \<Longrightarrow> hd p \<notin> set a \<Longrightarrow> find_str p (a @ s) = map_option (\<lambda>i. i + length a) (find_str p s)"
proof (induction a)
  case (Cons x a)
  then have "\<not> prefix p (x # a @ s)" by (cases p) auto
  with Cons show ?case by (simp add: option.map_comp comp_def)
qed (simp add: option.map_ident)

lemma find_str_extend: "find_str p s = Some i \<Longrightarrow> find_str p (s @ t) = Some i"
proof (induction s arbitrary: i)
  case Nil
  then show ?case by (cases t) (auto split: if_splits)
next
  case (Cons x s)
  show ?case
  proof (cases "prefix p (x # s)")
    case True
    then have "prefix p ((x # s) @ t)" by (rule prefix_prefix)
    with True Cons.prems show ?thesis by simp
  next
    case False
    then obtain j where j: "find_str p s = Some j" "i = Suc j" using Cons.prems by auto
    have "find_str p (s @ t) = Some j" using Cons.IH j by simp
    moreover have "\<not> prefix p (x # s @ t)"
    proof
      assume pre: "prefix p (x # s @ t)"
      have "length p \<le> length s" using find_str_SomeD [OF j(1)] by simp
      with pre have "prefix p (x # s)"
        by (metis append_Cons le_SucI length_Cons prefixI prefix_length_prefix)
      with False show False by simp
    qed
    ultimately show ?thesis using j by simp
  qed
qed

text \<open>A line of headers is passed over when another one follows it.\<close>

lemma find_blank_line:
  assumes "cr \<notin> set l" "c \<noteq> cr"
  shows "find_str blank_line (l @ crlf @ c # s) =
    map_option (\<lambda>i. i + (length l + 2)) (find_str blank_line (c # s))"
proof -
  have "find_str blank_line (crlf @ c # s) = map_option (\<lambda>i. i + 2) (find_str blank_line (c # s))"
    using assms(2) by (simp add: blank_line_def option.map_comp comp_def del: find_str.simps(2))
       (simp add: option.map_comp comp_def)
  then show ?thesis
    using find_str_skip [of blank_line l "crlf @ c # s"] assms(1)
    by (simp add: blank_line_def option.map_comp comp_def add.assoc)
qed

lemma find_blank_last: "cr \<notin> set l \<Longrightarrow> find_str blank_line (l @ crlf @ crlf @ s) = Some (length l)"
  using find_str_skip [of blank_line l "crlf @ crlf @ s"] by (simp add: blank_line_def)

section \<open>Messages\<close>

text \<open>Header lines and a body, as they stand in a message.\<close>

definition header_line :: "string \<Rightarrow> bool" where
  "header_line l \<longleftrightarrow> l \<noteq> [] \<and> list_all (\<lambda>c. ascii c \<and> c \<noteq> cr \<and> c \<noteq> nl) l"

fun headers :: "string list \<Rightarrow> string" where
  "headers [] = []"
| "headers (l # ls) = l @ crlf @ headers ls"

definition message :: "string list \<Rightarrow> string \<Rightarrow> string" where
  "message ls body = headers ls @ crlf @ body"

lemma header_lineD:
  assumes "header_line l"
  shows "l \<noteq> []" "cr \<notin> set l" "nl \<notin> set l" "\<forall>c \<in> set l. ascii c"
  using assms by (auto simp: header_line_def list_all_iff)

lemma header_line_hd: "header_line l \<Longrightarrow> \<exists>c t. l = c # t \<and> c \<noteq> cr"
  by (cases l) (simp_all add: header_line_def)

lemma find_blank_message:
  "list_all header_line (l # ls) \<Longrightarrow>
     find_str blank_line (message (l # ls) s) = Some (length (headers (l # ls)) - 2)"
proof (induction ls arbitrary: l)
  case Nil
  then show ?case using header_lineD find_blank_last [of l s] by (simp add: message_def)
next
  case (Cons l' ls)
  obtain c t where c: "l' = c # t" "c \<noteq> cr" using Cons.prems header_line_hd [of l'] by auto
  have "find_str blank_line (message (l' # ls) s) = Some (length (headers (l' # ls)) - 2)"
    using Cons by simp
  moreover have "message (l' # ls) s = c # t @ crlf @ headers ls @ crlf @ s"
    by (simp add: message_def c)
  moreover have "message (l # l' # ls) s = l @ crlf @ c # t @ crlf @ headers ls @ crlf @ s"
    by (simp add: message_def c)
  ultimately show ?case
    using find_blank_line [of l c "t @ crlf @ headers ls @ crlf @ s"] header_lineD [of l] Cons.prems c
    by (simp add: )
qed

lemma strip_cr_end [simp]: "strip_cr (l @ [cr]) = l"
  by (simp add: strip_cr_def)

lemma lines_message: "list_all header_line ls \<Longrightarrow> lines (message ls s) = ls @ [] # lines s"
proof (induction ls)
  case Nil
  show ?case using lines_append [of "[cr]" s] by (simp add: message_def strip_cr_def)
next
  case (Cons l ls)
  then have "nl \<notin> set (l @ [cr])" using header_lineD [of l] by simp
  then have "lines ((l @ [cr]) @ nl # message ls s) = l # lines (message ls s)"
    by (subst lines_append) simp_all
  moreover have "message (l # ls) s = (l @ [cr]) @ nl # message ls s" by (simp add: message_def)
  ultimately show ?case using Cons by simp
qed

lemma headers_ascii: "list_all header_line ls \<Longrightarrow> \<forall>c \<in> set (headers ls). ascii c"
  by (induction ls) (auto dest: header_lineD)

lemma lossy_message: "list_all header_line ls \<Longrightarrow> from_utf8_lossy (message ls s) = message ls (from_utf8_lossy s)"
  unfolding message_def using headers_ascii from_utf8_lossy_ascii [of "headers ls @ crlf" s] by simp

lemma find_map_first: "find_map f (xs @ y # ys) = Some v" if "list_all (\<lambda>x. f x = None) xs" "f y = Some v"
  using that by (induction xs) auto

text \<open>
  A message is complete exactly when the announced number of bytes follows the headers; if a message of that
  length does not fit \<open>usize\<close>, the lab panics.
\<close>

lemma request_complete_message:
  assumes ls: "ls = before @ l # after" "list_all header_line ls"
    and len: "list_all (\<lambda>x. length_header x = None) before" "length_header l = Some n"
  shows "content_length (message ls s) = Some n"
    and "request_complete (message ls s) =
      (if length (headers ls) + 2 + n < 2 ^ 64 then Some (n \<le> length s) else None)"
proof -
  show c: "content_length (message ls s) = Some n" for s
    using find_map_first [OF len] ls
    by (simp add: content_length_def lossy_message lines_message)
  obtain h hs where h: "ls = h # hs" using ls(1) by (cases before) auto
  have f: "find_str blank_line (message ls s) = Some (length (headers ls) - 2)" for s
    using find_blank_message [of h hs] ls(2) h by simp
  have two: "2 \<le> length (headers ls)" using h by simp
  then have e: "header_end (message ls s) = length (headers ls) + 2" using f by (simp add: header_end_def)
  show "request_complete (message ls s) =
      (if length (headers ls) + 2 + n < 2 ^ 64 then Some (n \<le> length s) else None)"
    using f c by (simp add: request_complete_def contains_def e usize_add_def) (simp add: message_def)
qed

text \<open>So a length that no message can have ends the task that reads it, and its client gets no reply.\<close>

lemma huge_length_panics:
  assumes "ls = before @ l # after" "list_all header_line ls"
    and "list_all (\<lambda>x. length_header x = None) before" "length_header l = Some n"
    and "2 ^ 64 \<le> length (headers ls) + 2 + n"
  shows "read_request [] (Read (message ls s) # rs) = Panicked (message ls s)"
    and "serve pc_ip (Read (message ls s) # rs) = None"
proof -
  have "message ls s \<noteq> []" by (simp add: message_def)
  moreover have "request_complete (message ls s) = None"
    using request_complete_message(2) [OF assms(1-4)] assms(5) by simp
  ultimately show "read_request [] (Read (message ls s) # rs) = Panicked (message ls s)" by simp
  then show "serve pc_ip (Read (message ls s) # rs) = None" by (simp add: serve_def)
qed

text \<open>A beginning of a message that holds its blank line holds all its headers.\<close>

lemma prefix_message:
  assumes "list_all header_line ls" "ls \<noteq> []" "prefix p (message ls s)" "contains p blank_line"
  shows "\<exists>q. p = message ls q \<and> prefix q s"
proof -
  obtain h hs where h: "ls = h # hs" using assms(2) by (cases ls) auto
  obtain t where t: "message ls s = p @ t" using assms(3) by (auto simp: prefix_def)
  obtain i where i: "find_str blank_line p = Some i" using assms(4) by (auto simp: contains_def)
  have "find_str blank_line (message ls s) = Some i" using find_str_extend [OF i] t by simp
  then have "i = length (headers ls) - 2" using find_blank_message [of h hs] assms(1) h by simp
  moreover have "i + 4 \<le> length p" using find_str_SomeD [OF i] by (simp add: blank_line_def)
  ultimately have "length (headers ls @ crlf) \<le> length p" using h by simp
  moreover have "prefix (headers ls @ crlf) (message ls s)" by (simp add: message_def)
  ultimately have "prefix (headers ls @ crlf) p" using assms(3) prefix_length_prefix by blast
  then obtain q where "p = (headers ls @ crlf) @ q" unfolding prefix_def by blast
  then have q: "p = message ls q" by (simp add: message_def)
  then have "prefix q s" using assms(3) by (simp add: message_def)
  with q show ?thesis by blast
qed

section \<open>Client and lab\<close>

definition request_headers :: "ipv4 \<Rightarrow> string \<Rightarrow> nat \<Rightarrow> string list" where
  "request_headers fritz_ip action n =
     [''POST /upnp/control/hosts HTTP/1.1'', ''Host: '' @ show_ipv4 fritz_ip @ '':49000'',
      ''Content-Type: text/xml; charset=\"utf-8\"'',
      ''SOAPAction: \"'' @ fritz_hosts_service @ ''#'' @ action @ ''\"'',
      ''Content-Length: '' @ show_nat n, ''Connection: close'']"

lemma request_message:
  "fritz_hosts_request fritz_ip action args =
     message (request_headers fritz_ip action (length (soap_body action args))) (soap_body action args)"
  by (simp add: fritz_hosts_request_def message_def request_headers_def Let_def)

lemma header_line_append:
  "header_line (a @ b) \<longleftrightarrow> (a \<noteq> [] \<or> b \<noteq> []) \<and>
     list_all (\<lambda>c. ascii c \<and> c \<noteq> cr \<and> c \<noteq> nl) a \<and> list_all (\<lambda>c. ascii c \<and> c \<noteq> cr \<and> c \<noteq> nl) b"
  by (auto simp: header_line_def)

lemma graph_plain: "\<forall>c \<in> set s. graph_char c \<Longrightarrow> list_all (\<lambda>c. ascii c \<and> c \<noteq> cr \<and> c \<noteq> nl) s"
  using graph_or_space by (simp add: list_all_iff)

lemma request_headers_lines:
  "\<forall>c \<in> set action. graph_char c \<Longrightarrow> list_all header_line (request_headers fritz_ip action n)"
  using graph_plain [OF show_ipv4_graph] graph_plain [OF show_nat_graph] graph_plain [of action]
  by (simp add: request_headers_def header_line_append fritz_hosts_service_def) (simp add: header_line_def)

lemma length_header_skip:
  "CHR '':'' \<notin> set name \<Longrightarrow> \<not> eq_ignore_ascii_case name ''Content-Length'' \<Longrightarrow>
     length_header (name @ CHR '':'' # v) = None"
  by (simp add: length_header_def split_once_append)

lemma length_header_value:
  assumes "n < 2 ^ 64"
  shows "length_header (''Content-Length: '' @ show_nat n) = Some n"
proof -
  have "split_once CHR '':'' (''Content-Length'' @ CHR '':'' # '' '' @ show_nat n) = Some (''Content-Length'', '' '' @ show_nat n)"
    by (rule split_once_append) simp
  moreover have "trim ('' '' @ show_nat n) = show_nat n"
    using trim_space_front trim_graph_all [OF show_nat_graph] by simp
  moreover have "from_str_radix 10 (2 ^ 64 - 1) (show_nat n) = Ok n"
    using assms by (intro from_str_radix_show_nat) simp
  ultimately show ?thesis
    by (simp add: length_header_def parse_usize_def eq_ignore_ascii_case_def)
qed

lemma request_length:
  assumes a: "\<forall>c \<in> set action. graph_char c" and n: "n < 2 ^ 64"
  shows "content_length (message (request_headers fritz_ip action n) s) = Some n"
    and "request_complete (message (request_headers fritz_ip action n) s) =
      (if length (headers (request_headers fritz_ip action n)) + 2 + n < 2 ^ 64 then Some (n \<le> length s) else None)"
proof -
  let ?before = "[''POST /upnp/control/hosts HTTP/1.1'', ''Host: '' @ show_ipv4 fritz_ip @ '':49000'',
      ''Content-Type: text/xml; charset=\"utf-8\"'',
      ''SOAPAction: \"'' @ fritz_hosts_service @ ''#'' @ action @ ''\"'']"
  have h: "request_headers fritz_ip action n = ?before @ (''Content-Length: '' @ show_nat n) # [''Connection: close'']"
    by (simp add: request_headers_def)
  have "length_header ''POST /upnp/control/hosts HTTP/1.1'' = None" by code_simp
  moreover have "length_header (''Host: '' @ show_ipv4 fritz_ip @ '':49000'') = None"
    using length_header_skip [of "''Host''" "'' '' @ show_ipv4 fritz_ip @ '':49000''"]
    by (simp add: eq_ignore_ascii_case_def to_ascii_lowercase_def)
  moreover have "length_header ''Content-Type: text/xml; charset=\"utf-8\"'' = None" by code_simp
  moreover have "length_header (''SOAPAction: \"'' @ fritz_hosts_service @ ''#'' @ action @ ''\"'') = None"
    using length_header_skip [of "''SOAPAction''" "'' \"'' @ fritz_hosts_service @ ''#'' @ action @ ''\"''"]
    by (simp add: eq_ignore_ascii_case_def to_ascii_lowercase_def)
  ultimately have b: "list_all (\<lambda>x. length_header x = None) ?before" by simp
  note r = request_complete_message [OF h request_headers_lines [OF a] b length_header_value [OF n]]
  show "content_length (message (request_headers fritz_ip action n) s) = Some n" by (rule r(1))
  show "request_complete (message (request_headers fritz_ip action n) s) =
      (if length (headers (request_headers fritz_ip action n)) + 2 + n < 2 ^ 64 then Some (n \<le> length s) else None)"
    by (rule r(2))
qed

lemma request_exact:
  assumes "\<forall>c \<in> set action. graph_char c" and "length (fritz_hosts_request fritz_ip action args) < 2 ^ 64"
    and "prefix p (fritz_hosts_request fritz_ip action args)"
  shows "request_complete p = Some (p = fritz_hosts_request fritz_ip action args)"
proof -
  let ?body = "soap_body action args"
  let ?ls = "request_headers fritz_ip action (length ?body)"
  have fits: "length (headers ?ls) + 2 + length ?body < 2 ^ 64" "length ?body < 2 ^ 64"
    using assms(2) by (simp_all add: request_message message_def)
  show ?thesis
  proof (cases "contains p blank_line")
    case True
    have "?ls \<noteq> []" by (simp add: request_headers_def)
    then obtain q where q: "p = message ?ls q" "prefix q ?body"
      using prefix_message [OF request_headers_lines [OF assms(1)]] assms(3) True unfolding request_message by metis
    then have "length ?body \<le> length q \<longleftrightarrow> q = ?body" by (auto simp: prefix_def)
    moreover have "request_complete p = Some (length ?body \<le> length q)"
      using request_length(2) [OF assms(1) fits(2)] fits(1) q(1) by simp
    moreover have "p = fritz_hosts_request fritz_ip action args \<longleftrightarrow> q = ?body"
      by (simp add: q(1) request_message message_def)
    ultimately show ?thesis by simp
  next
    case False
    have "request_complete (fritz_hosts_request fritz_ip action args) = Some True"
      using request_length(2) [OF assms(1) fits(2), of fritz_ip ?body] fits(1) by (simp add: request_message)
    with False show ?thesis by (auto simp: request_complete_def)
  qed
qed

text \<open>C24: \<^bold>\<open>the client's requests frame themselves\<close>. Of all the beginnings of a Hosts request, the
  lab takes exactly the whole request for complete, whatever bytes the arguments hold: it never
  answers early, never waits for more, and its addition never leaves \<open>usize\<close>.\<close>

theorem request_framing:
  assumes "\<forall>c \<in> set action. graph_char c" and "length (fritz_hosts_request fritz_ip action args) < 2 ^ 64"
    and "prefix p (fritz_hosts_request fritz_ip action args)"
  shows "request_complete p = Some (p = fritz_hosts_request fritz_ip action args)"
  using assms by (rule request_exact)

lemma show_nat_bound: "length (show_nat n) \<le> Suc n"
proof (induction n rule: less_induct)
  case (less n)
  show ?case
  proof (cases "n < 10")
    case False
    then have "length (show_nat (n div 10)) \<le> Suc (n div 10)" using less by simp
    with False show ?thesis by (subst show_nat.simps) simp
  qed (subst show_nat.simps, simp)
qed

lemma show_ipv4_bound: "length (show_ipv4 ip) \<le> 1100"
proof (cases ip)
  case (Ipv4 a b c d)
  have "length (show_nat (unat x)) \<le> 256" for x :: u8
    using show_nat_bound [of "unat x"] unsigned_less [of x, where ?'a = nat] by simp
  from this [of a] this [of b] this [of c] this [of d] show ?thesis by (simp add: Ipv4)
qed

lemma request_framing_bound:
  assumes "length action \<le> 40" "length args \<le> 100"
  shows "length (fritz_hosts_request fritz_ip action args) < 2 ^ 64"
proof -
  have "length (soap_body action args) \<le> 500"
    using assms by (simp add: soap_body_def fritz_hosts_service_def)
  moreover from this have "length (show_nat (length (soap_body action args))) \<le> 501"
    using show_nat_bound [of "length (soap_body action args)"] by linarith
  ultimately show ?thesis
    using assms(1) show_ipv4_bound [of fritz_ip]
    by (simp add: fritz_hosts_request_def fritz_hosts_service_def Let_def)
qed

theorem request_framing_witness:
  "request_complete (fritz_hosts_request (Ipv4 192 168 178 1) ''GetSpecificHostEntry'' ''<a/>'') = Some True"
proof -
  have g: "\<forall>c \<in> set ''GetSpecificHostEntry''. graph_char c" by code_simp
  have "length (fritz_hosts_request (Ipv4 192 168 178 1) ''GetSpecificHostEntry'' ''<a/>'') < 2 ^ 64"
    by (rule request_framing_bound) simp_all
  then show ?thesis by (subst request_framing [OF g]) simp_all
qed

text \<open>The pieces in which a request may arrive.\<close>

definition pieces_of :: "string \<Rightarrow> string list \<Rightarrow> bool" where
  "pieces_of request ps \<longleftrightarrow> concat ps = request \<and> ps \<noteq> [] \<and> list_all (\<lambda>p. p \<noteq> []) ps"

lemma read_pieces:
  assumes frame: "\<And>p. prefix p request \<Longrightarrow> request_complete p = Some (p = request)"
    and "acc @ concat ps = request" "ps \<noteq> []" "list_all (\<lambda>p. p \<noteq> []) ps"
  shows "read_request acc (map Read ps @ rs) = Served request"
  using assms(2-4)
proof (induction ps arbitrary: acc)
  case (Cons p ps)
  have "prefix (acc @ p) request" using Cons.prems(1) by (auto simp: prefix_def)
  note c = frame [OF this]
  show ?case
  proof (cases "ps = []")
    case True
    with Cons.prems c show ?thesis by simp
  next
    case False
    with Cons.prems have "concat ps \<noteq> []" by (cases ps) auto
    then have "acc @ p \<noteq> request" using Cons.prems(1) by auto
    with c Cons False show ?thesis by simp
  qed
qed simp

lemma serve_pieces:
  assumes "\<forall>c \<in> set action. graph_char c" "length action \<le> 40" "length args \<le> 100"
    and "pieces_of (fritz_hosts_request ip action args) ps"
  shows "serve pc_ip (map Read ps @ rs) = Some (fritz_response pc_ip (fritz_hosts_request ip action args))"
  using read_pieces [OF request_exact [OF assms(1) request_framing_bound [OF assms(2,3)]], of ip "[]" ps rs] assms(4)
  by (simp add: serve_def pieces_of_def)

section \<open>What the lab answers\<close>

lemma mac_display_byte: "c \<in> set (mac_display mac) \<Longrightarrow> 48 \<le> byte c \<and> byte c \<le> 70"
proof -
  have d: "48 \<le> byte (digit_char n) \<and> byte (digit_char n) \<le> 70" if "n < 16" for n
    using less_16_cases [OF that] by (auto simp: digit_char_def)
  then have "48 \<le> byte c \<and> byte c \<le> 70" if "c \<in> set (show_hex2 b)" for b c
    using show_hex2_chars [OF that] by blast
  then show "c \<in> set (mac_display mac) \<Longrightarrow> 48 \<le> byte c \<and> byte c \<le> 70"
    by (cases mac) auto
qed

lemma length_mac_display: "length (mac_display mac) = 17"
  by (cases mac) simp

lemma shown_notin [simp]:
  "\<not> (46 \<le> byte c \<and> byte c \<le> 57) \<Longrightarrow> c \<notin> set (show_ipv4 ip)"
  "\<not> (48 \<le> byte c \<and> byte c \<le> 70) \<Longrightarrow> c \<notin> set (mac_display mac)"
  using show_ipv4_byte mac_display_byte by blast+

lemma shown_ascii [simp]: "\<forall>c \<in> set (show_ipv4 ip). ascii c" "\<forall>c \<in> set (mac_display mac). ascii c"
    "\<forall>c \<in> set (show_nat n). ascii c"
  by (intro ballI; drule show_ipv4_byte mac_display_byte show_nat_byte; linarith)+

lemma mac_arguments_text: "\<forall>c \<in> set (mac_arguments mac). ascii c" "length (mac_arguments mac) \<le> 100"
    "contains (mac_arguments mac) ''<NewMACAddress>''"
  using contains_append [of "[]" "''<NewMACAddress>''"]
  by (simp_all add: mac_arguments_def length_mac_display ball_Un)

lemma contains_part: "contains s p \<Longrightarrow> contains (a @ s @ b) p"
  unfolding contains_iff_sublist by (meson sublist_append_leftI sublist_append_rightI sublist_order.order.trans)

lemma soap_body_ascii:
  assumes "\<forall>c \<in> set action. ascii c" "\<forall>c \<in> set args. ascii c"
  shows "\<forall>c \<in> set (soap_body action args). ascii c"
proof -
  have "\<forall>c \<in> set ''<?xml version=\"1.0\"?><s:Envelope xmlns:s=\"http://schemas.xmlsoap.org/soap/envelope/\" s:encodingStyle=\"http://schemas.xmlsoap.org/soap/encoding/\"><s:Body><u:''. ascii c"
    "\<forall>c \<in> set '' xmlns:u=\"''. ascii c" "\<forall>c \<in> set fritz_hosts_service. ascii c" "\<forall>c \<in> set ''\">''. ascii c"
    "\<forall>c \<in> set ''</u:''. ascii c" "\<forall>c \<in> set ''></s:Body></s:Envelope>''. ascii c"
    by code_simp+
  with assms show ?thesis unfolding soap_body_def set_append ball_Un by blast
qed

lemma request_text:
  assumes "\<forall>c \<in> set action. graph_char c" "\<forall>c \<in> set args. ascii c"
  shows "from_utf8_lossy (fritz_hosts_request ip action args) = fritz_hosts_request ip action args"
    and "contains (fritz_hosts_request ip action args) action"
    and "contains args p \<Longrightarrow> contains (fritz_hosts_request ip action args) p"
proof -
  have "\<forall>c \<in> set action. ascii c" using assms(1) graph_ascii by blast
  then have body: "from_utf8_lossy (soap_body action args) = soap_body action args"
    by (intro from_utf8_lossy_ascii_all soap_body_ascii assms(2))
  show "from_utf8_lossy (fritz_hosts_request ip action args) = fritz_hosts_request ip action args"
    unfolding request_message lossy_message [OF request_headers_lines [OF assms(1)]] body by (rule refl)
  define A where "A = headers (request_headers ip action (length (soap_body action args))) @ crlf @
     ''<?xml version=\"1.0\"?><s:Envelope xmlns:s=\"http://schemas.xmlsoap.org/soap/envelope/\" s:encodingStyle=\"http://schemas.xmlsoap.org/soap/encoding/\"><s:Body><u:''"
  have r: "fritz_hosts_request ip action args =
      A @ action @ '' xmlns:u=\"'' @ fritz_hosts_service @ ''\">'' @ args @ ''</u:'' @ action @ ''></s:Body></s:Envelope>''"
    by (simp add: request_message message_def soap_body_def A_def)
  show "contains (fritz_hosts_request ip action args) action"
    unfolding r by (rule contains_append)
  show "contains (fritz_hosts_request ip action args) p" if "contains args p"
    using contains_part [OF that, of "A @ action @ '' xmlns:u=\"'' @ fritz_hosts_service @ ''\">''"
        "''</u:'' @ action @ ''></s:Body></s:Envelope>''"]
    unfolding r by simp
qed

lemma not_contains: "c \<in> set p \<Longrightarrow> c \<notin> set s \<Longrightarrow> \<not> contains s p"
  unfolding contains_iff_sublist using set_mono_sublist by blast

text \<open>The two requests the client sends, and the answers the lab chooses for them.\<close>

lemma actions: "\<forall>c \<in> set ''X_AVM-DE_WakeOnLANByMACAddress''. graph_char c"
    "\<forall>c \<in> set ''GetSpecificHostEntry''. graph_char c"
  by code_simp+

lemma wake_response:
  "fritz_response pc_ip (fritz_wol_request ip mac) = http_ok wake_response_body"
  using request_text [OF actions(1) mac_arguments_text(1)] mac_arguments_text(3)
  by (simp add: fritz_response_def response_body_def fritz_wol_request_def Let_def)

lemma entry_response:
  "fritz_response pc_ip (fritz_hosts_request ip ''GetSpecificHostEntry'' (mac_arguments mac)) =
     http_ok (entry_response_body pc_ip)"
proof -
  have "CHR ''_'' \<notin> set (fritz_hosts_request ip ''GetSpecificHostEntry'' (mac_arguments mac))"
    by (simp add: fritz_hosts_request_def soap_body_def fritz_hosts_service_def mac_arguments_def Let_def)
  then have "\<not> contains (fritz_hosts_request ip ''GetSpecificHostEntry'' (mac_arguments mac)) ''X_AVM-DE_WakeOnLANByMACAddress''"
    by (intro not_contains [of "CHR ''_''"]) simp
  then show ?thesis
    using request_text [OF actions(2) mac_arguments_text(1)] mac_arguments_text(3)
    by (simp add: fritz_response_def response_body_def Let_def)
qed

lemma http_ok_status: "http_status (http_ok body) = Ok 200"
proof -
  have "show_nat (unat (200 :: u16)) = ''200''" by code_simp
  moreover have "\<forall>c \<in> set ''HTTP/1.1''. graph_char c" "\<forall>c \<in> set '' OK''. graph_char c \<or> c = CHR '' ''"
    by code_simp+
  ultimately show ?thesis
    using status_line_code [of "''HTTP/1.1''" "'' OK''" "[cr]" 200 "''Content-Type: text/xml'' @ crlf @
       ''Content-Length: '' @ show_nat (length body) @ crlf @ ''Connection: close'' @ crlf @ crlf @ body"]
    by (simp add: http_ok_def)
qed

text \<open>The text before and after the address in the answer to a lookup.\<close>

definition entry_head :: "nat \<Rightarrow> string" where
  "entry_head n = ''HTTP/1.1 200 OK'' @ crlf @ ''Content-Type: text/xml'' @ crlf @
     ''Content-Length: '' @ show_nat n @ crlf @ ''Connection: close'' @ crlf @ crlf @
     ''<?xml version=\"1.0\"?><s:Envelope xmlns:s=\"http://schemas.xmlsoap.org/soap/envelope/\"><s:Body><u:GetSpecificHostEntryResponse xmlns:u=\"urn:dslforum-org:service:Hosts:1\">''"

definition entry_tail :: string where
  "entry_tail = ''</u:GetSpecificHostEntryResponse></s:Body></s:Envelope>''"

lemma entry_text:
  "\<exists>n. http_ok (entry_response_body pc_ip) =
     entry_head n @ ''<NewIPAddress>'' @ show_ip pc_ip @ ''</NewIPAddress><NewActive>1</NewActive>'' @ entry_tail"
  by (rule exI [of _ "length (entry_response_body pc_ip)"])
    (simp add: http_ok_def entry_head_def entry_tail_def, simp add: entry_response_body_def)

lemma entry_head_chars: "\<forall>c \<in> set (entry_head n). ascii c" "CHR ''N'' \<notin> set (entry_head n)"
proof -
  have "\<forall>c \<in> set (''HTTP/1.1 200 OK'' @ crlf @ ''Content-Type: text/xml'' @ crlf @ ''Content-Length: ''). ascii c"
    "\<forall>c \<in> set (crlf @ ''Connection: close'' @ crlf @ crlf @ ''<?xml version=\"1.0\"?><s:Envelope xmlns:s=\"http://schemas.xmlsoap.org/soap/envelope/\"><s:Body><u:GetSpecificHostEntryResponse xmlns:u=\"urn:dslforum-org:service:Hosts:1\">''). ascii c"
    by code_simp+
  then show "\<forall>c \<in> set (entry_head n). ascii c"
    unfolding entry_head_def set_append ball_Un using shown_ascii(3) by blast
  show "CHR ''N'' \<notin> set (entry_head n)" by (simp add: entry_head_def)
qed

text \<open>What the text of an address is made of.\<close>

definition entry_char :: "char \<Rightarrow> bool" where
  "entry_char c \<longleftrightarrow> graph_char c \<and> c \<noteq> CHR ''N''"

lemma entry_utf8:
  assumes "list_all entry_char t"
  shows "utf8_valid (entry_head n @ ''<NewIPAddress>'' @ t @ ''</NewIPAddress><NewActive>1</NewActive>'' @ entry_tail)"
proof -
  have "\<forall>c \<in> set ''<NewIPAddress>''. ascii c" "\<forall>c \<in> set ''</NewIPAddress><NewActive>1</NewActive>''. ascii c"
    "\<forall>c \<in> set entry_tail. ascii c"
    by code_simp+
  moreover have "\<forall>c \<in> set t. ascii c" using assms graph_ascii by (auto simp: list_all_iff entry_char_def)
  ultimately show ?thesis
    by (intro utf8_valid_ascii) (use entry_head_chars(1) in \<open>unfold set_append ball_Un, blast\<close>)
qed

lemma entry_field:
  assumes "list_all entry_char t"
  shows "host_field ''NewIPAddress'' (entry_head n @ ''<NewIPAddress>'' @ t @ ''</NewIPAddress><NewActive>1</NewActive>'' @ entry_tail) = Ok t"
proof -
  let ?r = "entry_head n @ ''<NewIPAddress>'' @ t @ ''</NewIPAddress><NewActive>1</NewActive>'' @ entry_tail"
  have "\<not> contains (entry_head n) ''<NewIPAddress>''"
    using entry_head_chars(2) by (intro not_contains [of "CHR ''N''"]) simp_all
  moreover have "\<not> contains t ''</NewIPAddress>''"
    using assms by (intro not_contains [of "CHR ''N''"]) (auto simp: list_all_iff entry_char_def)
  moreover have "?r = entry_head n @ ''<NewIPAddress>'' @ t @ ''</NewIPAddress>'' @ ''<NewActive>1</NewActive>'' @ entry_tail"
    by simp
  ultimately have "first_element ''NewIPAddress'' ?r t"
    unfolding first_element_def start_tag_def end_tag_def by fastforce
  moreover have "t = trim t" using assms by (intro trim_graph_all [symmetric]) (simp add: list_all_iff entry_char_def)
  ultimately show ?thesis
    unfolding host_field_Ok [OF field_names(1)] using entry_utf8 [OF assms] by blast
qed

lemma show_ipv4_chars: "list_all entry_char (show_ipv4 a)"
  using show_ipv4_graph [of a] by (auto simp: list_all_iff entry_char_def dest: show_ipv4_byte)

lemmas entry_ip = entry_field [OF show_ipv4_chars]

lemma no_active:
  "\<not> contains (entry_head n @ ''<NewIPAddress>'' @ show_ipv4 a @ ''</NewIPAddress>'') ''<NewActive>''"
proof -
  have "find_str ''NewActive'' ((entry_head n @ ''<'') @ ''NewIPAddress>'' @ show_ipv4 a @ ''</NewIPAddress>'') = None"
    using entry_head_chars(2) by (subst find_str_skip) (simp_all add: find_str_skip)
  then have "\<not> contains (entry_head n @ ''<NewIPAddress>'' @ show_ipv4 a @ ''</NewIPAddress>'') ''NewActive''"
    by (simp add: contains_def)
  moreover have "sublist ''NewActive'' ''<NewActive>''" by (simp add: sublist_code)
  ultimately show ?thesis unfolding contains_iff_sublist using sublist_order.order.trans by blast
qed

lemma entry_active:
  "host_field ''NewActive'' (entry_head n @ ''<NewIPAddress>'' @ show_ipv4 a @ ''</NewIPAddress><NewActive>1</NewActive>'' @ entry_tail) =
     Ok ''1''"
proof -
  let ?r = "entry_head n @ ''<NewIPAddress>'' @ show_ipv4 a @ ''</NewIPAddress><NewActive>1</NewActive>'' @ entry_tail"
  let ?pre = "entry_head n @ ''<NewIPAddress>'' @ show_ipv4 a @ ''</NewIPAddress>''"
  have "?r = ?pre @ ''<NewActive>'' @ ''1'' @ ''</NewActive>'' @ entry_tail" by simp
  moreover have "\<not> contains ''1'' ''</NewActive>''" by code_simp
  ultimately have "first_element ''NewActive'' ?r ''1''"
    unfolding first_element_def start_tag_def end_tag_def using no_active [of n a]
    by (intro exI [of _ ?pre] exI [of _ entry_tail]) simp
  moreover have "''1'' = trim ''1''" by code_simp
  ultimately show ?thesis
    unfolding host_field_Ok [OF field_names(2)] using entry_utf8 [OF show_ipv4_chars] by blast
qed

text \<open>\<^bold>\<open>the wake request reaches the lab\<close>. In whatever pieces the client's Wake-on-LAN
  request for a MAC address arrives, the lab answers it with a status the client reads as 200.\<close>

theorem lab_accepts_wake:
  assumes "pieces_of (fritz_wol_request ip mac) ps"
  shows "\<exists>reply. serve pc_ip (map Read ps @ rs) = Some reply \<and> http_status reply = Ok 200"
proof -
  have "serve pc_ip (map Read ps @ rs) = Some (fritz_response pc_ip (fritz_wol_request ip mac))"
    using serve_pieces [OF actions(1) _ mac_arguments_text(2)] assms by (simp add: fritz_wol_request_def)
  then show ?thesis by (simp add: wake_response http_ok_status)
qed

theorem lab_accepts_wake_witness:
  "let request = fritz_wol_request (Ipv4 192 168 178 1) (MacAddress [1, 2, 3, 4, 5, 6])
   in \<exists>reply. serve (V4 (Ipv4 10 231 0 1)) (map Read [take 300 request, drop 300 request]) = Some reply \<and>
      http_status reply = Ok 200"
proof -
  let ?request = "fritz_wol_request (Ipv4 192 168 178 1) (MacAddress [1, 2, 3, 4, 5, 6])"
  have "300 < length ?request"
    by (simp add: fritz_wol_request_def fritz_hosts_request_def soap_body_def fritz_hosts_service_def Let_def)
  then have "pieces_of ?request [take 300 ?request, drop 300 ?request]" by (auto simp: pieces_of_def)
  from lab_accepts_wake [OF this, of "V4 (Ipv4 10 231 0 1)" "[]"] show ?thesis by (simp add: Let_def)
qed

text \<open>\<^bold>\<open>a lookup finds the lab's PC\<close>. The lab's answer to the client's host lookup reads back as
  status 200, the IPv4 address the lab was started with, and an active host.\<close>

theorem lab_answers_lookup:
  assumes "pieces_of (fritz_hosts_request ip ''GetSpecificHostEntry'' (mac_arguments mac)) ps"
  shows "\<exists>reply. serve (V4 pc) (map Read ps @ rs) = Some reply \<and> http_status reply = Ok 200 \<and>
    fritz_host_ip wide reply = Ok pc \<and> fritz_host_active wide reply = Ok True"
proof -
  obtain n where n: "http_ok (entry_response_body (V4 pc)) = entry_head n @ ''<NewIPAddress>'' @ show_ipv4 pc @
      ''</NewIPAddress><NewActive>1</NewActive>'' @ entry_tail"
    using entry_text [of "V4 pc"] by auto
  let ?reply = "http_ok (entry_response_body (V4 pc))"
  have "serve (V4 pc) (map Read ps @ rs) = Some ?reply"
    using serve_pieces [OF actions(2) _ mac_arguments_text(2) assms] by (simp add: entry_response)
  moreover have "fritz_host_ip wide ?reply = Ok pc"
    unfolding n fritz_host_ip_def entry_ip by (simp add: parse_show_ipv4)
  moreover have "fritz_host_active wide ?reply = Ok True"
    unfolding n fritz_host_active_def entry_active by simp
  ultimately show ?thesis using http_ok_status by blast
qed

theorem lab_answers_lookup_witness:
  "let request = fritz_hosts_request (Ipv4 192 168 178 1) ''GetSpecificHostEntry'' (mac_arguments (MacAddress [1, 2, 3, 4, 5, 6]))
   in \<exists>reply. serve (V4 (Ipv4 10 231 0 1)) [Read request] = Some reply \<and> fritz_host_ip id reply = Ok (Ipv4 10 231 0 1)"
proof -
  let ?request = "fritz_hosts_request (Ipv4 192 168 178 1) ''GetSpecificHostEntry'' (mac_arguments (MacAddress [1, 2, 3, 4, 5, 6]))"
  have "?request \<noteq> []" by (simp add: fritz_hosts_request_def Let_def)
  then have "pieces_of ?request [?request]" by (simp add: pieces_of_def)
  from lab_answers_lookup [OF this, of "Ipv4 10 231 0 1" "[]" id] show ?thesis by (auto simp: Let_def)
qed

end
