(* ===== verification/Lab_Main.thy ===== *)
theory Lab_Main
  imports Lab
begin

text \<open>
  The lab as a program: \<open>main\<close> of \<open>crates/waker-lab/src/main.rs\<close>, from the environment to the replies, and
  what the client makes of them.
\<close>

section \<open>The program\<close>

text \<open>\<open>IpAddr::from_str\<close>: a V4 address is tried first, and nothing may be left.\<close>

definition read_ip_addr :: "string \<Rightarrow> (ip_addr \<times> string) option" where
  "read_ip_addr s =
     (case read_ipv4 s of
        Some (a, rest) \<Rightarrow> Some (V4 a, rest)
      | None \<Rightarrow> map_option (\<lambda>(a, rest). (V6 a, rest)) (read_ipv6 s))"

definition parse_ip_addr :: "string \<Rightarrow> ip_addr option" where
  "parse_ip_addr s = (case read_ip_addr s of Some (a, []) \<Rightarrow> Some a | _ \<Rightarrow> None)"

text \<open>
  \<open>env\<close> is \<open>std::env::var(\<dots>).ok()\<close>; \<open>bind\<close> is \<open>TcpListener::bind\<close> with what the listener's \<open>accept\<close> answers
  then. The program panics, or it serves and may end with an I/O error.
\<close>

datatype lab_run = LabPanic string | LabServed "string option list" "string option"

definition lab_var :: "(string \<Rightarrow> string option) \<Rightarrow> string \<Rightarrow> string \<Rightarrow> string" where
  "lab_var env name fallback = (case env name of Some v \<Rightarrow> v | None \<Rightarrow> fallback)"

definition lab_fritz :: "(socket_addr \<Rightarrow> string + accept_result list) \<Rightarrow> socket_addr \<Rightarrow> ip_addr \<Rightarrow> lab_run" where
  "lab_fritz bind fritz_bind pc_ip =
     (case bind fritz_bind of
        Err e \<Rightarrow> LabServed [] (Some e)
      | Ok accepts \<Rightarrow> (let (replies, e) = run_fake_fritz pc_ip accepts in LabServed replies e))"

definition lab_main :: "(string \<Rightarrow> string option) \<Rightarrow> (socket_addr \<Rightarrow> string + accept_result list) \<Rightarrow> lab_run" where
  "lab_main env bind =
     (case parse_socket_addr (lab_var env ''WAKER_LAB_FRITZ_BIND'' ''0.0.0.0:49000'') of
        None \<Rightarrow> LabPanic ''valid WAKER_LAB_FRITZ_BIND''
      | Some fritz_bind \<Rightarrow>
     (case parse_ip_addr (lab_var env ''WAKER_LAB_PC_IP'' ''10.231.0.1'') of
        None \<Rightarrow> LabPanic ''valid WAKER_LAB_PC_IP''
      | Some pc_ip \<Rightarrow> lab_fritz bind fritz_bind pc_ip))"

section \<open>Addresses\<close>

lemma parse_ip_addr_show: "parse_ip_addr (show_ipv4 a) = Some (V4 a)"
  using read_ipv4_show [of "[]" a] by (simp add: parse_ip_addr_def read_ip_addr_def)

lemma read_digits_colon:
  "read_digits 10 mx maxd acc cnt s = Some (v, n, rest) \<Longrightarrow> CHR '':'' \<in> set s \<Longrightarrow> CHR '':'' \<in> set rest"
proof (induction s arbitrary: acc cnt)
  case (Cons c cs)
  have "to_digit 10 CHR '':'' = None" by code_simp
  with Cons show ?case by (auto split: option.splits if_splits)
qed simp

lemma read_octet_colon: "read_octet s = Some (v, rest) \<Longrightarrow> CHR '':'' \<in> set s \<Longrightarrow> CHR '':'' \<in> set rest"
  by (auto simp: read_octet_def read_number_def split: option.splits if_splits dest: read_digits_colon)

lemma read_dot_octet_colon: "read_dot_octet s = Some (v, rest) \<Longrightarrow> CHR '':'' \<in> set s \<Longrightarrow> CHR '':'' \<in> set rest"
  by (cases s) (auto simp: read_dot_octet_def dest: read_octet_colon split: if_splits)

lemma parse_ipv4_colon:
  assumes "CHR '':'' \<in> set s"
  shows "parse_ipv4 s = None"
proof -
  have "CHR '':'' \<in> set rest" if "read_ipv4 s = Some (a, rest)" for a rest
    using that assms
    by (auto simp: read_ipv4_def bind_eq_Some_conv dest!: read_octet_colon read_dot_octet_colon)
  then show ?thesis by (auto simp: parse_ipv4_def split: option.split list.split)
qed

lemma show_hex_chars: "list_all entry_char (show_hex n)"
proof (induction n rule: show_hex.induct)
  case (1 n)
  have "list_all entry_char ''0123456789abcdef''" by code_simp
  then have "k < 16 \<Longrightarrow> entry_char (''0123456789abcdef'' ! k)" for k by (simp only: list_all_length) simp
  then show ?case using 1 by (subst show_hex.simps) (simp del: nth_Cons_numeral)
qed

lemma join_chars: "list_all Q sep \<Longrightarrow> list_all (list_all Q) ps \<Longrightarrow> list_all Q (join sep ps)"
  by (induction sep ps rule: join.induct) auto

lemma show_ipv6_chars: "list_all entry_char (show_ipv6 a)" "CHR '':'' \<in> set (show_ipv6 a)"
proof -
  have seps: "list_all entry_char ''::ffff:''" "list_all entry_char ''::''" "list_all entry_char '':''" by code_simp+
  have part: "list_all (list_all entry_char) (map (\<lambda>x :: u16. show_hex (unat x)) gs)" for gs
    by (simp add: list_all_iff show_hex_chars [unfolded list_all_iff])
  show "list_all entry_char (show_ipv6 a)"
    using seps part by (cases a) (simp add: join_chars show_ipv4_chars Let_def case_prod_beta del: list.map show_ipv4.simps split: option.split)
  show "CHR '':'' \<in> set (show_ipv6 a)"
    by (cases a) (simp add: Let_def case_prod_beta split: option.split)
qed

section \<open>What the client makes of the lab\<close>

text \<open>
  What the connections before the end bring, in order, and what the end is. A connection that is aborted on
  its way, that fails or never ends, or whose task panics leaves the others alone: each is served for itself.
\<close>

fun accepted :: "accept_result list \<Rightarrow> read_result list list" where
  "accepted [] = []"
| "accepted (ConnectionAborted # as) = accepted as"
| "accepted (AcceptError e # as) = []"
| "accepted (Accepted rs # as) = rs # accepted as"

fun accept_end :: "accept_result list \<Rightarrow> string option" where
  "accept_end [] = None"
| "accept_end (AcceptError e # as) = Some e"
| "accept_end (ConnectionAborted # as) = accept_end as"
| "accept_end (Accepted rs # as) = accept_end as"

lemma each_served: "run_fake_fritz pc cs = (map (serve pc) (accepted cs), accept_end cs)"
  by (induction pc cs rule: run_fake_fritz.induct) simp_all

text \<open>What a client's lookup brings, whatever the pieces its request arrives in.\<close>

definition looks_up :: "read_result list \<Rightarrow> bool" where
  "looks_up script \<longleftrightarrow> (\<exists>ip mac ps rs. script = map Read ps @ rs \<and>
     pieces_of (fritz_hosts_request ip ''GetSpecificHostEntry'' (mac_arguments mac)) ps)"

lemma lookup_served: "looks_up script \<Longrightarrow> serve pc script = Some (http_ok (entry_response_body pc))"
  using serve_pieces [OF actions(2) _ mac_arguments_text(2)] by (fastforce simp: looks_up_def entry_response)

lemma lab_main_run:
  assumes "parse_socket_addr (lab_var env ''WAKER_LAB_FRITZ_BIND'' ''0.0.0.0:49000'') = Some fritz_bind"
    and "parse_ip_addr (lab_var env ''WAKER_LAB_PC_IP'' ''10.231.0.1'') = Some pc_ip"
    and "bind fritz_bind = Ok cs"
  shows "lab_main env bind = LabServed (map (serve pc_ip) (accepted cs)) (accept_end cs)"
  using assms by (simp add: lab_main_def lab_fritz_def each_served)

lemma entry_reads:
  "fritz_host_ip wide (http_ok (entry_response_body (V4 a))) = Ok a"
  "fritz_host_active wide (http_ok (entry_response_body (V4 a))) = Ok True"
  "\<exists>e. fritz_host_ip wide (http_ok (entry_response_body (V6 b))) = Err e"
proof -
  obtain n where n: "http_ok (entry_response_body (V4 a)) = entry_head n @ ''<NewIPAddress>'' @ show_ipv4 a @
      ''</NewIPAddress><NewActive>1</NewActive>'' @ entry_tail"
    using entry_text [of "V4 a"] by auto
  show "fritz_host_ip wide (http_ok (entry_response_body (V4 a))) = Ok a"
    unfolding n fritz_host_ip_def entry_ip by (simp add: parse_show_ipv4)
  show "fritz_host_active wide (http_ok (entry_response_body (V4 a))) = Ok True"
    unfolding n fritz_host_active_def entry_active by simp
  obtain k where k: "http_ok (entry_response_body (V6 b)) = entry_head k @ ''<NewIPAddress>'' @ show_ipv6 b @
      ''</NewIPAddress><NewActive>1</NewActive>'' @ entry_tail"
    using entry_text [of "V6 b"] by auto
  show "\<exists>e. fritz_host_ip wide (http_ok (entry_response_body (V6 b))) = Err e"
    unfolding k fritz_host_ip_def entry_field [OF show_ipv6_chars(1)]
    by (simp add: parse_ipv4_colon [OF show_ipv6_chars(2)])
qed

text \<open>C25: \<^bold>\<open>a lookup finds the PC the lab was started for\<close>. Once the lab's variables parse and its socket
  is bound, as long as \<open>accept\<close> brings no error that ends it, it serves every connection, and whatever the
  others do, a client that looks a host up, in whatever pieces its request arrives, gets a reply that it reads as status
  200; if the PC's address is of version 4, as that address of an active host, and if it is of version 6, as
  an error, for the client reads IPv4 addresses only.\<close>

theorem lab_finds_pc:
  assumes "parse_socket_addr (lab_var env ''WAKER_LAB_FRITZ_BIND'' ''0.0.0.0:49000'') = Some fritz_bind"
    and "parse_ip_addr (lab_var env ''WAKER_LAB_PC_IP'' ''10.231.0.1'') = Some pc_ip"
    and "bind fritz_bind = Ok cs" "accept_end cs = None"
  shows "\<exists>replies. lab_main env bind = LabServed replies None \<and> length replies = length (accepted cs) \<and>
    (\<forall>i < length replies. looks_up (accepted cs ! i) \<longrightarrow>
       (\<exists>reply. replies ! i = Some reply \<and> http_status reply = Ok 200 \<and>
         (case pc_ip of
            V4 a \<Rightarrow> fritz_host_ip wide reply = Ok a \<and> fritz_host_active wide reply = Ok True
          | V6 _ \<Rightarrow> (\<exists>e. fritz_host_ip wide reply = Err e))))"
  using lab_main_run [of env fritz_bind pc_ip bind cs, OF assms(1-3)] assms(4) entry_reads http_ok_status lookup_served
  by (intro exI [of _ "map (serve pc_ip) (accepted cs)"]) (simp split: ip_addr.split)

text \<open>With no variable set, the lab listens on port 49000 of all interfaces.\<close>

lemma lab_defaults:
  "parse_socket_addr ''0.0.0.0:49000'' = Some (SocketV4 (Ipv4 0 0 0 0) 49000)"
  "parse_ip_addr ''10.231.0.1'' = Some (V4 (Ipv4 10 231 0 1))"
  by (simp_all add: parse_socket_addr_def read_socket_v4_def read_ipv4_def read_dot_octet_def read_octet_def
      read_number_def read_port_def to_digit_def parse_ip_addr_def read_ip_addr_def)

text \<open>A lookup in two pieces, behind a connection that is aborted, one that fails and one whose task panics.\<close>

definition huge_request :: string where
  "huge_request = message [''Content-Length: 18446744073709551615''] []"

lemma huge_request_panics: "serve pc [Read huge_request] = None"
proof -
  have "(''Content-Length: '' @ show_nat (2 ^ 64 - 1)) = ''Content-Length: 18446744073709551615''"
    by (simp add: show_nat.simps) code_simp
  then have l: "length_header ''Content-Length: 18446744073709551615'' = Some (2 ^ 64 - 1)"
    using length_header_value [of "2 ^ 64 - 1"] by simp
  have h: "list_all header_line [''Content-Length: 18446744073709551615'']" by code_simp
  show ?thesis
    unfolding huge_request_def
    by (rule huge_length_panics(2) [OF _ h _ l, of "[]" "[]"]) simp_all
qed

theorem lab_finds_pc_witness:
  "let request = fritz_hosts_request (Ipv4 192 168 178 1) ''GetSpecificHostEntry'' (mac_arguments (MacAddress [1, 2, 3, 4, 5, 6]));
       connections = [ConnectionAborted, Accepted [ReadError ''reset''], Accepted [Read huge_request],
         Accepted [Read (take 300 request), Read (drop 300 request)]]
   in serve (V4 (Ipv4 10 231 0 1)) [Read huge_request] = None \<and>
      (\<exists>a b reply. lab_main (\<lambda>_. None) (\<lambda>_. Ok connections) = LabServed [a, b, Some reply] None \<and>
        fritz_host_ip id reply = Ok (Ipv4 10 231 0 1) \<and> fritz_host_active id reply = Ok True)"
proof -
  let ?request = "fritz_hosts_request (Ipv4 192 168 178 1) ''GetSpecificHostEntry'' (mac_arguments (MacAddress [1, 2, 3, 4, 5, 6]))"
  let ?pieces = "[take 300 ?request, drop 300 ?request]"
  let ?cs = "[ConnectionAborted, Accepted [ReadError ''reset''], Accepted [Read huge_request],
    Accepted (map Read ?pieces @ [])]"
  have "300 < length ?request"
    by (simp add: fritz_hosts_request_def soap_body_def fritz_hosts_service_def Let_def)
  then have "pieces_of ?request ?pieces" by (auto simp: pieces_of_def)
  then have u: "looks_up (map Read ?pieces @ [])" unfolding looks_up_def by blast
  have v: "parse_socket_addr (lab_var (\<lambda>_. None) ''WAKER_LAB_FRITZ_BIND'' ''0.0.0.0:49000'') = Some (SocketV4 (Ipv4 0 0 0 0) 49000)"
    "parse_ip_addr (lab_var (\<lambda>_. None) ''WAKER_LAB_PC_IP'' ''10.231.0.1'') = Some (V4 (Ipv4 10 231 0 1))"
    by (simp_all add: lab_var_def lab_defaults)
  from lab_finds_pc [OF v, of "\<lambda>_. Ok ?cs", OF refl _, where wide = id] obtain replies
    where r: "lab_main (\<lambda>_. None) (\<lambda>_. Ok ?cs) = LabServed replies None" "length replies = 3"
      "\<exists>reply. replies ! 2 = Some reply \<and> fritz_host_ip id reply = Ok (Ipv4 10 231 0 1) \<and> fritz_host_active id reply = Ok True"
    using u by (fastforce simp: numeral_3_eq_3 numeral_2_eq_2)
  then obtain a b c where "replies = [a, b, c]" by (auto simp: numeral_3_eq_3 length_Suc_conv)
  with r huge_request_panics show ?thesis by (simp add: Let_def)
qed

end
