(* ===== verification/Tunnel.thy ===== *)
theory Tunnel
  imports Dns_Guard
begin

text \<open>
  \<open>SmolEngine\<close> and \<open>TunnelClient\<close> of \<open>crates/waker-net/src/lib.rs\<close>.

  The crates behind them (\<open>smoltcp\<close>, \<open>gotatun\<close>, \<open>tokio\<close>'s resolver and timer) are a
  parameter of every statement: the \<open>feed\<close> of the record \<open>outside\<close> is an arbitrary
  sequence of observations, and each interaction reads the next one. An observation says what
  every call answers at that moment and how long the moment takes, so time never runs backwards
  and a sleep lasts at least as long as asked; nothing else is assumed. What the program asks of
  these crates is written to a log.
\<close>

section \<open>The outside\<close>

datatype tcp_state =
  Closed | Listen | SynSent | SynReceived | Established | FinWait1 | FinWait2 | CloseWait
| Closing | LastAck | TimeWait

datatype icmp_message = Malformed | OtherMessage | EchoReply u16 u16

record observation =
  obs_delay :: duration
  obs_lookup :: "string + socket_addr list"
  obs_build :: "string + unit"
  obs_worker :: bool
  obs_connect :: "string + unit"
  obs_state :: tcp_state
  obs_may_send :: bool
  obs_send :: "string + nat"
  obs_recv :: "(string + string) list"
  obs_may_recv :: bool
  obs_bind :: "string + unit"
  obs_icmp_send :: "string + unit"
  obs_icmp :: "(string + (icmp_message \<times> ip_addr)) list"

record device_config =
  dev_endpoint :: socket_addr
  dev_udp :: waker_udp_factory
  dev_private_key :: "u8 list"
  dev_public_key :: "u8 list"
  dev_preshared_key :: "u8 list option"
  dev_allowed_ips :: "ip_network list"
  dev_keepalive :: "u16 option"

datatype net_event =
  DeviceBuilt device_config
| DeviceDropped
| IfaceUp "ipv4 \<times> u8" ipv4
| TcpOpen u16 socket_addr_v4
| TcpSent string
| TcpReceived string
| TcpAborted
| EchoSent ipv4 u16 u16 string

record outside =
  clock :: instant
  feed :: "nat \<Rightarrow> observation"
  cursor :: nat
  log :: "net_event list"

definition observe :: "outside \<Rightarrow> observation \<times> outside" where
  "observe w =
     (let ob = feed w (cursor w)
      in (ob, w\<lparr>cursor := cursor w + 1, clock := clock w + obs_delay ob\<rparr>))"

definition emit_all :: "net_event list \<Rightarrow> outside \<Rightarrow> outside" where
  "emit_all evs w = w\<lparr>log := log w @ evs\<rparr>"

definition emit :: "net_event \<Rightarrow> outside \<Rightarrow> outside" where
  "emit ev = emit_all [ev]"

definition sleep :: "duration \<Rightarrow> outside \<Rightarrow> outside" where
  "sleep d w = (let (ob, w) = observe w in w\<lparr>clock := clock w + d\<rparr>)"

section \<open>The engine\<close>

text \<open>The socket set is the list of its handles; handles are not reused in the model.\<close>

record smol_engine =
  eng_sockets :: "nat list"
  eng_next_handle :: nat
  eng_next_port :: u16

type_synonym engine_state = "smol_engine \<times> outside"

definition engine_new :: "ipv4 \<times> u8 \<Rightarrow> outside \<Rightarrow> engine_state" where
  "engine_new address w =
     (\<lparr>eng_sockets = [], eng_next_handle = 0, eng_next_port = 49152\<rparr>,
      emit (IfaceUp address (Ipv4 0 0 0 1)) w)"

definition add_socket :: "smol_engine \<Rightarrow> nat \<times> smol_engine" where
  "add_socket e =
     (eng_next_handle e,
      e\<lparr>eng_sockets := eng_sockets e @ [eng_next_handle e], eng_next_handle := eng_next_handle e + 1\<rparr>)"

definition remove_socket :: "nat \<Rightarrow> smol_engine \<Rightarrow> smol_engine" where
  "remove_socket h e = e\<lparr>eng_sockets := removeAll h (eng_sockets e)\<rparr>"

definition next_local_port :: "u16 \<Rightarrow> u16" where
  "next_local_port p = (if p = 65535 then 49152 else p + 1)"

definition open_socket :: "socket_addr_v4 \<Rightarrow> engine_state \<Rightarrow> (net_error + nat) \<times> engine_state" where
  "open_socket target s =
     (let (e, w) = s;
          (h, e) = add_socket e;
          local_port = eng_next_port e;
          e = e\<lparr>eng_next_port := next_local_port local_port\<rparr>;
          (ob, w) = observe (emit (TcpOpen local_port target) w)
      in case obs_connect ob of
           Err err \<Rightarrow> (Err (Network (''TCP connect setup failed: '' @ err)), (remove_socket h e, w))
         | Ok _ \<Rightarrow> (Ok h, (e, w)))"

text \<open>
  The shape all three operations have: poll the interface, look at the socket, leave the loop with
  an exit or go on with new local variables; then give up at the deadline or sleep for five
  milliseconds. \<open>None\<close> is the deadline. A look also yields what it asked of the socket.
\<close>

datatype ('r, 'a) turn = Leave 'r | Stay 'a

type_synonym ('r, 'a) look = "'a \<Rightarrow> observation \<Rightarrow> ('r, 'a) turn \<times> net_event list"

definition poll_turn :: "('r, 'a) look \<Rightarrow> 'a \<Rightarrow> outside \<Rightarrow> ('r, 'a) turn \<times> outside" where
  "poll_turn look a w =
     (let (ob, w) = observe w; (t, evs) = look a ob in (t, emit_all evs w))"

lemma clock_simps [simp]:
  "clock (emit_all evs w) = clock w" "clock (emit ev w) = clock w"
  "clock (snd (observe w)) = clock w + obs_delay (fst (observe w))"
  "clock (sleep d w) = clock w + d + obs_delay (fst (observe w))"
  by (simp_all add: emit_all_def emit_def observe_def sleep_def Let_def)

lemma clock_poll_turn: "poll_turn look a w = (t, w') \<Longrightarrow> clock w \<le> clock w'"
  by (auto simp: poll_turn_def observe_def Let_def split: prod.splits)

function engine_loop ::
  "instant \<Rightarrow> ('r, 'a) look \<Rightarrow> 'a \<Rightarrow> outside \<Rightarrow> 'r option \<times> outside"
where
  "engine_loop deadline look a w =
     (case poll_turn look a w of
        (Leave r, w) \<Rightarrow> (Some r, w)
      | (Stay a, w) \<Rightarrow>
          if clock w \<ge> deadline then (None, w)
          else engine_loop deadline look a (sleep (from_millis 5) w))"
  by pat_completeness auto

termination
proof (relation "measure (\<lambda>(deadline, look, a, w). deadline - clock w)")
  fix deadline and look :: "('r, 'a) look" and a w t w' a'
  assume "(t, w') = poll_turn look a w" "t = Stay a'" "\<not> deadline \<le> clock w'"
  then have "clock w \<le> clock w'" "clock w' < deadline" using clock_poll_turn [of look a w t w'] by auto
  then show "((deadline, look, a', sleep (from_millis 5) w'), deadline, look, a, w)
      \<in> measure (\<lambda>(deadline, look, a, w). deadline - clock w)"
    by (simp add: from_millis_def)
qed simp

declare engine_loop.simps [simp del]

section \<open>HTTP\<close>

text \<open>\<open>Abandoned\<close> is an error returned from inside the loop, past the removal of the socket.\<close>

datatype http_exit = Complete string | Failed | Abandoned net_error

text \<open>The loop over \<open>can_recv\<close>.\<close>

fun drain :: "(string + string) list \<Rightarrow> string \<Rightarrow> net_event list \<Rightarrow> (net_error + string) \<times> net_event list" where
  "drain [] response evs = (Ok response, evs)"
| "drain (Err e # rs) response evs = (Err (Network (''TCP receive failed: '' @ e)), evs)"
| "drain (Ok bytes # rs) response evs = drain rs (response @ bytes) (evs @ [TcpReceived bytes])"

definition http_send :: "string \<Rightarrow> bool \<Rightarrow> observation \<Rightarrow> (net_error + bool) \<times> net_event list" where
  "http_send request sent ob =
     (if \<not> sent \<and> obs_may_send ob then
        (case obs_send ob of
           Err e \<Rightarrow> (Err (Network (''TCP send failed: '' @ e)), [])
         | Ok count \<Rightarrow>
             if count \<noteq> length request
             then (Err (Network ''HTTP request did not fit in the smoltcp transmit buffer''),
                   [TcpSent (take count request)])
             else (Ok True, [TcpSent request]))
      else (Ok sent, []))"

definition http_look :: "string \<Rightarrow> (http_exit, bool \<times> string) look" where
  "http_look request a ob =
     (let (sent, response) = a;
          failed = (obs_state ob = Closed \<and> \<not> sent)
      in case http_send request sent ob of
           (Err e, evs) \<Rightarrow> (Leave (Abandoned e), evs)
         | (Ok sent, evs) \<Rightarrow>
             (case drain (obs_recv ob) response evs of
                (Err e, evs) \<Rightarrow> (Leave (Abandoned e), evs)
              | (Ok response, evs) \<Rightarrow>
                  (if failed then Leave Failed
                   else if sent \<and> \<not> obs_may_recv ob then Leave (Complete response)
                   else Stay (sent, response), evs)))"

definition http ::
  "socket_addr_v4 \<Rightarrow> string \<Rightarrow> duration \<Rightarrow> engine_state \<Rightarrow> (net_error + string) \<times> engine_state" where
  "http target request timeout s =
     (case open_socket target s of
        (Err e, s) \<Rightarrow> (Err e, s)
      | (Ok h, e, w) \<Rightarrow>
          (case engine_loop (clock w + timeout) (http_look request) (False, []) w of
             (Some (Abandoned err), w) \<Rightarrow> (Err err, e, w)
           | (Some Failed, w) \<Rightarrow>
               (Err (Network (''TCP connection to '' @ show_socket_v4 target @ '' failed'')), remove_socket h e, w)
           | (Some (Complete response), w) \<Rightarrow> (Ok response, remove_socket h e, w)
           | (None, w) \<Rightarrow> (Err NetTimeout, remove_socket h e, w)))"

section \<open>TCP probe and ping\<close>

definition probe_look :: "(bool, unit) look" where
  "probe_look a ob =
     (if obs_state ob = Established then (Leave True, [TcpAborted])
      else if obs_state ob = Closed then (Leave False, [])
      else (Stay (), []))"

definition probe :: "socket_addr_v4 \<Rightarrow> duration \<Rightarrow> engine_state \<Rightarrow> (net_error + bool) \<times> engine_state" where
  "probe target timeout s =
     (case open_socket target s of
        (Err e, s) \<Rightarrow> (Err e, s)
      | (Ok h, e, w) \<Rightarrow>
          (case engine_loop (clock w + timeout) probe_look () w of
             (Some True, w) \<Rightarrow> (Ok True, remove_socket h e, snd (observe w))
           | (Some False, w) \<Rightarrow> (Ok False, remove_socket h e, w)
           | (None, w) \<Rightarrow> (Ok False, remove_socket h e, w)))"

definition icmp_ident :: u16 where "icmp_ident = 0x574B"
definition icmp_sequence :: u16 where "icmp_sequence = 1"
definition icmp_payload :: string where "icmp_payload = ''waker''"

text \<open>The loop over the packets an ICMP socket has received.\<close>

fun find_reply :: "ipv4 \<Rightarrow> (string + (icmp_message \<times> ip_addr)) list \<Rightarrow> net_error + bool" where
  "find_reply target [] = Ok False"
| "find_reply target (Err e # rs) = Err (Network (''ICMP receive failed: '' @ e))"
| "find_reply target (Ok (packet, source) # rs) =
     (case packet of
        EchoReply ident seq_no \<Rightarrow>
          if source = V4 target \<and> ident = icmp_ident \<and> seq_no = icmp_sequence then Ok True
          else find_reply target rs
      | _ \<Rightarrow> find_reply target rs)"

definition ping_look :: "ipv4 \<Rightarrow> (net_error + bool, unit) look" where
  "ping_look target a ob =
     (case find_reply target (obs_icmp ob) of
        Err e \<Rightarrow> (Leave (Err e), [])
      | Ok True \<Rightarrow> (Leave (Ok True), [])
      | Ok False \<Rightarrow> (Stay (), []))"

definition ping :: "ipv4 \<Rightarrow> duration \<Rightarrow> engine_state \<Rightarrow> (net_error + bool) \<times> engine_state" where
  "ping target timeout s =
     (let (e, w) = s; (ob, w) = observe w
      in case obs_bind ob of
           Err err \<Rightarrow> (Err (Network (''ICMP bind failed: '' @ err)), (e, w))
         | Ok _ \<Rightarrow>
             (case obs_icmp_send ob of
                Err err \<Rightarrow> (Err (Network (''ICMP send failed: '' @ err)), (e, w))
              | Ok _ \<Rightarrow>
                  (let w = emit (EchoSent target icmp_ident icmp_sequence icmp_payload) w;
                       (h, e) = add_socket e
                   in case engine_loop (clock w + timeout) (ping_look target) () w of
                        (Some (Ok True), w) \<Rightarrow> (Ok True, (remove_socket h e, w))
                      | (Some r, w) \<Rightarrow> (r, (e, w))
                      | (None, w) \<Rightarrow> (Ok False, (remove_socket h e, w)))))"

section \<open>Commands\<close>

datatype net_command =
  HttpCmd socket_addr_v4 string duration
| ProbeCmd socket_addr_v4 duration
| PingCmd ipv4 duration

datatype net_reply = HttpReply "net_error + string" | BoolReply "net_error + bool"

fun engine_command :: "net_command \<Rightarrow> engine_state \<Rightarrow> net_reply \<times> engine_state" where
  "engine_command (HttpCmd target request timeout) s = (let (r, s) = http target request timeout s in (HttpReply r, s))"
| "engine_command (ProbeCmd target timeout) s = (let (r, s) = probe target timeout s in (BoolReply r, s))"
| "engine_command (PingCmd target timeout) s = (let (r, s) = ping target timeout s in (BoolReply r, s))"

text \<open>\<open>SmolEngine::run\<close> on the commands received until the channel closes.\<close>

fun engine_run :: "net_command list \<Rightarrow> engine_state \<Rightarrow> net_reply list \<times> engine_state" where
  "engine_run [] s = ([], s)"
| "engine_run (c # cs) s =
     (let (r, s) = engine_command c s; (rs, s) = engine_run cs s in (r # rs, s))"

section \<open>The client\<close>

record tunnel_client =
  tc_engine :: smol_engine

text \<open>
  A call sends its command and waits for the reply; when the worker is gone, either step fails
  with \<open>WorkerStopped\<close>.
\<close>

definition tunnel_call ::
  "net_command \<Rightarrow> tunnel_client \<times> outside \<Rightarrow> (net_error + net_reply) \<times> tunnel_client \<times> outside" where
  "tunnel_call cmd s =
     (let (t, w) = s; (ob, w) = observe w
      in if \<not> obs_worker ob then (Err WorkerStopped, t, w)
         else (let (r, e, w) = engine_command cmd (tc_engine t, w)
               in (Ok r, t\<lparr>tc_engine := e\<rparr>, w)))"

fun http_reply :: "net_reply \<Rightarrow> net_error + string" where
  "http_reply (HttpReply r) = r"
| "http_reply (BoolReply _) = Err WorkerStopped"

fun bool_reply :: "net_reply \<Rightarrow> net_error + bool" where
  "bool_reply (BoolReply r) = r"
| "bool_reply (HttpReply _) = Err WorkerStopped"

definition tunnel_http ::
  "socket_addr_v4 \<Rightarrow> string \<Rightarrow> duration \<Rightarrow> tunnel_client \<times> outside \<Rightarrow> (net_error + string) \<times> tunnel_client \<times> outside" where
  "tunnel_http target request timeout s =
     (let (r, s) = tunnel_call (HttpCmd target request timeout) s in (and_then r http_reply, s))"

definition tunnel_probe ::
  "socket_addr_v4 \<Rightarrow> duration \<Rightarrow> tunnel_client \<times> outside \<Rightarrow> (net_error + bool) \<times> tunnel_client \<times> outside" where
  "tunnel_probe target timeout s =
     (let (r, s) = tunnel_call (ProbeCmd target timeout) s in (and_then r bool_reply, s))"

definition tunnel_ping ::
  "ipv4 \<Rightarrow> duration \<Rightarrow> tunnel_client \<times> outside \<Rightarrow> (net_error + bool) \<times> tunnel_client \<times> outside" where
  "tunnel_ping target timeout s =
     (let (r, s) = tunnel_call (PingCmd target timeout) s in (and_then r bool_reply, s))"

definition device_of :: "wireguard_profile \<Rightarrow> socket_addr \<Rightarrow> device_config" where
  "device_of p endpoint = \<lparr>
     dev_endpoint = endpoint, dev_udp = udp_factory_new endpoint,
     dev_private_key = wg_private_key p, dev_public_key = wg_peer_public_key p,
     dev_preshared_key = wg_preshared_key p, dev_allowed_ips = wg_allowed_ips p,
     dev_keepalive = wg_persistent_keepalive p\<rparr>"

definition tunnel_connect :: "wireguard_profile \<Rightarrow> outside \<Rightarrow> (net_error + tunnel_client) \<times> outside" where
  "tunnel_connect p w =
     (let (ob, w) = observe w
      in case resolve_endpoint (\<lambda>_. obs_lookup ob) (wg_endpoint p) of
           Err e \<Rightarrow> (Err e, w)
         | Ok endpoint \<Rightarrow>
             (let (ob, w) = observe w
              in case obs_build ob of
                   Err e \<Rightarrow> (Err (WireGuard e), w)
                 | Ok _ \<Rightarrow>
                     (let (e, w) = engine_new (wg_address p) (emit (DeviceBuilt (device_of p endpoint)) w)
                      in (Ok \<lparr>tc_engine = e\<rparr>, w))))"

text \<open>
  The end of a client: \<open>shutdown\<close>, or going out of scope, which closes the two channels its tasks
  wait on. Either way the device is dropped.
\<close>

definition tunnel_shutdown :: "outside \<Rightarrow> outside" where
  "tunnel_shutdown w = emit DeviceDropped w"

section \<open>Facts about the loop\<close>

lemma observe_simps [simp]:
  "cursor (snd (observe w)) = cursor w + 1" "log (snd (observe w)) = log w"
  "feed (snd (observe w)) = feed w" "fst (observe w) = feed w (cursor w)"
  by (simp_all add: observe_def Let_def)

lemma emit_simps [simp]:
  "cursor (emit_all evs w) = cursor w" "log (emit_all evs w) = log w @ evs" "feed (emit_all evs w) = feed w"
  "cursor (emit ev w) = cursor w" "log (emit ev w) = log w @ [ev]" "feed (emit ev w) = feed w"
  by (simp_all add: emit_all_def emit_def)

lemma sleep_simps [simp]:
  "cursor (sleep d w) = cursor w + 1" "log (sleep d w) = log w" "feed (sleep d w) = feed w"
  by (simp_all add: sleep_def observe_def Let_def)

lemma poll_turn_simps:
  assumes "poll_turn look a w = (t, w')"
  shows "cursor w' = cursor w + 1" "feed w' = feed w" "clock w \<le> clock w'"
    "t = fst (look a (feed w (cursor w)))" "log w' = log w @ snd (look a (feed w (cursor w)))"
  using assms by (auto simp: poll_turn_def observe_def Let_def split: prod.splits)

text \<open>
  The loop as a rule: what holds when it starts, is kept by a turn that stays together with its
  sleep, and is turned by a last turn into the conclusion.
\<close>

lemma engine_loop_rule:
  assumes "I a w"
    and step: "\<And>a w a' w'. I a w \<Longrightarrow> poll_turn look a w = (Stay a', w') \<Longrightarrow> clock w' < deadline \<Longrightarrow>
      I a' (sleep (from_millis 5) w')"
    and leave: "\<And>a w r w'. I a w \<Longrightarrow> poll_turn look a w = (Leave r, w') \<Longrightarrow> P (Some r) w'"
    and expire: "\<And>a w a' w'. I a w \<Longrightarrow> poll_turn look a w = (Stay a', w') \<Longrightarrow> deadline \<le> clock w' \<Longrightarrow> P None w'"
  shows "P (fst (engine_loop deadline look a w)) (snd (engine_loop deadline look a w))"
proof -
  have "d = deadline \<Longrightarrow> l = look \<Longrightarrow> I a w \<Longrightarrow> P (fst (engine_loop d l a w)) (snd (engine_loop d l a w))" for d l
  proof (induction d l a w rule: engine_loop.induct)
    case (1 d l a w)
    note dl = "1.prems"(1,2) and I = "1.prems"(3)
    obtain t w' where t: "poll_turn look a w = (t, w')" by (cases "poll_turn look a w")
    note unfold = engine_loop.simps [of deadline look a w]
    show ?case
    proof (cases t)
      case (Leave r)
      then show ?thesis using t dl leave [OF I] by (simp add: unfold)
    next
      case (Stay a')
      show ?thesis
      proof (cases "deadline \<le> clock w'")
        case True
        then show ?thesis using t dl Stay expire [OF I] by (simp add: unfold)
      next
        case False
        then have "I a' (sleep (from_millis 5) w')" using step [OF I] t Stay by simp
        with "1.IH" [of t w'] False t Stay dl show ?thesis by (simp add: unfold)
      qed
    qed
  qed
  with assms(1) show ?thesis by blast
qed

section \<open>Every operation ends by its deadline\<close>

lemma engine_loop_bound:
  "\<exists>n. cursor (snd (engine_loop deadline look a w)) = cursor w + 2 * n + 1 \<and>
     (n = 0 \<or> clock w + (n - 1) * from_millis 5 < deadline)"
proof (rule engine_loop_rule [where I = "\<lambda>a v. \<exists>n. cursor v = cursor w + 2 * n \<and>
      clock w + n * from_millis 5 \<le> clock v \<and> (n = 0 \<or> clock w + (n - 1) * from_millis 5 < deadline)"
      and P = "\<lambda>r v. \<exists>n. cursor v = cursor w + 2 * n + 1 \<and> (n = 0 \<or> clock w + (n - 1) * from_millis 5 < deadline)"])
  show "\<exists>n. cursor w = cursor w + 2 * n \<and> clock w + n * from_millis 5 \<le> clock w \<and>
      (n = 0 \<or> clock w + (n - 1) * from_millis 5 < deadline)"
    by (rule exI [of _ 0]) simp
next
  fix a v a' v'
  assume "\<exists>n. cursor v = cursor w + 2 * n \<and> clock w + n * from_millis 5 \<le> clock v \<and>
      (n = 0 \<or> clock w + (n - 1) * from_millis 5 < deadline)"
    and t: "poll_turn look a v = (Stay a', v')" "clock v' < deadline"
  then obtain n where n: "cursor v = cursor w + 2 * n" "clock w + n * from_millis 5 \<le> clock v" by blast
  note p = poll_turn_simps [OF t(1)]
  show "\<exists>n. cursor (sleep (from_millis 5) v') = cursor w + 2 * n \<and>
      clock w + n * from_millis 5 \<le> clock (sleep (from_millis 5) v') \<and>
      (n = 0 \<or> clock w + (n - 1) * from_millis 5 < deadline)"
    using n p t(2) by (intro exI [of _ "n + 1"]) simp
next
  fix a v r v'
  assume "\<exists>n. cursor v = cursor w + 2 * n \<and> clock w + n * from_millis 5 \<le> clock v \<and>
      (n = 0 \<or> clock w + (n - 1) * from_millis 5 < deadline)"
    and "poll_turn look a v = (Leave r, v')"
  then show "\<exists>n. cursor v' = cursor w + 2 * n + 1 \<and> (n = 0 \<or> clock w + (n - 1) * from_millis 5 < deadline)"
    using poll_turn_simps(1) by fastforce
next
  fix a v a' v'
  assume "\<exists>n. cursor v = cursor w + 2 * n \<and> clock w + n * from_millis 5 \<le> clock v \<and>
      (n = 0 \<or> clock w + (n - 1) * from_millis 5 < deadline)"
    and "poll_turn look a v = (Stay a', v')"
  then show "\<exists>n. cursor v' = cursor w + 2 * n + 1 \<and> (n = 0 \<or> clock w + (n - 1) * from_millis 5 < deadline)"
    using poll_turn_simps(1) by fastforce
qed

text \<open>\<open>later k w w'\<close>: the outside has gone from \<open>w\<close> to \<open>w'\<close> in at most \<open>k\<close> observations.\<close>

definition later :: "nat \<Rightarrow> outside \<Rightarrow> outside \<Rightarrow> bool" where
  "later k w w' \<longleftrightarrow> cursor w \<le> cursor w' \<and> cursor w' \<le> cursor w + k \<and> clock w \<le> clock w' \<and> feed w' = feed w"

lemma later_refl [simp]: "later k w w"
  by (simp add: later_def)

lemma later_mono: "later k w w' \<Longrightarrow> k \<le> l \<Longrightarrow> later l w w'"
  by (simp add: later_def)

lemma later_trans [trans]: "later k u v \<Longrightarrow> later l v w \<Longrightarrow> later (k + l) u w"
  by (auto simp: later_def)

lemma later_observe [simp]: "later (Suc k) w (snd (observe w))"
  by (simp add: later_def)

lemma later_emit [simp]: "later k w (emit ev v) \<longleftrightarrow> later k w v" "later k w (emit_all evs v) \<longleftrightarrow> later k w v"
    "later k (emit ev w) v \<longleftrightarrow> later k w v"
  by (simp_all add: later_def)

lemma later_emit_observe [simp]: "later (Suc k) w (snd (observe (emit ev w)))"
  by (simp add: later_def)

lemma loop_later:
  assumes "engine_loop (clock w + timeout) look a w = (r, w')"
  shows "later (2 * (timeout div from_millis 5) + 3) w w'"
proof -
  obtain n where n: "cursor w' = cursor w + 2 * n + 1" "n = 0 \<or> (n - 1) * from_millis 5 < timeout"
    using engine_loop_bound [of "clock w + timeout" look a w] assms by auto
  have "n \<le> timeout div from_millis 5 + 1"
  proof (cases "n = 0")
    case False
    then have "(n - 1) * from_millis 5 \<le> timeout" using n(2) by simp
    moreover have "from_millis 5 > 0" by (simp add: from_millis_def)
    ultimately have "n - 1 \<le> timeout div from_millis 5" by (simp add: less_eq_div_iff_mult_less_eq)
    then show ?thesis by linarith
  qed simp
  moreover have "clock w \<le> clock (snd (engine_loop (clock w + timeout) look a w))"
    by (rule engine_loop_rule [where I = "\<lambda>a v. clock w \<le> clock v" and P = "\<lambda>r v. clock w \<le> clock v"])
      (auto dest!: poll_turn_simps(3))
  moreover have "feed (snd (engine_loop (clock w + timeout) look a w)) = feed w"
    by (rule engine_loop_rule [where I = "\<lambda>a v. feed v = feed w" and P = "\<lambda>r v. feed v = feed w"])
      (auto dest!: poll_turn_simps(2))
  ultimately show ?thesis using n(1) assms by (simp add: later_def)
qed

text \<open>One case rule per operation, shared by what follows.\<close>

definition opened :: "smol_engine \<Rightarrow> smol_engine" where
  "opened e = (snd (add_socket e))\<lparr>eng_next_port := next_local_port (eng_next_port e)\<rparr>"

lemma open_socket_cases:
  assumes "open_socket target (e, w) = (r, e', w')"
  obtains (refused) err where "r = Err (Network (''TCP connect setup failed: '' @ err))"
      "e' = remove_socket (eng_next_handle e) (opened e)"
      "w' = snd (observe (emit (TcpOpen (eng_next_port e) target) w))"
    | (connecting) "r = Ok (eng_next_handle e)" "e' = opened e"
      "w' = snd (observe (emit (TcpOpen (eng_next_port e) target) w))"
proof -
  have "w' = snd (observe (emit (TcpOpen (eng_next_port e) target) w)) \<and>
     ((\<exists>err. r = Err (Network (''TCP connect setup failed: '' @ err)) \<and> e' = remove_socket (eng_next_handle e) (opened e)) \<or>
      r = Ok (eng_next_handle e) \<and> e' = opened e)"
    using assms
    by (auto simp: open_socket_def add_socket_def opened_def observe_def Let_def split: sum.splits)
  then show ?thesis using that by blast
qed

definition http_exit_of ::
  "socket_addr_v4 \<Rightarrow> smol_engine \<Rightarrow> http_exit option \<Rightarrow> (net_error + string) \<times> smol_engine" where
  "http_exit_of target e x =
     (case x of
        Some (Abandoned err) \<Rightarrow> (Err err, opened e)
      | Some Failed \<Rightarrow> (Err (Network (''TCP connection to '' @ show_socket_v4 target @ '' failed'')),
           remove_socket (eng_next_handle e) (opened e))
      | Some (Complete response) \<Rightarrow> (Ok response, remove_socket (eng_next_handle e) (opened e))
      | None \<Rightarrow> (Err NetTimeout, remove_socket (eng_next_handle e) (opened e)))"

lemma http_cases:
  assumes "http target request timeout (e, w) = (r, e', w')"
  obtains (refused) err where "r = Err (Network (''TCP connect setup failed: '' @ err))"
      "e' = remove_socket (eng_next_handle e) (opened e)"
      "w' = snd (observe (emit (TcpOpen (eng_next_port e) target) w))"
    | (looped) x v where "v = snd (observe (emit (TcpOpen (eng_next_port e) target) w))"
      "engine_loop (clock v + timeout) (http_look request) (False, []) v = (x, w')"
      "(r, e') = http_exit_of target e x"
proof -
  obtain o_r o_e v where o: "open_socket target (e, w) = (o_r, o_e, v)" by (cases "open_socket target (e, w)")
  from o show ?thesis
  proof (cases rule: open_socket_cases)
    case (refused err)
    with o assms have "r = Err (Network (''TCP connect setup failed: '' @ err))"
        "e' = remove_socket (eng_next_handle e) (opened e)"
        "w' = snd (observe (emit (TcpOpen (eng_next_port e) target) w))"
      by (simp_all add: http_def)
    then show ?thesis using that(1) by blast
  next
    case connecting
    obtain x u where l: "engine_loop (clock v + timeout) (http_look request) (False, []) v = (x, u)"
      by (cases "engine_loop (clock v + timeout) (http_look request) (False, []) v")
    have "u = w' \<and> (r, e') = http_exit_of target e x"
      using assms o connecting l
      by (auto simp: http_def http_exit_of_def split: option.splits http_exit.splits)
    with l that(2) connecting show ?thesis by blast
  qed
qed

lemma probe_cases:
  assumes "probe target timeout (e, w) = (r, e', w')"
  obtains (refused) err where "r = Err (Network (''TCP connect setup failed: '' @ err))"
      "w' = snd (observe (emit (TcpOpen (eng_next_port e) target) w))" "e' = remove_socket (eng_next_handle e) (opened e)"
    | (looped) x v u where "v = snd (observe (emit (TcpOpen (eng_next_port e) target) w))"
      "engine_loop (clock v + timeout) probe_look () v = (x, u)"
      "r = Ok (x = Some True)" "w' = (if x = Some True then snd (observe u) else u)"
      "e' = remove_socket (eng_next_handle e) (opened e)"
proof -
  obtain o_r o_e v where o: "open_socket target (e, w) = (o_r, o_e, v)" by (cases "open_socket target (e, w)")
  from o show ?thesis
  proof (cases rule: open_socket_cases)
    case (refused err)
    with o assms have "r = Err (Network (''TCP connect setup failed: '' @ err))"
        "e' = remove_socket (eng_next_handle e) (opened e)"
        "w' = snd (observe (emit (TcpOpen (eng_next_port e) target) w))"
      by (simp_all add: probe_def)
    then show ?thesis using that(1) by blast
  next
    case connecting
    obtain x u where l: "engine_loop (clock v + timeout) probe_look () v = (x, u)"
      by (cases "engine_loop (clock v + timeout) probe_look () v")
    have "r = Ok (x = Some True) \<and> w' = (if x = Some True then snd (observe u) else u) \<and>
        e' = remove_socket (eng_next_handle e) (opened e)"
      using assms o connecting l by (auto simp: probe_def split: option.splits bool.splits)
    with l that(2) connecting show ?thesis by blast
  qed
qed

lemma ping_cases:
  assumes "ping target timeout (e, w) = (r, e', w')"
  obtains (refused) err where "r = Err (Network err)" "e' = e" "w' = snd (observe w)"
    | (looped) x v where "v = emit (EchoSent target icmp_ident icmp_sequence icmp_payload) (snd (observe w))"
      "engine_loop (clock v + timeout) (ping_look target) () v = (x, w')"
      "r = (case x of None \<Rightarrow> Ok False | Some y \<Rightarrow> y)"
      "e' = (if x = None \<or> x = Some (Ok True) then remove_socket (eng_next_handle e) (snd (add_socket e)) else snd (add_socket e))"
proof (cases "is_ok (obs_bind (fst (observe w))) \<and> is_ok (obs_icmp_send (fst (observe w)))")
  case False
  then show ?thesis
    using assms that(1) by (auto simp: ping_def observe_def Let_def split: sum.splits)
next
  case True
  obtain ob w1 where ob: "observe w = (ob, w1)" by (cases "observe w")
  let ?v = "emit (EchoSent target icmp_ident icmp_sequence icmp_payload) w1"
  obtain x u where l: "engine_loop (clock w1 + timeout) (ping_look target) () ?v = (x, u)"
    by (cases "engine_loop (clock w1 + timeout) (ping_look target) () ?v")
  have ok: "obs_bind ob = Ok ()" "obs_icmp_send ob = Ok ()"
    using True ob by (auto simp: result_simps simp del: observe_simps)
  have "u = w' \<and> r = (case x of None \<Rightarrow> Ok False | Some y \<Rightarrow> y) \<and>
     e' = (if x = None \<or> x = Some (Ok True) then remove_socket (eng_next_handle e) (snd (add_socket e)) else snd (add_socket e))"
    using assms by (auto simp: ping_def ob ok l Let_def add_socket_def split: option.splits sum.splits bool.splits)
  with l ob that(2) show ?thesis by auto
qed

lemma http_later:
  assumes "http target request timeout (e, w) = (r, e', w')"
  shows "later (2 * (timeout div from_millis 5) + 4) w w'"
  using assms
proof (cases rule: http_cases)
  case (refused err)
  show ?thesis unfolding refused by (rule later_mono [of 1]) simp_all
next
  case (looped x v)
  have "later 1 w v" using looped(1) by simp
  also note loop_later [OF looped(2)]
  finally show ?thesis by (rule later_mono) simp
qed

lemma probe_later:
  assumes "probe target timeout (e, w) = (r, e', w')"
  shows "later (2 * (timeout div from_millis 5) + 5) w w'"
  using assms
proof (cases rule: probe_cases)
  case (refused err)
  show ?thesis unfolding refused by (rule later_mono [of 1]) simp_all
next
  case (looped x v u)
  have "later 1 w v" using looped(1) by simp
  also note loop_later [OF looped(2)]
  also have "later 1 u w'" using looped(4) by simp
  finally show ?thesis by (rule later_mono) simp
qed

lemma ping_later:
  assumes "ping target timeout (e, w) = (r, e', w')"
  shows "later (2 * (timeout div from_millis 5) + 4) w w'"
  using assms
proof (cases rule: ping_cases)
  case (refused err)
  show ?thesis unfolding refused by (rule later_mono [of 1]) simp_all
next
  case (looped x v)
  have "later 1 w v" using looped(1) by simp
  also note loop_later [OF looped(2)]
  finally show ?thesis by (rule later_mono) simp
qed

fun timeout_of :: "net_command \<Rightarrow> duration" where
  "timeout_of (HttpCmd _ _ t) = t"
| "timeout_of (ProbeCmd _ t) = t"
| "timeout_of (PingCmd _ t) = t"

lemma engine_command_later:
  "engine_command c s = (r, s') \<Longrightarrow> later (2 * (timeout_of c div from_millis 5) + 5) (snd s) (snd s')"
  by (cases c; cases s; cases s')
    (auto split: prod.splits dest!: http_later probe_later ping_later elim: later_mono)

text \<open>C18: \<^bold>\<open>no operation outlives its timeout\<close>. Whatever the network does, a command of the engine
  ends after a number of observations bounded by its timeout in steps of five milliseconds, and
  the clock has not gone back.\<close>

theorem engine_command_bounded:
  assumes "engine_command c s = (r, s')"
  shows "clock (snd s) \<le> clock (snd s') \<and>
    cursor (snd s') \<le> cursor (snd s) + 2 * (timeout_of c div from_millis 5) + 5"
  using engine_command_later [OF assms] by (simp add: later_def)

text \<open>A network that never answers, for the witnesses.\<close>

definition silent :: observation where
  "silent = \<lparr>obs_delay = 0, obs_lookup = Ok [], obs_build = Ok (), obs_worker = True, obs_connect = Ok (),
     obs_state = SynSent, obs_may_send = False, obs_send = Ok 0, obs_recv = [], obs_may_recv = False,
     obs_bind = Ok (), obs_icmp_send = Ok (), obs_icmp = []\<rparr>"

definition playing :: "observation list \<Rightarrow> outside" where
  "playing obs = \<lparr>clock = 0, feed = (\<lambda>i. if i < length obs then obs ! i else silent), cursor = 0, log = []\<rparr>"

definition test_engine :: smol_engine where
  "test_engine = \<lparr>eng_sockets = [], eng_next_handle = 0, eng_next_port = 49152\<rparr>"

definition test_fritz :: socket_addr_v4 where "test_fritz = (Ipv4 192 168 178 1, 49000)"

lemmas play_simps = silent_def playing_def test_engine_def test_fritz_def from_secs_def from_millis_def
  engine_loop.simps poll_turn_def observe_def emit_def emit_all_def sleep_def Let_def add_socket_def

theorem engine_command_bounded_witness:
  "let s' = snd (engine_command (ProbeCmd test_fritz (from_secs 8)) (test_engine, playing []))
   in cursor (snd s') \<le> 3205"
proof -
  obtain r s' where e: "engine_command (ProbeCmd test_fritz (from_secs 8)) (test_engine, playing []) = (r, s')"
    by (cases "engine_command (ProbeCmd test_fritz (from_secs 8)) (test_engine, playing [])")
  from engine_command_bounded [OF e] show ?thesis
    unfolding e by (simp add: playing_def from_secs_def from_millis_def)
qed

section \<open>Answers are founded\<close>

lemma loop_saw:
  assumes "engine_loop d look a w = (Some r, w')"
  shows "\<exists>i a'. cursor w \<le> i \<and> i < cursor w' \<and> fst (look a' (feed w i)) = Leave r"
proof -
  let ?P = "\<lambda>x v. \<forall>r. x = Some r \<longrightarrow> (\<exists>i a'. cursor w \<le> i \<and> i < cursor v \<and> fst (look a' (feed w i)) = Leave r)"
  have "?P (fst (engine_loop d look a w)) (snd (engine_loop d look a w))"
  proof (rule engine_loop_rule [where I = "\<lambda>a v. feed v = feed w \<and> cursor w \<le> cursor v" and P = ?P])
    fix a v a' v'
    assume "feed v = feed w \<and> cursor w \<le> cursor v" and "poll_turn look a v = (Stay a', v')"
    then show "feed (sleep (from_millis 5) v') = feed w \<and> cursor w \<le> cursor (sleep (from_millis 5) v')"
      using poll_turn_simps [of look a v] by fastforce
  next
    fix a v r v'
    assume i: "feed v = feed w \<and> cursor w \<le> cursor v" and t: "poll_turn look a v = (Leave r, v')"
    from poll_turn_simps [OF t] i
    have "cursor w \<le> cursor v" "cursor v < cursor v'" "fst (look a (feed w (cursor v))) = Leave r" by simp_all
    then show "?P (Some r) v'" by blast
  qed simp_all
  with assms show ?thesis by simp
qed

lemma find_reply_True:
  "find_reply target rs = Ok True \<Longrightarrow> Ok (EchoReply icmp_ident icmp_sequence, V4 target) \<in> set rs"
  by (induction target rs rule: find_reply.induct) (auto split: icmp_message.splits if_splits)

lemma loop_log:
  assumes "engine_loop d look a w = (x, w')" and "\<And>a ob. set (snd (look a ob)) \<subseteq> S"
  shows "\<exists>evs. log w' = log w @ evs \<and> set evs \<subseteq> S"
proof -
  let ?I = "\<lambda>v. \<exists>evs. log v = log w @ evs \<and> set evs \<subseteq> S"
  have more: "?I v'" if i: "?I v" and t: "poll_turn look a v = (t, v')" for a v t v'
  proof -
    obtain evs where e: "log v = log w @ evs" "set evs \<subseteq> S" using i by blast
    have "log v' = log w @ (evs @ snd (look a (feed v (cursor v))))"
      using e poll_turn_simps(5) [OF t] by simp
    then show ?thesis using e(2) assms(2) by (metis set_append Un_subset_iff)
  qed
  have "?I (snd (engine_loop d look a w))"
  proof (rule engine_loop_rule [where I = "\<lambda>a v. ?I v" and P = "\<lambda>x v. ?I v"])
    show "?I w" by (rule exI [of _ "[]"]) simp
  next
    fix a v a' v'
    assume "?I v" "poll_turn look a v = (Stay a', v')"
    from more [OF this] show "?I (sleep (from_millis 5) v')" by (simp only: sleep_simps)
  qed (blast intro: more)+
  with assms(1) show ?thesis by simp
qed

lemma ping_saw_reply:
  assumes "ping target timeout (e, w) = (Ok True, e', w')"
  shows "\<exists>i. cursor w \<le> i \<and> i < cursor w' \<and>
    Ok (EchoReply icmp_ident icmp_sequence, V4 target) \<in> set (obs_icmp (feed w i)) \<and>
    EchoSent target icmp_ident icmp_sequence icmp_payload \<in> set (log w')"
  using assms
proof (cases rule: ping_cases)
  case (looped x v)
  then have x: "x = Some (Ok True)" by (auto split: option.splits)
  from loop_saw [OF looped(2) [unfolded x]] obtain i a where
    i: "cursor v \<le> i" "i < cursor w'" "fst (ping_look target a (feed v i)) = Leave (Ok True)" by blast
  have "cursor w \<le> i" "feed v = feed w" using i(1) looped(1) by simp_all
  moreover have "find_reply target (obs_icmp (feed v i)) = Ok True"
    using i(3) by (auto simp: ping_look_def split: sum.splits bool.splits)
  moreover have "EchoSent target icmp_ident icmp_sequence icmp_payload \<in> set (log w')"
    using loop_log [OF looped(2), of UNIV] looped(1) by auto
  ultimately show ?thesis using i(2) find_reply_True by metis
qed simp

text \<open>C16: \<^bold>\<open>no host is reported reachable without an answer\<close>. A ping that reports its target
  reachable has received, while it ran, an echo reply from exactly that address with the identifier
  and sequence number of the request it sent.\<close>

theorem ping_founded:
  assumes "ping target timeout (e, w) = (Ok True, e', w')"
  shows "\<exists>i. cursor w \<le> i \<and> i < cursor w' \<and>
    Ok (EchoReply icmp_ident icmp_sequence, V4 target) \<in> set (obs_icmp (feed w i)) \<and>
    EchoSent target icmp_ident icmp_sequence icmp_payload \<in> set (log w')"
  using assms by (rule ping_saw_reply)

theorem ping_founded_witness:
  "let answer = silent\<lparr>obs_icmp := [Ok (EchoReply icmp_ident 9, V4 (Ipv4 10 0 0 7)),
         Ok (EchoReply icmp_ident icmp_sequence, V4 (Ipv4 10 0 0 7))]\<rparr>;
       run = ping (Ipv4 10 0 0 7) (from_secs 2) (test_engine, playing [silent, silent, silent, answer])
   in fst run = Ok True \<and>
      (\<exists>i < cursor (snd (snd run)). Ok (EchoReply icmp_ident icmp_sequence, V4 (Ipv4 10 0 0 7))
         \<in> set (obs_icmp (feed (playing [silent, silent, silent, answer]) i)))"
proof -
  let ?answer = "silent\<lparr>obs_icmp := [Ok (EchoReply icmp_ident 9, V4 (Ipv4 10 0 0 7)),
         Ok (EchoReply icmp_ident icmp_sequence, V4 (Ipv4 10 0 0 7))]\<rparr>"
  let ?w = "playing [silent, silent, silent, ?answer]"
  obtain r e' w' where run: "ping (Ipv4 10 0 0 7) (from_secs 2) (test_engine, ?w) = (r, e', w')"
    by (cases "ping (Ipv4 10 0 0 7) (from_secs 2) (test_engine, ?w)")
  have "fst (ping (Ipv4 10 0 0 7) (from_secs 2) (test_engine, ?w)) = Ok True"
    by (simp add: play_simps ping_def ping_look_def icmp_ident_def icmp_sequence_def)
  with run have r: "r = Ok True" by simp
  from ping_founded [OF run [unfolded r]] show ?thesis
    using r unfolding Let_def run by auto
qed

text \<open>\<^bold>\<open>a probe succeeds only on an established connection\<close>. A TCP probe that reports success
  saw its socket established while it ran, and aborts that connection before it returns.\<close>

theorem probe_founded:
  assumes "probe target timeout (e, w) = (Ok True, e', w')"
  shows "\<exists>i. cursor w \<le> i \<and> i < cursor w' \<and> obs_state (feed w i) = Established \<and> last (log w') = TcpAborted"
  using assms
proof (cases rule: probe_cases)
  case (looped x v u)
  then have x: "x = Some True" by simp
  let ?P = "\<lambda>x y. x = Some True \<longrightarrow> last (log y) = TcpAborted"
  have "?P (fst (engine_loop (clock v + timeout) probe_look () v)) (snd (engine_loop (clock v + timeout) probe_look () v))"
  proof (rule engine_loop_rule [where I = "\<lambda>_ _. True" and P = ?P])
    fix a y r y'
    assume "poll_turn probe_look a y = (Leave r, y')"
    then show "?P (Some r) y'"
      using poll_turn_simps(4,5) [of probe_look a y "Leave r" y'] by (auto simp: probe_look_def split: if_splits)
  qed simp_all
  with looped(2) x have "last (log u) = TcpAborted" by simp
  moreover from loop_saw [OF looped(2) [unfolded x]] obtain i a where
    i: "cursor v \<le> i" "i < cursor u" "fst (probe_look a (feed v i)) = Leave True" by blast
  moreover from i(3) have "obs_state (feed v i) = Established" by (auto simp: probe_look_def split: if_splits)
  ultimately show ?thesis using looped(1,4) x by (intro exI [of _ i]) simp
qed simp

theorem probe_founded_witness:
  "let w = playing [silent, silent, silent, silent\<lparr>obs_state := Established\<rparr>];
       run = probe test_fritz (from_secs 8) (test_engine, w)
   in fst run = Ok True \<and> last (log (snd (snd run))) = TcpAborted"
proof -
  let ?w = "playing [silent, silent, silent, silent\<lparr>obs_state := Established\<rparr>]"
  obtain r e' w' where run: "probe test_fritz (from_secs 8) (test_engine, ?w) = (r, e', w')"
    by (cases "probe test_fritz (from_secs 8) (test_engine, ?w)")
  have "fst (probe test_fritz (from_secs 8) (test_engine, ?w)) = Ok True"
    by (simp add: play_simps probe_def probe_look_def open_socket_def)
  with run have r: "r = Ok True" by simp
  from probe_founded [OF run [unfolded r]] show ?thesis
    using r unfolding Let_def run by auto
qed

section \<open>What an HTTP exchange sends and returns\<close>

fun tcp_sent :: "net_event list \<Rightarrow> string list" where
  "tcp_sent [] = []"
| "tcp_sent (TcpSent b # evs) = b # tcp_sent evs"
| "tcp_sent (_ # evs) = tcp_sent evs"

fun tcp_received :: "net_event list \<Rightarrow> string" where
  "tcp_received [] = []"
| "tcp_received (TcpReceived b # evs) = b @ tcp_received evs"
| "tcp_received (_ # evs) = tcp_received evs"

lemma tcp_append [simp]:
  "tcp_sent (a @ b) = tcp_sent a @ tcp_sent b"
  "tcp_received (a @ b) = tcp_received a @ tcp_received b"
  by (induction a rule: tcp_sent.induct) auto

lemma drain_Ok:
  "drain rs response evs = (Ok r, evs') \<Longrightarrow>
     \<exists>new. evs' = evs @ new \<and> tcp_sent new = [] \<and> r = response @ tcp_received new"
proof (induction rs response evs rule: drain.induct)
  case (3 bytes rs response evs)
  then obtain new where "evs' = (evs @ [TcpReceived bytes]) @ new" "tcp_sent new = []"
    "r = (response @ bytes) @ tcp_received new" by auto
  then show ?case by (intro exI [of _ "TcpReceived bytes # new"]) simp
qed auto

lemma http_look_turn:
  assumes "http_look request (sent, response) ob = (t, evs)"
  shows "t = Stay (sent', response') \<Longrightarrow>
      (sent \<longrightarrow> sent') \<and> tcp_sent evs = (if sent' \<and> \<not> sent then [request] else []) \<and>
      response' = response @ tcp_received evs"
    and "t = Leave (Complete r) \<Longrightarrow>
      tcp_sent evs = (if sent then [] else [request]) \<and> r = response @ tcp_received evs"
proof -
  obtain s_r s_evs where s: "http_send request sent ob = (s_r, s_evs)" by (cases "http_send request sent ob")
  have sent_ok: "tcp_sent s_evs = (if s \<and> \<not> sent then [request] else []) \<and> tcp_received s_evs = [] \<and> (sent \<longrightarrow> s)"
    if "s_r = Ok s" for s
    using s that by (auto simp: http_send_def split: if_splits sum.splits)
  obtain d_r d_evs where d: "drain (obs_recv ob) response s_evs = (d_r, d_evs)"
    by (cases "drain (obs_recv ob) response s_evs")
  have all: "(\<exists>s resp. s_r = Ok s \<and> d_r = Ok resp \<and> evs = d_evs \<and>
      (t = Stay (s, resp) \<or> t = Leave Failed \<or> s \<and> t = Leave (Complete resp))) \<or> (\<exists>e. t = Leave (Abandoned e))"
    using assms s d by (auto simp: http_look_def Let_def split: sum.splits if_splits)
  show "(sent \<longrightarrow> sent') \<and> tcp_sent evs = (if sent' \<and> \<not> sent then [request] else []) \<and> response' = response @ tcp_received evs"
    if "t = Stay (sent', response')"
    using all that sent_ok d drain_Ok [of "obs_recv ob" response s_evs] by fastforce
  show "tcp_sent evs = (if sent then [] else [request]) \<and> r = response @ tcp_received evs"
    if "t = Leave (Complete r)"
    using all that sent_ok d drain_Ok [of "obs_recv ob" response s_evs] by fastforce
qed

lemma http_loop_exact:
  assumes "engine_loop d (http_look request) (False, []) w = (Some (Complete r), w')"
  shows "\<exists>evs. log w' = log w @ evs \<and> tcp_sent evs = [request] \<and> tcp_received evs = r"
proof -
  let ?I = "\<lambda>(sent, response) v. \<exists>evs. log v = log w @ evs \<and>
      tcp_sent evs = (if sent then [request] else []) \<and> tcp_received evs = response"
  let ?P = "\<lambda>x v. \<forall>r. x = Some (Complete r) \<longrightarrow>
      (\<exists>evs. log v = log w @ evs \<and> tcp_sent evs = [request] \<and> tcp_received evs = r)"
  have "?P (fst (engine_loop d (http_look request) (False, []) w)) (snd (engine_loop d (http_look request) (False, []) w))"
  proof (rule engine_loop_rule [where I = ?I and P = ?P])
    show "?I (False, []) w" by simp
  next
    fix a v a' v'
    assume i: "?I a v" and t: "poll_turn (http_look request) a v = (Stay a', v')"
    obtain sent response sent' response' where a: "a = (sent, response)" "a' = (sent', response')"
      by (cases a; cases a')
    let ?new = "snd (http_look request a (feed v (cursor v)))"
    obtain evs where e: "log v = log w @ evs" "tcp_sent evs = (if sent then [request] else [])"
      "tcp_received evs = response" using i a by auto
    have "http_look request (sent, response) (feed v (cursor v)) = (Stay (sent', response'), ?new)"
      using poll_turn_simps(4) [OF t] unfolding a by (metis prod.collapse)
    from http_look_turn(1) [OF this refl]
    have new: "sent \<longrightarrow> sent'" "tcp_sent ?new = (if sent' \<and> \<not> sent then [request] else [])"
      "response' = response @ tcp_received ?new" by simp_all
    show "?I a' (sleep (from_millis 5) v')"
      using poll_turn_simps(5) [OF t] e new a by (auto intro!: exI [of _ "evs @ ?new"])
  next
    fix a v x v'
    assume i: "?I a v" and t: "poll_turn (http_look request) a v = (Leave x, v')"
    obtain sent response where a: "a = (sent, response)" by (cases a)
    let ?new = "snd (http_look request a (feed v (cursor v)))"
    obtain evs where e: "log v = log w @ evs" "tcp_sent evs = (if sent then [request] else [])"
      "tcp_received evs = response" using i a by auto
    show "?P (Some x) v'"
    proof (intro allI impI)
      fix r
      assume "Some x = Some (Complete r)"
      then have "http_look request (sent, response) (feed v (cursor v)) = (Leave (Complete r), ?new)"
        using poll_turn_simps(4) [OF t] unfolding a by (simp add: prod_eq_iff)
      from http_look_turn(2) [OF this refl]
      have "tcp_sent ?new = (if sent then [] else [request])" "r = response @ tcp_received ?new" by simp_all
      then show "\<exists>evs. log v' = log w @ evs \<and> tcp_sent evs = [request] \<and> tcp_received evs = r"
        using poll_turn_simps(5) [OF t] e by (intro exI [of _ "evs @ ?new"]) simp
    qed
  qed simp
  with assms show ?thesis by simp
qed

lemma http_exchange:
  assumes "http target request timeout (e, w) = (Ok response, e', w')"
  shows "\<exists>evs. log w' = log w @ TcpOpen (eng_next_port e) target # evs \<and>
    tcp_sent evs = [request] \<and> tcp_received evs = response"
  using assms
proof (cases rule: http_cases)
  case (looped x v)
  then have "x = Some (Complete response)"
    by (auto simp: http_exit_of_def split: option.splits http_exit.splits)
  from http_loop_exact [OF looped(2) [unfolded this]] looped(1) show ?thesis by auto
qed simp

text \<open>C14: \<^bold>\<open>an answered request was sent once and whole\<close>. When an HTTP exchange returns a
  response, the whole request was written to the socket exactly once, and the response is the
  concatenation of everything received, in order.\<close>

theorem http_exact:
  assumes "http target request timeout (e, w) = (Ok response, e', w')"
  shows "\<exists>evs. log w' = log w @ TcpOpen (eng_next_port e) target # evs \<and>
    tcp_sent evs = [request] \<and> tcp_received evs = response"
  using assms by (rule http_exchange)

theorem http_exact_witness:
  "let w = playing [silent, silent\<lparr>obs_state := Established, obs_may_send := True, obs_send := Ok 3, obs_may_recv := True\<rparr>, silent,
         silent\<lparr>obs_state := CloseWait, obs_recv := [Ok ''HT'', Ok ''TP'']\<rparr>];
       run = http test_fritz ''GET'' (from_secs 8) (test_engine, w)
   in fst run = Ok ''HTTP'' \<and> tcp_sent (log (snd (snd run))) = [''GET'']"
proof -
  let ?w = "playing [silent, silent\<lparr>obs_state := Established, obs_may_send := True, obs_send := Ok 3, obs_may_recv := True\<rparr>, silent,
         silent\<lparr>obs_state := CloseWait, obs_recv := [Ok ''HT'', Ok ''TP'']\<rparr>]"
  obtain r e' w' where run: "http test_fritz ''GET'' (from_secs 8) (test_engine, ?w) = (r, e', w')"
    by (cases "http test_fritz ''GET'' (from_secs 8) (test_engine, ?w)")
  have "fst (http test_fritz ''GET'' (from_secs 8) (test_engine, ?w)) = Ok ''HTTP''"
    by (simp add: play_simps http_def http_look_def http_send_def open_socket_def)
  with run have r: "r = Ok ''HTTP''" by simp
  have "log ?w = []" by (simp add: playing_def)
  with http_exact [OF run [unfolded r]] show ?thesis
    using r unfolding Let_def run by auto
qed

section \<open>The socket set\<close>

definition engine_wf :: "smol_engine \<Rightarrow> bool" where
  "engine_wf e \<longleftrightarrow> list_all (\<lambda>h. h < eng_next_handle e) (eng_sockets e) \<and> distinct (eng_sockets e)"

lemma added_wf:
  assumes "engine_wf e"
  shows "engine_wf (snd (add_socket e))" "engine_wf (remove_socket (eng_next_handle e) (snd (add_socket e)))"
    "eng_sockets (remove_socket (eng_next_handle e) (snd (add_socket e))) = eng_sockets e"
    "eng_sockets (snd (add_socket e)) = eng_sockets e @ [eng_next_handle e]"
proof -
  have "eng_next_handle e \<notin> set (eng_sockets e)" using assms by (auto simp: engine_wf_def list_all_iff)
  with assms show "engine_wf (snd (add_socket e))" "engine_wf (remove_socket (eng_next_handle e) (snd (add_socket e)))"
    "eng_sockets (remove_socket (eng_next_handle e) (snd (add_socket e))) = eng_sockets e"
    "eng_sockets (snd (add_socket e)) = eng_sockets e @ [eng_next_handle e]"
    by (auto simp: engine_wf_def add_socket_def remove_socket_def list_all_iff less_Suc_eq)
qed

lemma opened_wf:
  assumes "engine_wf e"
  shows "engine_wf (opened e)" "engine_wf (remove_socket (eng_next_handle e) (opened e))"
    "eng_sockets (remove_socket (eng_next_handle e) (opened e)) = eng_sockets e"
    "eng_sockets (opened e) = eng_sockets e @ [eng_next_handle e]"
  using added_wf [OF assms]
  by (simp_all add: engine_wf_def opened_def remove_socket_def)

text \<open>Replies after which the engine must hold no socket of the operation.\<close>

fun settled :: "net_command \<Rightarrow> net_reply \<Rightarrow> bool" where
  "settled (ProbeCmd _ _) r = True"
| "settled (HttpCmd _ _ _) r = (case r of HttpReply (Err e) \<Rightarrow> e = NetTimeout | _ \<Rightarrow> True)"
| "settled (PingCmd _ _) r = (case r of BoolReply (Err e) \<Rightarrow> False | _ \<Rightarrow> True)"

lemma http_sockets:
  assumes "http target request timeout (e, w) = (r, e', w')" "engine_wf e"
  shows "engine_wf e' \<and> (eng_sockets e' = eng_sockets e \<or>
     (\<exists>err. r = Err (Network err)) \<and> eng_sockets e' = eng_sockets e @ [eng_next_handle e])"
  using assms(1)
proof (cases rule: http_cases)
  case (refused err)
  with opened_wf [OF assms(2)] show ?thesis by simp
next
  case (looped x v)
  have "\<exists>m. err = Network m" if "x = Some (Abandoned err)" for err
  proof -
    from loop_saw [OF looped(2) [unfolded that]] obtain i a
      where "fst (http_look request a (feed v i)) = Leave (Abandoned err)" by blast
    moreover have "\<exists>m. e = Network m" if "drain rs resp evs = (Err e, evs')" for rs resp evs e evs'
      using that by (induction rs resp evs rule: drain.induct) auto
    ultimately show ?thesis
      by (fastforce simp: http_look_def http_send_def Let_def split: prod.splits sum.splits if_splits)
  qed
  with looped(3) opened_wf [OF assms(2)] show ?thesis
    by (auto simp: http_exit_of_def split: option.splits http_exit.splits)
qed

lemma ping_sockets:
  assumes "ping target timeout (e, w) = (r, e', w')" "engine_wf e"
  shows "engine_wf e' \<and> (eng_sockets e' = eng_sockets e \<or>
     (\<exists>err. r = Err err) \<and> eng_sockets e' = eng_sockets e @ [eng_next_handle e])"
  using assms(1)
proof (cases rule: ping_cases)
  case (refused err)
  with assms(2) show ?thesis by simp
next
  case (looped x v)
  have "x \<noteq> Some (Ok False)"
  proof
    assume "x = Some (Ok False)"
    from loop_saw [OF looped(2) [unfolded this]] obtain i a
      where "fst (ping_look target a (feed v i)) = Leave (Ok False)" by blast
    then show False by (auto simp: ping_look_def split: sum.splits bool.splits)
  qed
  with looped(3,4) added_wf [OF assms(2)] show ?thesis
    by (cases x; cases "the x") auto
qed

text \<open>C19: \<^bold>\<open>sockets are given back\<close>. A TCP probe, and any exchange or ping that ends with a result
  or at its deadline, leaves the engine with exactly the sockets it had; any other ending leaves at
  most the one socket of the operation behind.\<close>

theorem engine_sockets:
  assumes "engine_command c (e, w) = (r, e', w')" and "engine_wf e"
  shows "engine_wf e' \<and> (eng_sockets e' = eng_sockets e \<or>
    \<not> settled c r \<and> eng_sockets e' = eng_sockets e @ [eng_next_handle e])"
proof (cases c)
  case (HttpCmd target request timeout)
  then obtain x where "http target request timeout (e, w) = (x, e', w')" "r = HttpReply x"
    using assms(1) by (auto split: prod.splits)
  with http_sockets assms(2) HttpCmd show ?thesis by fastforce
next
  case (ProbeCmd target timeout)
  then obtain x where "probe target timeout (e, w) = (x, e', w')" using assms(1) by (auto split: prod.splits)
  then show ?thesis by (cases rule: probe_cases) (simp_all add: opened_wf [OF assms(2)])
next
  case (PingCmd target timeout)
  then obtain x where "ping target timeout (e, w) = (x, e', w')" "r = BoolReply x"
    using assms(1) by (auto split: prod.splits)
  with ping_sockets assms(2) PingCmd show ?thesis by fastforce
qed

theorem engine_sockets_witness:
  "eng_sockets (fst (snd (engine_command (ProbeCmd test_fritz (from_secs 8)) (test_engine, playing [])))) = []"
proof -
  obtain r e' w' where e: "engine_command (ProbeCmd test_fritz (from_secs 8)) (test_engine, playing []) = (r, e', w')"
    by (cases "engine_command (ProbeCmd test_fritz (from_secs 8)) (test_engine, playing [])")
  have "engine_wf test_engine" by (simp add: engine_wf_def test_engine_def)
  from engine_sockets [OF e this] show ?thesis unfolding e by (simp add: test_engine_def)
qed

text \<open>An error inside the HTTP loop does leave its socket in the set.\<close>

lemma http_error_keeps_socket:
  "eng_sockets (fst (snd (http test_fritz ''GET'' (from_secs 8)
     (test_engine, playing [silent, silent\<lparr>obs_may_send := True, obs_send := Err ''x''\<rparr>])))) = [0]"
  by (simp add: play_simps http_def http_look_def http_send_def open_socket_def)

section \<open>Local ports\<close>

fun tcp_ports :: "net_event list \<Rightarrow> u16 list" where
  "tcp_ports [] = []"
| "tcp_ports (TcpOpen p _ # evs) = p # tcp_ports evs"
| "tcp_ports (_ # evs) = tcp_ports evs"

lemma tcp_ports_append [simp]: "tcp_ports (a @ b) = tcp_ports a @ tcp_ports b"
  by (induction a rule: tcp_ports.induct) auto

lemma tcp_ports_none: "list_all (\<lambda>ev. \<forall>p t. ev \<noteq> TcpOpen p t) evs \<Longrightarrow> tcp_ports evs = []"
  by (induction evs rule: tcp_ports.induct) auto

fun opens_tcp :: "net_command \<Rightarrow> bool" where
  "opens_tcp (PingCmd _ _) = False"
| "opens_tcp _ = True"

definition local_port :: "nat \<Rightarrow> u16" where
  "local_port i = of_nat (49152 + i mod 16384)"

lemma unat_local_port: "unat (local_port i) = 49152 + i mod 16384"
proof -
  have "49152 + i mod 16384 < 2 ^ LENGTH(16)" using mod_less_divisor [of 16384 i] by simp
  then show ?thesis
    unfolding local_port_def unsigned_of_nat by (simp only: take_bit_nat_eq_self of_nat_id)
qed

lemma next_local_port: "next_local_port (local_port i) = local_port (i + 1)"
proof -
  have i: "i mod 16384 < 16384" by simp
  note u = unat_local_port [of i]
  show ?thesis
  proof (cases "i mod 16384 = 16383")
    case True
    then have "(i + 1) mod 16384 = 0" by (simp add: mod_Suc)
    with True show ?thesis by (simp add: next_local_port_def local_port_def)
  next
    case False
    then have m: "(i + 1) mod 16384 = i mod 16384 + 1" by (simp add: mod_Suc)
    have "local_port i \<noteq> 65535" using u False i by (auto dest: arg_cong [of _ _ unat])
    then have "next_local_port (local_port i) = local_port i + 1" by (simp add: next_local_port_def)
    then show ?thesis unfolding local_port_def m by (simp add: algebra_simps)
  qed
qed

definition no_open :: "net_event set" where
  "no_open = {ev. \<forall>p t. ev \<noteq> TcpOpen p t}"

lemma drain_no_open:
  "drain rs response evs = (d, evs') \<Longrightarrow> set evs \<subseteq> no_open \<Longrightarrow> set evs' \<subseteq> no_open"
  by (induction rs response evs rule: drain.induct) (auto simp: no_open_def)

lemma looks_no_open:
  "set (snd (http_look request a ob)) \<subseteq> no_open"
  "set (snd (probe_look u ob)) \<subseteq> no_open"
  "set (snd (ping_look target u ob)) \<subseteq> no_open"
proof -
  obtain sent response where a: "a = (sent, response)" by (cases a)
  obtain r evs where s: "http_send request sent ob = (r, evs)" by (cases "http_send request sent ob")
  then have evs: "set evs \<subseteq> no_open" by (auto simp: http_send_def no_open_def split: if_splits sum.splits)
  show "set (snd (http_look request a ob)) \<subseteq> no_open"
    using evs drain_no_open [of "obs_recv ob" response evs]
    by (auto simp: http_look_def a s Let_def split: sum.splits prod.splits)
  show "set (snd (probe_look u ob)) \<subseteq> no_open" by (simp add: probe_look_def no_open_def)
  show "set (snd (ping_look target u ob)) \<subseteq> no_open"
    by (auto simp: ping_look_def split: sum.splits bool.splits)
qed

lemma loop_ports:
  assumes "engine_loop d look a w = (x, w')" "\<And>a ob. set (snd (look a ob)) \<subseteq> no_open"
  shows "\<exists>evs. log w' = log w @ evs \<and> tcp_ports evs = []"
proof -
  obtain evs where "log w' = log w @ evs" "set evs \<subseteq> no_open" using loop_log [OF assms] by blast
  moreover from this have "tcp_ports evs = []"
    by (intro tcp_ports_none) (auto simp: no_open_def list_all_iff)
  ultimately show ?thesis by blast
qed

lemma next_port_simps [simp]:
  "eng_next_port (remove_socket h e) = eng_next_port e"
  "eng_next_port (snd (add_socket e)) = eng_next_port e"
  "eng_next_port (opened e) = next_local_port (eng_next_port e)"
  by (simp_all add: remove_socket_def add_socket_def opened_def)

lemma engine_command_port:
  assumes "engine_command c (e, w) = (r, e', w')"
  shows "\<exists>evs. log w' = log w @ evs \<and>
    tcp_ports evs = (if opens_tcp c then [eng_next_port e] else []) \<and>
    eng_next_port e' = (if opens_tcp c then next_local_port (eng_next_port e) else eng_next_port e)"
proof (cases c)
  case (HttpCmd target request timeout)
  then obtain x where "http target request timeout (e, w) = (x, e', w')"
    using assms(1) by (auto split: prod.splits)
  then show ?thesis
  proof (cases rule: http_cases)
    case (looped y v)
    have "eng_next_port e' = next_local_port (eng_next_port e)"
      using looped(3) by (auto simp: http_exit_of_def split: option.splits http_exit.splits)
    with loop_ports [OF looped(2) looks_no_open(1)] looped(1) HttpCmd show ?thesis by auto
  qed (simp add: HttpCmd)
next
  case (ProbeCmd target timeout)
  then obtain x where "probe target timeout (e, w) = (x, e', w')" using assms(1) by (auto split: prod.splits)
  then show ?thesis
  proof (cases rule: probe_cases)
    case (looped y v u)
    from loop_ports [OF looped(2) looks_no_open(2)] looped ProbeCmd show ?thesis by auto
  qed (simp add: ProbeCmd)
next
  case (PingCmd target timeout)
  then obtain x where "ping target timeout (e, w) = (x, e', w')" using assms(1) by (auto split: prod.splits)
  then show ?thesis
  proof (cases rule: ping_cases)
    case (looped y v)
    from loop_ports [OF looped(2) looks_no_open(3)] looped(1,4) PingCmd show ?thesis by auto
  qed (simp add: PingCmd)
qed

lemma engine_run_ports:
  "eng_next_port e = local_port i \<Longrightarrow> engine_run cs (e, w) = (rs, e', w') \<Longrightarrow>
     \<exists>evs. log w' = log w @ evs \<and>
       tcp_ports evs = map local_port [i ..< i + length (filter opens_tcp cs)]"
proof (induction cs arbitrary: i e w rs)
  case (Cons c cs)
  obtain r e1 w1 where c: "engine_command c (e, w) = (r, e1, w1)" by (cases "engine_command c (e, w)")
  then obtain rs1 where rest: "engine_run cs (e1, w1) = (rs1, e', w')"
    using Cons.prems(2) by (auto split: prod.splits)
  obtain evs where evs: "log w1 = log w @ evs" "tcp_ports evs = (if opens_tcp c then [eng_next_port e] else [])"
    "eng_next_port e1 = (if opens_tcp c then next_local_port (eng_next_port e) else eng_next_port e)"
    using engine_command_port [OF c] by blast
  define j where "j = (if opens_tcp c then i + 1 else i)"
  have "eng_next_port e1 = local_port j" using evs(3) Cons.prems(1) next_local_port by (simp add: j_def)
  from Cons.IH [OF this rest] obtain evs' where
    "log w' = log w1 @ evs'" "tcp_ports evs' = map local_port [j ..< j + length (filter opens_tcp cs)]" by blast
  moreover have "tcp_ports evs @ map local_port [j ..< j + length (filter opens_tcp cs)] =
      map local_port [i ..< i + length (filter opens_tcp (c # cs))]"
    using evs(2) Cons.prems(1) upt_conv_Cons [of i "i + Suc (length (filter opens_tcp cs))"] by (simp add: j_def)
  ultimately show ?case
    using evs(1) by (intro exI [of _ "evs @ evs'"]) simp
qed simp

text \<open>\<^bold>\<open>local ports stay in the dynamic range and come round last\<close>. Over the life of an
  engine, whatever the commands and the network, the connections it opens use the local ports
  49152, 49153, ... 65535 in turn and then start again, so any 16384 connections in a row use
  different ports.\<close>

theorem engine_ports:
  "tcp_ports (drop (length (log w)) (log (snd (snd (engine_run cs (engine_new address w)))))) =
     map (\<lambda>i. of_nat (49152 + i mod 16384)) [0 ..< length (filter opens_tcp cs)]"
proof -
  obtain e v where n: "engine_new address w = (e, v)" by (cases "engine_new address w")
  obtain rs e' w' where run: "engine_run cs (e, v) = (rs, e', w')" by (cases "engine_run cs (e, v)")
  have "eng_next_port e = local_port 0" "log v = log w @ [IfaceUp address (Ipv4 0 0 0 1)]"
    using n by (auto simp: engine_new_def local_port_def)
  with engine_run_ports [OF this(1) run] show ?thesis
    by (auto simp: n run local_port_def)
qed

lemma local_ports_distinct:
  assumes "local_port i = local_port j" "i < j"
  shows "16384 \<le> j - i"
proof -
  have "i mod 16384 = j mod 16384" using assms(1) unat_local_port by (metis add_left_imp_eq)
  then have "16384 dvd j - i" using assms(2) mod_eq_dvd_iff_nat [of i j 16384] by simp
  then show ?thesis using assms(2) by (intro dvd_imp_le) simp_all
qed

end
