(* ===== verification/Backend.thy ===== *)
theory Backend
  imports Run_Wake Lab Tunnel
begin

text \<open>
  \<open>WakerWireGuardBackend\<close> of \<open>crates/waker-net/src/lib.rs\<close>: the backend \<open>run_wake\<close> is given
  by the program. A backend that is dropped or overwritten drops its tunnel's device.
\<close>

section \<open>The model\<close>

record backend =
  be_profile :: wireguard_profile
  be_fritz_address :: socket_addr_v4
  be_tunnel :: "tunnel_client option"

type_synonym backend_state = "backend \<times> outside"

definition backend_new :: "wireguard_profile \<Rightarrow> ipv4 \<Rightarrow> backend" where
  "backend_new profile fritz_ip =
     \<lparr>be_profile = profile, be_fritz_address = (fritz_ip, 49000), be_tunnel = None\<rparr>"

definition to_backend_error :: "net_error \<Rightarrow> wake_backend_error" where
  "to_backend_error e = WakeBackendError (show_net_error e)"

text \<open>A call on \<open>self.tunnel()?\<close>.\<close>

definition use_tunnel ::
  "(tunnel_client \<times> outside \<Rightarrow> (net_error + 'a) \<times> tunnel_client \<times> outside) \<Rightarrow>
   backend_state \<Rightarrow> (wake_backend_error + 'a) \<times> backend_state" where
  "use_tunnel call s =
     (let (b, w) = s
      in case be_tunnel b of
           None \<Rightarrow> (Err (WakeBackendError ''WireGuard tunnel is not connected''), (b, w))
         | Some t \<Rightarrow> (let (r, t, w) = call (t, w)
                     in (map_err to_backend_error r, (b\<lparr>be_tunnel := Some t\<rparr>, w))))"

definition hosts_action ::
  "string \<Rightarrow> string \<Rightarrow> backend_state \<Rightarrow> (wake_backend_error + (u16 \<times> string)) \<times> backend_state" where
  "hosts_action action args s =
     (let fritz = be_fritz_address (fst s);
          request = fritz_hosts_request (fst fritz) action args;
          (r, s) = use_tunnel (tunnel_http fritz request (from_secs 8)) s
      in (and_then r (\<lambda>response.
            and_then (map_err to_backend_error (http_status response)) (\<lambda>status.
              if \<not> (200 \<le> status \<and> status < 300)
              then Err (WakeBackendError (''FRITZ!Box Hosts action '' @ action @ '' returned HTTP '' @ show_nat (unat status)))
              else Ok (status, response))), s))"

definition host_entry :: "mac_address \<Rightarrow> backend_state \<Rightarrow> (wake_backend_error + string) \<times> backend_state" where
  "host_entry mac s =
     (let (r, s) = hosts_action ''GetSpecificHostEntry'' (mac_arguments mac) s
      in (and_then r (\<lambda>(status, response). Ok response), s))"

definition host_active ::
  "(string \<Rightarrow> string) \<Rightarrow> mac_address \<Rightarrow> backend_state \<Rightarrow> (wake_backend_error + bool) \<times> backend_state" where
  "host_active wide mac s =
     (let (r, s) = host_entry mac s
      in (and_then r (\<lambda>response. map_err to_backend_error (fritz_host_active wide response)), s))"

definition host_ipv4 ::
  "(string \<Rightarrow> string) \<Rightarrow> mac_address \<Rightarrow> backend_state \<Rightarrow> (wake_backend_error + ipv4) \<times> backend_state" where
  "host_ipv4 wide mac s =
     (let (r, s) = host_entry mac s
      in (and_then r (\<lambda>response. map_err to_backend_error (fritz_host_ip wide response)), s))"

definition ping_ipv4 ::
  "ipv4 \<Rightarrow> duration \<Rightarrow> backend_state \<Rightarrow> (wake_backend_error + bool) \<times> backend_state" where
  "ping_ipv4 target timeout s = use_tunnel (tunnel_ping target timeout) s"

definition ping_host ::
  "(string \<Rightarrow> string) \<Rightarrow> mac_address \<Rightarrow> backend_state \<Rightarrow> (wake_backend_error + bool) \<times> backend_state" where
  "ping_host wide mac s =
     (case host_ipv4 wide mac s of
        (Err e, s) \<Rightarrow> (Err e, s)
      | (Ok target, s) \<Rightarrow> ping_ipv4 target (from_secs 2) s)"

text \<open>Storing a tunnel drops the one stored before.\<close>

definition store_tunnel :: "tunnel_client option \<Rightarrow> backend_state \<Rightarrow> backend_state" where
  "store_tunnel t s =
     (let (b, w) = s
      in (b\<lparr>be_tunnel := t\<rparr>, if be_tunnel b = None then w else tunnel_shutdown w))"

definition backend_connect :: "backend_state \<Rightarrow> (wake_backend_error + unit) \<times> backend_state" where
  "backend_connect s =
     (let (b, w) = s
      in case tunnel_connect (be_profile b) w of
           (Err e, w) \<Rightarrow> (Err (to_backend_error e), (b, w))
         | (Ok t, w) \<Rightarrow>
             (case tunnel_probe (be_fritz_address b) (from_secs 8) (t, w) of
                (Err e, t, w) \<Rightarrow> (Err (to_backend_error e), (b, tunnel_shutdown w))
              | (Ok reachable, t, w) \<Rightarrow>
                  if \<not> reachable
                  then (Err (WakeBackendError (''FRITZ!Box '' @ show_socket_v4 (be_fritz_address b) @
                          '' was not reachable through WireGuard'')), (b, tunnel_shutdown w))
                  else (Ok (), store_tunnel (Some t) (b, w))))"

definition send_wake :: "mac_address \<Rightarrow> backend_state \<Rightarrow> (wake_backend_error + unit) \<times> backend_state" where
  "send_wake mac s =
     (let (r, s) = hosts_action ''X_AVM-DE_WakeOnLANByMACAddress'' (mac_arguments mac) s
      in (and_then r (\<lambda>_. Ok ()), s))"

definition backend_probe :: "ipv4 \<Rightarrow> backend_state \<Rightarrow> (wake_backend_error + bool) \<times> backend_state" where
  "backend_probe address s = ping_ipv4 address (from_millis 750) s"

definition backend_disconnect :: "backend_state \<Rightarrow> backend_state" where
  "backend_disconnect s = store_tunnel None s"

text \<open>The backend as \<open>run_wake\<close> sees it; the reports are collected in order.\<close>

type_synonym wake_world = "backend_state \<times> wake_state list"

definition on_backend :: "('a \<times> backend_state) \<Rightarrow> wake_state list \<Rightarrow> 'a \<times> wake_world" where
  "on_backend rs l = (fst rs, snd rs, l)"

definition backend_env :: "(string \<Rightarrow> string) \<Rightarrow> wake_world wake_env" where
  "backend_env wide = \<lparr>
     env_connect = (\<lambda>(s, l). on_backend (backend_connect s) l),
     env_resolve = (\<lambda>mac (s, l). on_backend (host_ipv4 wide mac s) l),
     env_send_wake = (\<lambda>mac (s, l). on_backend (send_wake mac s) l),
     env_probe = (\<lambda>address (s, l). on_backend (backend_probe address s) l),
     env_disconnect = (\<lambda>(s, l). (backend_disconnect s, l)),
     env_report = (\<lambda>state (s, l). (s, l @ [state])),
     env_now = (\<lambda>(s, l). clock (snd s)),
     env_sleep = (\<lambda>d ((b, w), l). ((b, sleep d w), l))\<rparr>"

section \<open>Every wake attempt ends\<close>

lemma tunnel_call_later:
  assumes "tunnel_call cmd (t, w) = (r, t', w')"
  shows "later (2 * (timeout_of cmd div from_millis 5) + 6) w w'"
proof (cases "obs_worker (fst (observe w))")
  case False
  then have "w' = snd (observe w)" using assms by (simp add: tunnel_call_def Let_def case_prod_beta)
  then show ?thesis by (simp add: later_def)
next
  case True
  then obtain x e where "engine_command cmd (tc_engine t, snd (observe w)) = (x, e, w')"
    using assms by (auto simp: tunnel_call_def Let_def case_prod_beta prod_eq_iff)
  from engine_command_later [OF this]
  have "later (2 * (timeout_of cmd div from_millis 5) + 5) (snd (observe w)) w'" by simp
  moreover have "later 1 w (snd (observe w))" by simp
  ultimately show ?thesis by (simp add: later_def)
qed

definition never_back :: "outside \<Rightarrow> outside \<Rightarrow> bool" where
  "never_back w w' \<longleftrightarrow> cursor w \<le> cursor w' \<and> clock w \<le> clock w' \<and> feed w' = feed w"

lemma later_never_back: "later k w w' \<Longrightarrow> never_back w w'"
  by (simp add: later_def never_back_def)

lemma use_tunnel_never_back:
  assumes "\<And>t w r t' w'. call (t, w) = (r, t', w') \<Longrightarrow> never_back w w'"
    and "use_tunnel call (b, w) = (r, b', w')"
  shows "never_back w w'"
  using assms(2) by (auto simp: use_tunnel_def never_back_def split: option.splits prod.splits dest!: assms(1))

lemma tunnel_ping_never_back: "tunnel_ping target timeout (t, w) = (r, t', w') \<Longrightarrow> never_back w w'"
  by (auto simp: tunnel_ping_def split: prod.splits dest!: tunnel_call_later later_never_back)

lemma backend_probe_never_back: "backend_probe a (b, w) = (r, b', w') \<Longrightarrow> never_back w w'"
  unfolding backend_probe_def ping_ipv4_def
  by (rule use_tunnel_never_back [OF tunnel_ping_never_back])

interpretation backend: wake_clock "backend_env wide" for wide
proof
  fix w :: wake_world and s
  show "env_now (backend_env wide) w \<le> env_now (backend_env wide) (env_report (backend_env wide) s w)"
    by (cases w) (simp add: backend_env_def)
next
  fix w :: wake_world and a
  obtain b v l where w: "w = ((b, v), l)" by (metis prod.collapse)
  obtain r b' v' where p: "backend_probe a (b, v) = (r, b', v')" by (metis prod.collapse)
  then have "clock v \<le> clock v'" using backend_probe_never_back by (simp add: never_back_def)
  then show "env_now (backend_env wide) w \<le> env_now (backend_env wide) (snd (env_probe (backend_env wide) a w))"
    by (simp add: backend_env_def on_backend_def w p)
next
  fix w :: wake_world and d
  show "env_now (backend_env wide) w + d \<le> env_now (backend_env wide) (env_sleep (backend_env wide) d w)"
    by (auto simp: backend_env_def split: prod.splits)
qed

section \<open>What a call leaves behind\<close>

text \<open>\<open>extends S w w'\<close>: the outside went on, and the log grew by events in \<open>S\<close>.\<close>

definition extends :: "net_event set \<Rightarrow> outside \<Rightarrow> outside \<Rightarrow> bool" where
  "extends S w w' \<longleftrightarrow> never_back w w' \<and> (\<exists>evs. log w' = log w @ evs \<and> set evs \<subseteq> S)"

lemma extends_refl [simp]: "extends S w w"
  by (simp add: extends_def never_back_def)

lemma extends_trans [trans]: "extends S u v \<Longrightarrow> extends S v w \<Longrightarrow> extends S u w"
  by (fastforce simp: extends_def never_back_def)

lemma extends_mono: "extends S u v \<Longrightarrow> S \<subseteq> T \<Longrightarrow> extends T u v"
  by (fastforce simp: extends_def)

lemma extends_observe [simp]: "extends S w (snd (observe w))"
  by (simp add: extends_def never_back_def)

lemma extends_emit: "ev \<in> S \<Longrightarrow> extends S w (emit ev w)"
  by (simp add: extends_def never_back_def)

lemma extends_sleep [simp]: "extends S w (sleep d w)"
  by (simp add: extends_def never_back_def)

lemma loop_extends:
  assumes "engine_loop (clock w + timeout) look a w = (x, w')" "\<And>a ob. set (snd (look a ob)) \<subseteq> S"
  shows "extends S w w'"
  using loop_log [OF assms] later_never_back [OF loop_later [OF assms(1)]] by (simp add: extends_def)

text \<open>What happens in a call on the tunnel: nothing but an observation, or one engine command.\<close>

lemma tunnel_call_cases:
  assumes "tunnel_call c (t, w) = (r, t', w')"
  obtains (stopped) "r = Err WorkerStopped" "t' = t" "w' = snd (observe w)"
    | (ran) x e where "r = Ok x" "t' = t\<lparr>tc_engine := e\<rparr>"
      "engine_command c (tc_engine t, snd (observe w)) = (x, e, w')"
proof (cases "obs_worker (fst (observe w))")
  case False
  then show ?thesis using assms stopped by (simp add: tunnel_call_def Let_def case_prod_beta)
next
  case True
  obtain x e v where "engine_command c (tc_engine t, snd (observe w)) = (x, e, v)" by (metis prod.collapse)
  with True assms ran show ?thesis by (auto simp: tunnel_call_def Let_def case_prod_beta)
qed

text \<open>
  A set \<open>S\<close> of events that holds all events of sockets, among those of sending the pieces of the
  requests in \<open>R\<close>: the calls on a tunnel with these requests extend the log by events in \<open>S\<close> only.
\<close>

locale event_class =
  fixes S :: "net_event set" and R :: "string set"
  assumes opens: "TcpOpen p t \<in> S"
    and aborts: "TcpAborted \<in> S"
    and receives: "TcpReceived s \<in> S"
    and echoes: "EchoSent a i n d \<in> S"
    and pieces: "request \<in> R \<Longrightarrow> prefix s request \<Longrightarrow> TcpSent s \<in> S"
begin

lemma drain_events: "drain rs response evs = (d, evs') \<Longrightarrow> set evs \<subseteq> S \<Longrightarrow> set evs' \<subseteq> S"
  by (induction rs response evs rule: drain.induct) (auto simp: receives)

lemma look_events:
  "request \<in> R \<Longrightarrow> set (snd (http_look request a ob)) \<subseteq> S"
  "set (snd (probe_look u ob)) \<subseteq> S"
  "set (snd (ping_look target u ob)) \<subseteq> S"
proof -
  show "set (snd (http_look request a ob)) \<subseteq> S" if "request \<in> R"
  proof -
    obtain sent response where a: "a = (sent, response)" by (cases a)
    obtain r evs where s: "http_send request sent ob = (r, evs)" by (cases "http_send request sent ob")
    then have evs: "set evs \<subseteq> S"
      using pieces [OF that] by (auto simp: http_send_def take_is_prefix split: if_splits sum.splits)
    then show ?thesis
      using drain_events [of "obs_recv ob" response evs]
      by (auto simp: http_look_def a s Let_def split: sum.splits prod.splits)
  qed
  show "set (snd (probe_look u ob)) \<subseteq> S" by (simp add: probe_look_def aborts)
  show "set (snd (ping_look target u ob)) \<subseteq> S"
    by (auto simp: ping_look_def echoes split: sum.splits bool.splits)
qed

lemma open_extends: "extends S w (snd (observe (emit (TcpOpen p target) w)))"
  using extends_trans [OF extends_emit [OF opens] extends_observe] by simp

lemma http_extends:
  assumes "request \<in> R"
  shows "http target request timeout (e, w) = (r, e', w') \<Longrightarrow> extends S w w'"
proof (erule http_cases)
  fix x v
  assume v: "v = snd (observe (emit (TcpOpen (eng_next_port e) target) w))"
    and l: "engine_loop (clock v + timeout) (http_look request) (False, []) v = (x, w')"
  show "extends S w w'"
    using extends_trans [OF open_extends loop_extends [OF l [unfolded v] look_events(1) [OF assms]]] .
qed (simp add: open_extends)

lemma probe_extends: "probe target timeout (e, w) = (r, e', w') \<Longrightarrow> extends S w w'"
proof (erule probe_cases)
  fix x v u
  assume v: "v = snd (observe (emit (TcpOpen (eng_next_port e) target) w))"
    and l: "engine_loop (clock v + timeout) probe_look () v = (x, u)"
    and w': "w' = (if x = Some True then snd (observe u) else u)"
  have "extends S w u"
    using extends_trans [OF open_extends loop_extends [OF l [unfolded v] look_events(2)]] .
  also have "extends S u w'" using w' by simp
  finally show ?thesis .
qed (simp add: open_extends)

lemma ping_extends: "ping target timeout (e, w) = (r, e', w') \<Longrightarrow> extends S w w'"
proof (erule ping_cases)
  fix x v
  assume v: "v = emit (EchoSent target icmp_ident icmp_sequence icmp_payload) (snd (observe w))"
    and l: "engine_loop (clock v + timeout) (ping_look target) () v = (x, w')"
  have "extends S w v" using extends_trans [OF extends_observe extends_emit [OF echoes]] v by simp
  also have "extends S v w'" by (rule loop_extends [OF l look_events(3)])
  finally show ?thesis .
qed simp

lemma engine_command_extends:
  "(\<And>target request timeout. c = HttpCmd target request timeout \<Longrightarrow> request \<in> R) \<Longrightarrow>
     engine_command c (e, w) = (r, e', w') \<Longrightarrow> extends S w w'"
  by (cases c) (auto split: prod.splits dest: http_extends probe_extends ping_extends)

lemma tunnel_call_extends:
  assumes "\<And>target request timeout. c = HttpCmd target request timeout \<Longrightarrow> request \<in> R"
  shows "tunnel_call c (t, w) = (r, t', w') \<Longrightarrow> extends S w w'"
  by (erule tunnel_call_cases) (auto intro: extends_trans [OF extends_observe engine_command_extends [OF assms]])

lemma tunnel_extends:
  "request \<in> R \<Longrightarrow> tunnel_http target request timeout (t, w) = (r, t', w') \<Longrightarrow> extends S w w'"
  "tunnel_probe target timeout (t, w) = (b, t', w') \<Longrightarrow> extends S w w'"
  "tunnel_ping address timeout (t, w) = (b, t', w') \<Longrightarrow> extends S w w'"
  by (auto simp: tunnel_http_def tunnel_probe_def tunnel_ping_def split: prod.splits dest: tunnel_call_extends [rotated])

end

text \<open>The events of the sockets, as opposed to those of devices and interfaces.\<close>

definition socket_events :: "net_event set" where
  "socket_events = {ev. (\<forall>c. ev \<noteq> DeviceBuilt c) \<and> ev \<noteq> DeviceDropped \<and> (\<forall>a g. ev \<noteq> IfaceUp a g)}"

interpretation sockets: event_class socket_events UNIV
  by unfold_locales (simp_all add: socket_events_def)

text \<open>All events, but of sending only those of pieces of the requests in \<open>R\<close>.\<close>

definition only_sends :: "string set \<Rightarrow> net_event set" where
  "only_sends R = {ev. \<forall>s. ev = TcpSent s \<longrightarrow> (\<exists>request \<in> R. prefix s request)}"

interpretation sending: event_class "only_sends R" R for R
  by unfold_locales (auto simp: only_sends_def)

text \<open>\<open>kept s s'\<close>: a call on the tunnel used sockets only and left the backend as it was.\<close>

definition kept :: "backend_state \<Rightarrow> backend_state \<Rightarrow> bool" where
  "kept s s' \<longleftrightarrow> extends socket_events (snd s) (snd s') \<and>
     be_profile (fst s') = be_profile (fst s) \<and> be_fritz_address (fst s') = be_fritz_address (fst s) \<and>
     (be_tunnel (fst s') = None \<longleftrightarrow> be_tunnel (fst s) = None)"

lemma use_tunnel_kept:
  assumes "\<And>t w r t' w'. call (t, w) = (r, t', w') \<Longrightarrow> extends socket_events w w'"
  shows "kept s (snd (use_tunnel call s))"
proof (cases s)
  case (Pair b w)
  show ?thesis
  proof (cases "be_tunnel b")
    case (Some t)
    obtain r t' w' where c: "call (t, w) = (r, t', w')" by (metis prod.collapse)
    with assms [OF c] Pair Some show ?thesis by (simp add: use_tunnel_def kept_def)
  qed (simp add: use_tunnel_def kept_def Pair)
qed

lemma hosts_action_kept: "kept s (snd (hosts_action action args s))"
  using use_tunnel_kept [OF sockets.tunnel_extends(1) [OF UNIV_I]]
  by (simp add: hosts_action_def Let_def case_prod_beta)

lemma host_calls_kept:
  "kept s (snd (host_entry mac s))" "kept s (snd (host_active wide mac s))"
  "kept s (snd (host_ipv4 wide mac s))" "kept s (snd (send_wake mac s))"
  using hosts_action_kept
  by (simp_all add: host_entry_def host_active_def host_ipv4_def send_wake_def case_prod_beta)

lemma ping_ipv4_kept: "kept s (snd (ping_ipv4 target timeout s))" "kept s (snd (backend_probe a s))"
  using use_tunnel_kept [OF sockets.tunnel_extends(3)] by (simp_all add: ping_ipv4_def backend_probe_def)

text \<open>Connecting, by how far it gets.\<close>

definition built :: "net_event list \<Rightarrow> nat" where
  "built evs = length (filter (\<lambda>ev. \<exists>c. ev = DeviceBuilt c) evs)"

definition dropped :: "net_event list \<Rightarrow> nat" where
  "dropped evs = length (filter (\<lambda>ev. ev = DeviceDropped) evs)"

lemma built_dropped_simps [simp]:
  "built [] = 0" "dropped [] = 0"
  "built (evs @ evs') = built evs + built evs'" "dropped (evs @ evs') = dropped evs + dropped evs'"
  "built (DeviceBuilt c # evs) = Suc (built evs)" "dropped (DeviceBuilt c # evs) = dropped evs"
  "built (DeviceDropped # evs) = built evs" "dropped (DeviceDropped # evs) = Suc (dropped evs)"
  "built (IfaceUp a g # evs) = built evs" "dropped (IfaceUp a g # evs) = dropped evs"
  by (simp_all add: built_def dropped_def)

lemma socket_events_count:
  "set evs \<subseteq> socket_events \<Longrightarrow> built evs = 0 \<and> dropped evs = 0"
  by (auto simp: built_def dropped_def filter_empty_conv socket_events_def)

definition counts :: "outside \<Rightarrow> nat \<times> nat" where
  "counts w = (built (log w), dropped (log w))"

lemma extends_counts: "extends socket_events w w' \<Longrightarrow> counts w' = counts w"
  using socket_events_count by (auto simp: extends_def counts_def)

lemma tunnel_connect_extends:
  assumes "tunnel_connect p w = (r, w')"
  shows "extends UNIV w w' \<and> (case r of Err _ \<Rightarrow> counts w' = counts w
    | Ok t \<Rightarrow> counts w' = (Suc (fst (counts w)), snd (counts w)))"
  using assms
  by (auto simp: tunnel_connect_def extends_def never_back_def counts_def engine_new_def Let_def case_prod_beta
      split: sum.splits)

lemma tunnel_shutdown_extends:
  "extends UNIV w (tunnel_shutdown w)" "counts (tunnel_shutdown w) = (fst (counts w), Suc (snd (counts w)))"
  by (simp_all add: tunnel_shutdown_def extends_emit counts_def)

lemma store_tunnel_simps:
  "extends UNIV w (snd (store_tunnel t (b, w)))"
  "fst (store_tunnel t (b, w)) = b\<lparr>be_tunnel := t\<rparr>"
  "counts (snd (store_tunnel t (b, w))) = (fst (counts w), snd (counts w) + (if be_tunnel b = None then 0 else 1))"
  by (auto simp: store_tunnel_def tunnel_shutdown_extends)

text \<open>Every device built is held by the backend or has been dropped.\<close>

definition balanced :: "backend_state \<Rightarrow> bool" where
  "balanced s \<longleftrightarrow> built (log (snd s)) = dropped (log (snd s)) + (if be_tunnel (fst s) = None then 0 else 1)"

lemma balanced_counts:
  "balanced s \<longleftrightarrow> fst (counts (snd s)) = snd (counts (snd s)) + (if be_tunnel (fst s) = None then 0 else 1)"
  by (simp add: balanced_def counts_def)

lemma kept_balanced: "kept s s' \<Longrightarrow> balanced s \<longleftrightarrow> balanced s'"
  by (auto simp: balanced_counts kept_def dest!: extends_counts)

lemma backend_connect_facts:
  "extends UNIV w (snd (snd (backend_connect (b, w)))) \<and>
   be_profile (fst (snd (backend_connect (b, w)))) = be_profile b \<and>
   be_fritz_address (fst (snd (backend_connect (b, w)))) = be_fritz_address b \<and>
   (balanced (b, w) \<longrightarrow> balanced (snd (backend_connect (b, w))))"
proof -
  obtain r v where c: "tunnel_connect (be_profile b) w = (r, v)" by force
  note c' = tunnel_connect_extends [OF c]
  show ?thesis
  proof (cases r)
    case (Inl e)
    with c c' show ?thesis by (simp add: backend_connect_def balanced_counts)
  next
    case (Inr t)
    obtain q t' u where p: "tunnel_probe (be_fritz_address b) (from_secs 8) (t, v) = (q, t', u)"
      by (metis prod.collapse)
    have u: "extends UNIV w u" "counts u = (Suc (fst (counts w)), snd (counts w))"
      using c' Inr extends_trans [OF _ extends_mono [OF sockets.tunnel_extends(2) [OF p]]]
        extends_counts [OF sockets.tunnel_extends(2) [OF p]] by auto
    have "backend_connect (b, w) =
      (case q of Err e \<Rightarrow> (Err (to_backend_error e), (b, tunnel_shutdown u))
       | Ok reachable \<Rightarrow>
           if \<not> reachable then (Err (WakeBackendError (''FRITZ!Box '' @ show_socket_v4 (be_fritz_address b) @
                '' was not reachable through WireGuard'')), (b, tunnel_shutdown u))
           else (Ok (), store_tunnel (Some t') (b, u)))"
      using c Inr p by (simp add: backend_connect_def split: sum.split)
    with u show ?thesis
      by (auto simp: balanced_counts store_tunnel_simps tunnel_shutdown_extends split: sum.splits
          intro: extends_trans [OF u(1)] tunnel_shutdown_extends store_tunnel_simps)
  qed
qed

lemmas kept_calls_balanced =
  host_calls_kept [THEN kept_balanced] ping_ipv4_kept [THEN kept_balanced]

text \<open>The two relations every call of the backend respects.\<close>

definition advances :: "wake_world \<Rightarrow> wake_world \<Rightarrow> bool" where
  "advances = (\<lambda>(s, l) (s', l'). extends UNIV (snd s) (snd s') \<and>
     be_profile (fst s') = be_profile (fst s) \<and> be_fritz_address (fst s') = be_fritz_address (fst s))"

lemma kept_advances: "kept s s' \<Longrightarrow> advances (s, l) (s', l')"
  by (auto simp: advances_def kept_def intro: extends_mono)

interpretation backend_progress: wake_progress "backend_env wide" advances for wide
proof
  fix u v w :: wake_world
  assume "advances u v" "advances v w"
  then show "advances u w" by (auto simp: advances_def intro: extends_trans)
next
  fix w :: wake_world
  show "advances w (snd (env_connect (backend_env wide) w))"
    using backend_connect_facts by (auto simp: backend_env_def on_backend_def advances_def split: prod.splits)
  show "advances w (env_disconnect (backend_env wide) w)"
    using store_tunnel_simps
    by (auto simp: backend_env_def backend_disconnect_def advances_def split: prod.splits)
  show "advances w w" by (auto simp: advances_def)
next
  fix w :: wake_world and m a d s
  show "advances w (snd (env_resolve (backend_env wide) m w))" "advances w (snd (env_send_wake (backend_env wide) m w))"
    "advances w (snd (env_probe (backend_env wide) a w))"
    using kept_advances host_calls_kept ping_ipv4_kept
    by (auto simp: backend_env_def on_backend_def split: prod.splits)
  show "advances w (env_report (backend_env wide) s w)" "advances w (env_sleep (backend_env wide) d w)"
    by (auto simp: backend_env_def advances_def split: prod.splits)
qed

interpretation backend_devices: wake_invariant "backend_env wide" "\<lambda>w. balanced (fst w)" for wide
proof
  fix w :: wake_world
  show "balanced (fst w) \<longrightarrow> balanced (fst (snd (env_connect (backend_env wide) w)))"
    using backend_connect_facts by (auto simp: backend_env_def on_backend_def split: prod.splits)
  show "balanced (fst w) \<longrightarrow> balanced (fst (env_disconnect (backend_env wide) w))"
    using store_tunnel_simps
    by (auto simp: backend_env_def backend_disconnect_def balanced_counts split: prod.splits)
next
  fix w :: wake_world and m a d s
  show "balanced (fst w) \<longrightarrow> balanced (fst (snd (env_resolve (backend_env wide) m w)))"
    "balanced (fst w) \<longrightarrow> balanced (fst (snd (env_send_wake (backend_env wide) m w)))"
    "balanced (fst w) \<longrightarrow> balanced (fst (snd (env_probe (backend_env wide) a w)))"
    by (auto simp: backend_env_def on_backend_def kept_calls_balanced [symmetric] split: prod.splits)
  show "balanced (fst w) \<longrightarrow> balanced (fst (env_report (backend_env wide) s w))"
    "balanced (fst w) \<longrightarrow> balanced (fst (env_sleep (backend_env wide) d w))"
    by (auto simp: backend_env_def balanced_def split: prod.splits)
qed auto

lemma probe_bound:
  assumes "n \<le> 1 \<or> (n - 2) * from_millis 250 < from_mins 1"
  shows "n \<le> 241"
  using assms by (auto simp: from_millis_def from_mins_def from_secs_def)

text \<open>C8: \<^bold>\<open>a wake attempt over WireGuard always ends\<close>. Whatever the peer, the FRITZ!Box and the
  PC answer, and however long they take, a wake attempt with the program's target settings returns,
  after at most 241 readiness probes.\<close>

theorem backend_run_wake_ends:
  "\<exists>r s' tr. run_wake (traced (backend_env wide)) (wake_target_new mac) (s, []) = Some (r, s', tr) \<and> probes tr \<le> 241"
proof -
  let ?t = "wake_target_new mac"
  have "0 < probe_interval ?t" by (simp add: wake_target_new_def from_millis_def)
  then obtain r s' tr where run: "run_wake (traced (backend_env wide)) ?t (s, []) = Some (r, s', tr)"
    using wake_clock.run_returns [OF traced_wake_clock [OF backend.wake_clock_axioms]] by (metis prod.collapse)
  have "probes tr \<le> 241"
    using backend.run_probes [OF run] by (intro probe_bound) (simp add: wake_target_new_def)
  with run show ?thesis by blast
qed

text \<open>C13: \<^bold>\<open>no tunnel outlives its attempt\<close>. However a wake attempt ends, and wherever it
  failed, the backend holds no tunnel afterwards and every WireGuard device ever built has been
  dropped.\<close>

theorem wake_drops_devices:
  assumes "run_wake (backend_env wide) t (s, l) = Some (r, s', l')" and "balanced s"
  shows "be_tunnel (fst s') = None \<and> built (log (snd s')) = dropped (log (snd s'))"
proof -
  have "be_tunnel (fst (backend_disconnect q)) = None" for q
    by (cases q) (simp add: backend_disconnect_def store_tunnel_simps)
  then have "be_tunnel (fst s') = None"
    using assms(1)
    by (auto simp: run_wake_def Let_def backend_env_def split: option.splits sum.splits prod.splits)
  moreover have "balanced s'" using backend_devices.run_invariant [OF assms(1)] assms(2) by simp
  ultimately show ?thesis by (simp add: balanced_def)
qed

definition test_backend :: backend where
  "test_backend = backend_new (sample_profile\<lparr>wg_endpoint := ''127.0.0.1:51820''\<rparr>) (Ipv4 192 168 178 1)"

lemma test_balanced: "balanced (test_backend, playing obs)"
  by (simp add: balanced_def test_backend_def backend_new_def playing_def)

theorem wake_drops_devices_witness:
  "\<exists>r b w l. run_wake (backend_env id) (wake_target_new (MacAddress [1, 2, 3, 4, 5, 6])) ((test_backend, playing []), []) =
      Some (r, (b, w), l) \<and> be_tunnel b = None \<and> built (log w) = dropped (log w)"
proof -
  let ?t = "wake_target_new (MacAddress [1, 2, 3, 4, 5, 6])"
  have "0 < probe_interval ?t" by (simp add: wake_target_new_def from_millis_def)
  then obtain r b w l where
    run: "run_wake (backend_env id) ?t ((test_backend, playing []), []) = Some (r, (b, w), l)"
    using backend.run_returns by (metis prod.collapse)
  from wake_drops_devices [OF run test_balanced] run show ?thesis by auto
qed

section \<open>The reports a receiver sees\<close>

text \<open>The collected reports are those of the log of calls.\<close>

definition collects :: "wake_world \<times> wake_event list \<Rightarrow> bool" where
  "collects x \<longleftrightarrow> (case x of ((s, l), tr) \<Rightarrow> l = reports tr)"

interpretation backend_reports: wake_invariant "traced (backend_env wide)" collects for wide
  by unfold_locales
    (auto simp: collects_def traced_def backend_env_def on_backend_def split: prod.splits)

lemma run_collects:
  assumes "run_wake (backend_env wide) t (s, []) = Some (r, s', l)"
  shows "l \<noteq> [] \<and> last l = final_state r \<and> (\<forall>st \<in> set (butlast l). under_way st)"
proof -
  obtain tr where run: "run_wake (traced (backend_env wide)) t ((s, []), []) = Some (r, (s', l), tr)"
    using traced_run [of "backend_env wide" t "(s, [])" "[]"] assms
    by (cases "run_wake (traced (backend_env wide)) t ((s, []), [])") (auto split: prod.splits)
  then have "l = reports tr"
    using backend_reports.run_invariant [OF run] by (simp add: collects_def)
  then show ?thesis using run_wake_reports_orderly [OF run] by simp
qed

lemma backend_run_ends:
  "\<exists>r s' l. run_wake (backend_env wide) (wake_target_new mac) (s, []) = Some (r, s', l)"
proof -
  have "0 < probe_interval (wake_target_new mac)" by (simp add: wake_target_new_def from_millis_def)
  then show ?thesis using backend.run_returns by (metis prod.collapse)
qed

section \<open>A successful attempt\<close>

lemma tunnel_http_exchange:
  assumes "tunnel_http target request timeout (t, w) = (Ok response, t', w')"
  shows "request \<in> set (tcp_sent (log w')) \<and> (\<exists>evs. log w' = log w @ evs \<and> tcp_sent evs = [request] \<and> tcp_received evs = response)"
proof -
  obtain x e where c: "engine_command (HttpCmd target request timeout) (tc_engine t, snd (observe w)) = (x, e, w')"
    "http_reply x = Ok response"
    using assms by (auto simp: tunnel_http_def result_simps split: prod.splits elim!: tunnel_call_cases)
  then have "http target request timeout (tc_engine t, snd (observe w)) = (Ok response, e, w')"
    by (auto split: prod.splits)
  from http_exchange [OF this] show ?thesis by auto
qed

lemma hosts_action_sent:
  assumes "hosts_action action args (b, w) = (Ok (status, response), s')"
  shows "\<exists>evs. log (snd s') = log w @ evs \<and>
      tcp_sent evs = [fritz_hosts_request (fst (be_fritz_address b)) action args] \<and>
      tcp_received evs = response \<and> http_status response = Ok status \<and> 200 \<le> status \<and> status < 300"
proof -
  let ?request = "fritz_hosts_request (fst (be_fritz_address b)) action args"
  obtain r s1 where u: "use_tunnel (tunnel_http (be_fritz_address b) ?request (from_secs 8)) (b, w) = (r, s1)"
    by (metis prod.collapse)
  then have r: "r = Ok response" "s1 = s'" "http_status response = Ok status" "200 \<le> status \<and> status < 300"
    using assms by (auto simp: hosts_action_def Let_def result_simps split: if_splits)
  from u r(1,2) obtain t t' w' where
    "tunnel_http (be_fritz_address b) ?request (from_secs 8) (t, w) = (Ok response, t', w')" "snd s' = w'"
    by (auto simp: use_tunnel_def result_simps split: option.splits prod.splits)
  from tunnel_http_exchange [OF this(1)] this(2) r show ?thesis by auto
qed

lemma backend_probe_saw:
  assumes "backend_probe a (b, w) = (Ok True, s')"
  shows "\<exists>i. cursor w \<le> i \<and> i < cursor (snd s') \<and>
    Ok (EchoReply icmp_ident icmp_sequence, V4 a) \<in> set (obs_icmp (feed w i))"
proof -
  obtain t t' w' where p: "tunnel_ping a (from_millis 750) (t, w) = (Ok True, t', w')" "snd s' = w'"
    using assms by (auto simp: backend_probe_def ping_ipv4_def use_tunnel_def result_simps split: option.splits prod.splits)
  then obtain x e where "engine_command (PingCmd a (from_millis 750)) (tc_engine t, snd (observe w)) = (x, e, w')"
    "bool_reply x = Ok True"
    by (auto simp: tunnel_ping_def result_simps split: prod.splits elim!: tunnel_call_cases)
  then have "ping a (from_millis 750) (tc_engine t, snd (observe w)) = (Ok True, e, w')"
    by (auto split: prod.splits)
  from ping_saw_reply [OF this] obtain i where "cursor (snd (observe w)) \<le> i" "i < cursor w'"
    "Ok (EchoReply icmp_ident icmp_sequence, V4 a) \<in> set (obs_icmp (feed (snd (observe w)) i))" by blast
  with p(2) show ?thesis by (intro exI [of _ i]) simp
qed

lemma advancesD:
  "advances ((b, w), l) ((b', w'), l') \<Longrightarrow>
     (\<exists>evs. log w' = log w @ evs) \<and> cursor w \<le> cursor w' \<and> feed w' = feed w \<and> be_fritz_address b' = be_fritz_address b"
  by (auto simp: advances_def extends_def never_back_def)

definition wake_founded :: "(string \<Rightarrow> string) \<Rightarrow> ipv4 \<Rightarrow> mac_address \<Rightarrow> outside \<Rightarrow> outside \<Rightarrow> bool" where
  "wake_founded wide ip mac v v' \<longleftrightarrow> (\<exists>before lookup between wake after address status i.
    log v' = log v @ before @ lookup @ between @ wake @ after \<and>
    tcp_sent lookup = [fritz_hosts_request ip ''GetSpecificHostEntry'' (mac_arguments mac)] \<and>
    fritz_host_ip wide (tcp_received lookup) = Ok address \<and>
    tcp_sent wake = [fritz_wol_request ip mac] \<and>
    http_status (tcp_received wake) = Ok status \<and> 200 \<le> status \<and> status < 300 \<and>
    cursor v \<le> i \<and> i < cursor v' \<and>
    Ok (EchoReply icmp_ident icmp_sequence, V4 address) \<in> set (obs_icmp (feed v i)))"

lemma success_founded:
  assumes run: "run_wake (backend_env wide) t ((b, w), l) = Some (Ok (), (b', w'), l')"
  shows "wake_founded wide (fst (be_fritz_address b)) (target_mac t) w w'"
proof -
  let ?E = "backend_env wide" and ?mac = "target_mac t" and ?ip = "fst (be_fritz_address b)"
  obtain a u v x where s: "advances ((b, w), l) u" "fst (env_resolve ?E ?mac u) = Ok a"
    "advances (snd (env_resolve ?E ?mac u)) v" "fst (env_send_wake ?E ?mac v) = Ok ()"
    "advances (snd (env_send_wake ?E ?mac v)) x" "fst (env_probe ?E a x) = Ok True"
    "advances (snd (env_probe ?E a x)) ((b', w'), l')"
    using backend_progress.run_success [OF run] by blast
  obtain bu wu lu bv wv lv bx wx lx where uvx: "u = ((bu, wu), lu)" "v = ((bv, wv), lv)" "x = ((bx, wx), lx)"
    by (metis prod.collapse)
  obtain ru bu2 wu2 rv bv2 wv2 rx bx2 wx2 where calls: "host_ipv4 wide ?mac (bu, wu) = (ru, bu2, wu2)"
    "send_wake ?mac (bv, wv) = (rv, bv2, wv2)" "backend_probe a (bx, wx) = (rx, bx2, wx2)"
    by (metis prod.collapse)
  have ok: "ru = Ok a" "rv = Ok ()" "rx = Ok True"
    using s(2,4,6) calls by (simp_all add: uvx backend_env_def on_backend_def)
  have steps: "advances ((b, w), l) ((bu, wu), lu)" "advances ((bu2, wu2), lu) ((bv, wv), lv)"
    "advances ((bv2, wv2), lv) ((bx, wx), lx)" "advances ((bx2, wx2), lx) ((b', w'), l')"
    using s(1,3,5,7) calls by (simp_all add: uvx backend_env_def on_backend_def)
  have keeps: "advances ((bu, wu), lu) ((bu2, wu2), lu)" "advances ((bv, wv), lv) ((bv2, wv2), lv)"
    "advances ((bx, wx), lx) ((bx2, wx2), lx)"
    using kept_advances host_calls_kept(3) [of "(bu, wu)" wide ?mac] host_calls_kept(4) [of "(bv, wv)" ?mac]
      ping_ipv4_kept(2) [of "(bx, wx)" a] calls by simp_all
  note d = steps [THEN advancesD] keeps [THEN advancesD]
  obtain status lookup where lookup: "log wu2 = log wu @ lookup"
    "tcp_sent lookup = [fritz_hosts_request ?ip ''GetSpecificHostEntry'' (mac_arguments ?mac)]"
    "fritz_host_ip wide (tcp_received lookup) = Ok a"
    using calls(1) ok(1) d
    by (auto simp: host_ipv4_def host_entry_def result_simps split: prod.splits dest!: hosts_action_sent)
  obtain st resp where "hosts_action ''X_AVM-DE_WakeOnLANByMACAddress'' (mac_arguments ?mac) (bv, wv) = (Ok (st, resp), bv2, wv2)"
    using calls(2) ok(2) by (auto simp: send_wake_def result_simps split: prod.splits)
  from hosts_action_sent [OF this] d obtain wake where wake: "log wv2 = log wv @ wake"
    "tcp_sent wake = [fritz_wol_request ?ip ?mac]" "http_status (tcp_received wake) = Ok st" "200 \<le> st" "st < 300"
    by (auto simp: fritz_wol_request_def)
  obtain i where i: "cursor wx \<le> i" "i < cursor wx2"
    "Ok (EchoReply icmp_ident icmp_sequence, V4 a) \<in> set (obs_icmp (feed wx i))"
    using backend_probe_saw [of a bx wx] calls(3) ok(3) by fastforce
  obtain e1 e2 e3 where "log wu = log w @ e1" "log wv = log wu2 @ e2" "log w' = log wv2 @ e3"
    using d by (metis append.assoc)
  then have "log w' = log w @ e1 @ lookup @ e2 @ wake @ e3" using lookup(1) wake(1) by simp
  moreover have "cursor w \<le> i" "i < cursor w'" "feed wx = feed w" using i d by simp_all
  ultimately show ?thesis unfolding wake_founded_def using lookup(2,3) wake(2-5) i(3) by metis
qed

section \<open>What is written to connections\<close>

lemma use_tunnel_sends:
  assumes "\<And>t w r t' w'. call (t, w) = (r, t', w') \<Longrightarrow> extends S w w'"
  shows "extends S (snd s) (snd (snd (use_tunnel call s)))"
proof (cases s)
  case (Pair b w)
  show ?thesis
  proof (cases "be_tunnel b")
    case (Some t)
    obtain r t' w' where c: "call (t, w) = (r, t', w')" by (metis prod.collapse)
    with assms [OF c] Pair Some show ?thesis by (simp add: use_tunnel_def)
  qed (simp add: use_tunnel_def Pair)
qed

lemma backend_connect_sends: "extends (only_sends R) w (snd (snd (backend_connect (b, w))))"
proof -
  obtain r v where c: "tunnel_connect (be_profile b) w = (r, v)" by force
  have v: "extends (only_sends R) w v"
    using c by (auto simp: tunnel_connect_def extends_def never_back_def only_sends_def engine_new_def Let_def case_prod_beta
        split: sum.splits)
  have shut: "extends (only_sends R) w (tunnel_shutdown u)" if "extends (only_sends R) w u" for u
    using that extends_trans [OF that] by (simp add: tunnel_shutdown_def extends_emit only_sends_def)
  show ?thesis
  proof (cases r)
    case (Inr t)
    obtain q t' u where p: "tunnel_probe (be_fritz_address b) (from_secs 8) (t, v) = (q, t', u)"
      by (metis prod.collapse)
    have "extends (only_sends R) w u" using extends_trans [OF v sending.tunnel_extends(2) [OF p]] .
    then show ?thesis using c Inr p shut by (auto simp: backend_connect_def store_tunnel_def split: sum.splits)
  qed (use c v in \<open>simp add: backend_connect_def\<close>)
qed

lemma backend_disconnect_sends: "extends (only_sends R) (snd s) (snd (backend_disconnect s))"
  by (cases s) (simp add: backend_disconnect_def store_tunnel_def tunnel_shutdown_def extends_emit only_sends_def)

lemma tcp_sent_only: "set evs \<subseteq> only_sends R \<Longrightarrow> s \<in> set (tcp_sent evs) \<Longrightarrow> \<exists>request \<in> R. prefix s request"
  by (induction evs rule: tcp_sent.induct) (auto simp: only_sends_def)

lemma nothing_sent: "extends (only_sends {}) w w' \<Longrightarrow> \<exists>evs. log w' = log w @ evs \<and> tcp_sent evs = []"
  using tcp_sent_only [of _ "{}"] by (fastforce simp: extends_def)

lemma backend_probe_sends: "extends (only_sends R) (snd s) (snd (snd (backend_probe a s)))"
  unfolding backend_probe_def ping_ipv4_def by (rule use_tunnel_sends [OF sending.tunnel_extends(3)])

text \<open>Waiting for the PC writes nothing.\<close>

interpretation backend_waiting: wake_waiting "backend_env wide" "\<lambda>w w'. extends (only_sends {}) (snd (fst w)) (snd (fst w'))" for wide
proof
  fix u v w :: wake_world
  assume "extends (only_sends {}) (snd (fst u)) (snd (fst v))" "extends (only_sends {}) (snd (fst v)) (snd (fst w))"
  then show "extends (only_sends {}) (snd (fst u)) (snd (fst w))" by (rule extends_trans)
next
  fix w :: wake_world and a d s
  show "extends (only_sends {}) (snd (fst w)) (snd (fst (snd (env_probe (backend_env wide) a w))))"
    using backend_probe_sends by (auto simp: backend_env_def on_backend_def split: prod.splits)
  show "extends (only_sends {}) (snd (fst w)) (snd (fst (env_report (backend_env wide) s w)))"
    "extends (only_sends {}) (snd (fst w)) (snd (fst (env_sleep (backend_env wide) d w)))"
    by (auto simp: backend_env_def split: prod.splits)
qed simp

section \<open>The calls of a successful attempt\<close>

lemma run_wake_calls:
  assumes run: "run_wake (backend_env wide) t (s, l) = Some (Ok (), s', l')"
  obtains s1 s2 s3 s4 address where "backend_connect s = (Ok (), s1)"
    "host_ipv4 wide (target_mac t) s1 = (Ok address, s2)" "send_wake (target_mac t) s2 = (Ok (), s3)"
    "\<exists>l1 l2 st. wake_loop (backend_env wide) t address st 0 (s3, l1) = Some (Ok (), s4, l2)" "s' = backend_disconnect s4"
proof -
  let ?E = "backend_env wide" and ?mac = "target_mac t"
  obtain r1 s1 r2 s2 r3 s3 where c: "backend_connect s = (r1, s1)" "host_ipv4 wide ?mac s1 = (r2, s2)" "send_wake ?mac s2 = (r3, s3)"
    by (metis prod.collapse)
  obtain s4 l4 where a: "wake_attempt ?E t (s, l @ [Connecting]) = Some (Ok (), s4, l4)" "s' = backend_disconnect s4"
    using run by (auto simp: run_wake_def Let_def backend_env_def split: option.splits sum.splits)
  from a(1) c obtain address where "r1 = Ok ()" "r2 = Ok address" "r3 = Ok ()"
    "wake_loop ?E t address (clock (snd s3)) 0 (s3, l @ [Connecting, ResolvingPc, Waking]) = Some (Ok (), s4, l4)"
    by (auto simp: wake_attempt_def backend_env_def on_backend_def split: sum.splits)
  with c a(2) that show thesis by blast
qed

lemma wait_saw:
  assumes "wake_loop (backend_env wide) t address st 0 (s, l) = Some (Ok (), s', l')"
  shows "\<exists>i. cursor (snd s) \<le> i \<and> i < cursor (snd s') \<and>
    Ok (EchoReply icmp_ident icmp_sequence, V4 address) \<in> set (obs_icmp (feed (snd s) i))"
proof -
  obtain x where "advances (s, l) x" "fst (env_probe (backend_env wide) address x) = Ok True"
    "advances (snd (env_probe (backend_env wide) address x)) (s', l')"
    using backend_progress.loop_success [OF assms] by blast
  moreover obtain bx wx lx where x: "x = ((bx, wx), lx)" by (metis prod.collapse)
  moreover obtain r b w where p: "backend_probe address (bx, wx) = (r, b, w)" by (metis prod.collapse)
  ultimately have "advances (s, l) ((bx, wx), lx)" "r = Ok True" "advances ((b, w), lx) (s', l')"
    by (simp_all add: backend_env_def on_backend_def)
  moreover from this backend_probe_saw [of address bx wx] p obtain i where "cursor wx \<le> i" "i < cursor w"
    "Ok (EchoReply icmp_ident icmp_sequence, V4 address) \<in> set (obs_icmp (feed wx i))" by fastforce
  ultimately show ?thesis
    by (cases s; cases s') (auto dest!: advancesD intro!: exI [of _ i])
qed

text \<open>C7: \<^bold>\<open>what success means\<close>. When a wake attempt over WireGuard succeeds, its connect succeeded and wrote
  nothing to a connection; then the FRITZ!Box was asked once for the host entry of the target's MAC address and
  its response holds an address; then it was sent exactly the Wake-on-LAN request for that MAC address and
  answered with a 2xx status; and only after the answer to that request an ICMP echo reply came from that very
  address. Nothing but these two requests is written to a connection by the whole attempt.\<close>

theorem wake_success_founded:
  assumes run: "run_wake (backend_env wide) t ((b, w), l) = Some (Ok (), (b', w'), l')"
  shows "\<exists>s1 s2 s3 before lookup wake after address status i.
    backend_connect (b, w) = (Ok (), s1) \<and>
    host_ipv4 wide (target_mac t) s1 = (Ok address, s2) \<and>
    send_wake (target_mac t) s2 = (Ok (), s3) \<and>
    log (snd s1) = log w @ before \<and> log (snd s2) = log (snd s1) @ lookup \<and>
    log (snd s3) = log (snd s2) @ wake \<and> log w' = log (snd s3) @ after \<and>
    tcp_sent before = [] \<and>
    tcp_sent lookup = [fritz_hosts_request (fst (be_fritz_address b)) ''GetSpecificHostEntry'' (mac_arguments (target_mac t))] \<and>
    fritz_host_ip wide (tcp_received lookup) = Ok address \<and>
    tcp_sent wake = [fritz_wol_request (fst (be_fritz_address b)) (target_mac t)] \<and>
    http_status (tcp_received wake) = Ok status \<and> 200 \<le> status \<and> status < 300 \<and>
    tcp_sent after = [] \<and>
    cursor (snd s3) \<le> i \<and> i < cursor w' \<and>
    Ok (EchoReply icmp_ident icmp_sequence, V4 address) \<in> set (obs_icmp (feed w i))"
proof -
  let ?ip = "fst (be_fritz_address b)" and ?mac = "target_mac t"
  obtain s1 s2 s3 s4 address l1 l2 st where c: "backend_connect (b, w) = (Ok (), s1)"
    "host_ipv4 wide ?mac s1 = (Ok address, s2)" "send_wake ?mac s2 = (Ok (), s3)"
    "wake_loop (backend_env wide) t address st 0 (s3, l1) = Some (Ok (), s4, l2)" "(b', w') = backend_disconnect s4"
    by (rule run_wake_calls [OF run]) blast
  obtain b1 w1 b2 w2 b3 w3 where s: "s1 = (b1, w1)" "s2 = (b2, w2)" "s3 = (b3, w3)" by (metis prod.collapse)
  have a: "advances ((b, w), l) ((b1, w1), l)" "advances ((b1, w1), l) ((b2, w2), l)" "advances ((b2, w2), l) ((b3, w3), l)"
    using backend_connect_facts [of w b] kept_advances [OF host_calls_kept(3) [of s1 wide ?mac]]
      kept_advances [OF host_calls_kept(4) [of s2 ?mac]] c(1-3) by (simp_all add: s advances_def)
  note d = a [THEN advancesD]
  obtain before where before: "log w1 = log w @ before" "tcp_sent before = []"
    using nothing_sent [OF backend_connect_sends] c(1) s(1) by (metis snd_conv)
  obtain lookup where lookup: "log w2 = log w1 @ lookup"
    "tcp_sent lookup = [fritz_hosts_request ?ip ''GetSpecificHostEntry'' (mac_arguments ?mac)]"
    "fritz_host_ip wide (tcp_received lookup) = Ok address"
    using c(2) d unfolding s
    by (auto simp: host_ipv4_def host_entry_def result_simps split: prod.splits dest!: hosts_action_sent)
  obtain status resp where "hosts_action ''X_AVM-DE_WakeOnLANByMACAddress'' (mac_arguments ?mac) (b2, w2) = (Ok (status, resp), b3, w3)"
    using c(3) unfolding s by (auto simp: send_wake_def result_simps split: prod.splits)
  from hosts_action_sent [OF this] d obtain wake where wake: "log w3 = log w2 @ wake"
    "tcp_sent wake = [fritz_wol_request ?ip ?mac]" "http_status (tcp_received wake) = Ok status" "200 \<le> status" "status < 300"
    by (auto simp: fritz_wol_request_def)
  have "extends (only_sends {}) w3 (snd s4)"
    using backend_waiting.loop_progress [OF c(4)] by (simp add: s)
  also have "extends (only_sends {}) (snd s4) w'" using backend_disconnect_sends [of "{}" s4] c(5) by (metis snd_conv)
  finally obtain after where after: "log w' = log w3 @ after" "tcp_sent after = []" using nothing_sent by blast
  obtain i where i: "cursor w3 \<le> i" "i < cursor (snd s4)"
    "Ok (EchoReply icmp_ident icmp_sequence, V4 address) \<in> set (obs_icmp (feed w3 i))"
    using wait_saw [OF c(4)] by (auto simp: s)
  have "cursor (snd s4) \<le> cursor w'"
    using backend_disconnect_sends [of "{}" s4] c(5) by (metis extends_def never_back_def snd_conv)
  moreover have "feed w3 = feed w" using d by simp
  ultimately show ?thesis
    using c(1-3) before lookup wake after i unfolding s
    by - (rule exI [of _ "(b1, w1)"], rule exI [of _ "(b2, w2)"], rule exI [of _ "(b3, w3)"], rule exI [of _ before],
        rule exI [of _ lookup], rule exI [of _ wake], rule exI [of _ after], rule exI [of _ address],
        rule exI [of _ status], rule exI [of _ i], simp)
qed

text \<open>A network on which everything works at once.\<close>

definition good_response :: string where
  "good_response = http_ok (entry_response_body (V4 (Ipv4 192 168 178 20)))"

lemma good_response_reads:
  "http_status good_response = Ok 200"
  "fritz_host_ip id good_response = Ok (Ipv4 192 168 178 20)"
proof -
  show "http_status good_response = Ok 200" by (simp add: good_response_def http_ok_status)
  obtain n where n: "good_response = entry_head n @ ''<NewIPAddress>'' @ show_ipv4 (Ipv4 192 168 178 20) @
      ''</NewIPAddress><NewActive>1</NewActive>'' @ entry_tail"
    using entry_text [of "V4 (Ipv4 192 168 178 20)"] by (auto simp: good_response_def simp del: show_ipv4.simps)
  show "fritz_host_ip id good_response = Ok (Ipv4 192 168 178 20)"
    unfolding n fritz_host_ip_def entry_ip by (simp only: and_then.simps parse_show_ipv4 ok_or.simps)
qed

definition good :: "nat \<Rightarrow> observation" where
  "good n = silent\<lparr>obs_state := Established, obs_may_send := True, obs_send := Ok n,
     obs_recv := [Ok good_response],
     obs_icmp := [Ok (EchoReply icmp_ident icmp_sequence, V4 (Ipv4 192 168 178 20))]\<rparr>"

lemma good_simps [simp]:
  "obs_delay (good n) = 0" "obs_worker (good n)" "obs_build (good n) = Ok ()" "obs_connect (good n) = Ok ()"
  "obs_state (good n) = Established" "obs_may_send (good n)" "obs_send (good n) = Ok n"
  "obs_recv (good n) = [Ok good_response]" "\<not> obs_may_recv (good n)" "obs_bind (good n) = Ok ()"
  "obs_icmp_send (good n) = Ok ()"
  "obs_icmp (good n) = [Ok (EchoReply icmp_ident icmp_sequence, V4 (Ipv4 192 168 178 20))]"
  by (simp_all add: good_def silent_def)

definition test_mac :: mac_address where "test_mac = MacAddress [1, 2, 3, 4, 5, 6]"

definition lookup_request :: string where
  "lookup_request = fritz_hosts_request (Ipv4 192 168 178 1) ''GetSpecificHostEntry'' (mac_arguments test_mac)"

definition wake_request :: string where
  "wake_request = fritz_hosts_request (Ipv4 192 168 178 1) ''X_AVM-DE_WakeOnLANByMACAddress'' (mac_arguments test_mac)"

definition good_world :: outside where
  "good_world = \<lparr>clock = 0, feed = (\<lambda>i. if i < 9 then good (length lookup_request) else good (length wake_request)),
     cursor = 0, log = []\<rparr>"

lemma test_endpoint: "parse_socket_addr ''127.0.0.1:51820'' = Some (SocketV4 (Ipv4 127 0 0 1) 51820)"
  by (simp add: parse_socket_addr_def read_socket_v4_def read_ipv4_def read_dot_octet_def read_octet_def
      read_number_def read_port_def to_digit_def)

lemmas act_simps = poll_turn_def observe_def emit_def emit_all_def Let_def add_socket_def engine_loop.simps
  open_socket_def tunnel_call_def tunnel_http_def tunnel_probe_def tunnel_ping_def use_tunnel_def http_def
  http_look_def http_send_def Tunnel.probe_def probe_look_def ping_def ping_look_def

lemma good_hosts_action:
  assumes "be_tunnel b = Some t" "be_fritz_address b = fritz"
    and "n = length (fritz_hosts_request (fst fritz) action args)"
    and "\<And>i. i < 3 \<Longrightarrow> feed w (cursor w + i) = good n"
  shows "\<exists>t' w'. hosts_action action args (b, w) = (Ok (200, good_response), b\<lparr>be_tunnel := Some t'\<rparr>, w') \<and>
    cursor w' = cursor w + 3 \<and> feed w' = feed w"
proof -
  have "feed w (cursor w) = good n" "feed w (Suc (cursor w)) = good n" "feed w (Suc (Suc (cursor w))) = good n"
    using assms(4) [of 0] assms(4) [of 1] assms(4) [of 2] by simp_all
  then show ?thesis
    using assms(1-3)
    by (simp add: hosts_action_def act_simps good_response_reads) (rule exI, rule refl)
qed

lemma good_run:
  "\<exists>b w l. run_wake (backend_env id) (wake_target_new test_mac) ((test_backend, good_world), []) = Some (Ok (), (b, w), l)"
proof -
  obtain b1 w1 t1 where connect: "backend_connect (test_backend, good_world) = (Ok (), b1, w1)" and
    b1: "be_fritz_address b1 = (Ipv4 192 168 178 1, 49000)" "be_tunnel b1 = Some t1" and
    w1: "cursor w1 = 6" "feed w1 = feed good_world"
    by (simp add: backend_connect_def tunnel_connect_def test_backend_def backend_new_def good_world_def act_simps
        resolve_endpoint_def test_endpoint engine_new_def store_tunnel_def)
  let ?get = "''GetSpecificHostEntry''" and ?wol = "''X_AVM-DE_WakeOnLANByMACAddress''"
  obtain t2 w2 where get: "hosts_action ?get (mac_arguments test_mac) (b1, w1) =
      (Ok (200, good_response), b1\<lparr>be_tunnel := Some t2\<rparr>, w2)" and w2: "cursor w2 = 9" "feed w2 = feed good_world"
    using good_hosts_action [OF b1(2,1) refl, where action = ?get and args = "mac_arguments test_mac" and w = w1] w1
    by (auto simp: good_world_def lookup_request_def)
  let ?b2 = "b1\<lparr>be_tunnel := Some t2\<rparr>"
  have b2: "be_tunnel ?b2 = Some t2" "be_fritz_address ?b2 = (Ipv4 192 168 178 1, 49000)" using b1 by simp_all
  obtain t3 w3 where wol: "hosts_action ?wol (mac_arguments test_mac) (?b2, w2) =
      (Ok (200, good_response), ?b2\<lparr>be_tunnel := Some t3\<rparr>, w3)" and w3: "cursor w3 = 12" "feed w3 = feed good_world"
    using good_hosts_action [OF b2 refl, where action = ?wol and args = "mac_arguments test_mac" and w = w2] w2
    by (auto simp: good_world_def wake_request_def)
  let ?b3 = "b1\<lparr>be_tunnel := Some t3\<rparr>"
  obtain b4 w4 where probe: "backend_probe (Ipv4 192 168 178 20) (?b3, w3) = (Ok True, b4, w4)"
    using w3 by (simp add: backend_probe_def ping_ipv4_def act_simps good_world_def)
  have "fst (host_ipv4 id test_mac (b1, w1)) = Ok (Ipv4 192 168 178 20)" "snd (host_ipv4 id test_mac (b1, w1)) = (?b2, w2)"
    "fst (send_wake test_mac (?b2, w2)) = Ok ()" "snd (send_wake test_mac (?b2, w2)) = (?b3, w3)"
    by (simp_all add: host_ipv4_def host_entry_def send_wake_def get wol good_response_reads)
  then show ?thesis
    by (simp add: run_wake_def wake_attempt_def wake_loop_unfold wake_round_def backend_env_def on_backend_def
        wake_target_new_def connect probe Let_def case_prod_beta)
qed

theorem wake_success_founded_witness:
  "\<exists>w' l' b' s2. run_wake (backend_env id) (wake_target_new test_mac) ((test_backend, good_world), []) = Some (Ok (), (b', w'), l') \<and>
     (\<exists>s3 after. send_wake test_mac s2 = (Ok (), s3) \<and> log w' = log (snd s3) @ after \<and> tcp_sent after = [] \<and>
        cursor (snd s3) < cursor w')"
proof -
  obtain b' w' l' where run: "run_wake (backend_env id) (wake_target_new test_mac) ((test_backend, good_world), []) = Some (Ok (), (b', w'), l')"
    using good_run by blast
  have f: "target_mac (wake_target_new test_mac) = test_mac" by (simp add: wake_target_new_def)
  from wake_success_founded [OF run, unfolded f] show ?thesis
  proof (elim exE conjE)
    fix s2 s3 after i
    assume "send_wake test_mac s2 = (Ok (), s3)" "log w' = log (snd s3) @ after" "tcp_sent after = []"
      "cursor (snd s3) \<le> i" "i < cursor w'"
    with run show ?thesis by (meson le_less_trans)
  qed
qed

end
