(* ===== verification/Lab_Wake.thy ===== *)
theory Lab_Wake
  imports Backend
begin

text \<open>
  Client and lab together: a wake attempt of \<open>waker-core\<close> over the backend of \<open>waker-net\<close>, on a network
  whose FRITZ!Box is the one of \<open>waker-lab\<close> and whose PC needs a while to start.
\<close>

section \<open>The network\<close>

text \<open>What the lab writes on a connection whose request arrives whole.\<close>

definition lab_reply :: "ipv4 \<Rightarrow> string \<Rightarrow> string" where
  "lab_reply pc request = (case serve (V4 pc) [Read request] of Some reply \<Rightarrow> reply | None \<Rightarrow> [])"

definition lab_exchange :: "ipv4 \<Rightarrow> string \<Rightarrow> observation" where
  "lab_exchange pc request = silent\<lparr>obs_state := Established, obs_may_send := True, obs_send := Ok (length request),
     obs_recv := [Ok (lab_reply pc request)]\<rparr>"

definition lab_lookup :: "ipv4 \<Rightarrow> mac_address \<Rightarrow> string" where
  "lab_lookup ip mac = fritz_hosts_request ip ''GetSpecificHostEntry'' (mac_arguments mac)"

text \<open>
  The connection is made, the two requests are served, \<open>k\<close> pings time out after their 750 milliseconds,
  and from then on the PC answers.
\<close>

definition lab_feed :: "ipv4 \<Rightarrow> mac_address \<Rightarrow> ipv4 \<Rightarrow> nat \<Rightarrow> nat \<Rightarrow> observation" where
  "lab_feed ip mac pc k i =
     (if i < 6 then silent\<lparr>obs_state := Established\<rparr>
      else if i < 9 then lab_exchange pc (lab_lookup ip mac)
      else if i < 12 then lab_exchange pc (fritz_wol_request ip mac)
      else if i < 12 + 4 * k then (if i mod 4 = 2 then silent\<lparr>obs_delay := from_millis 750\<rparr> else silent)
      else silent\<lparr>obs_icmp := [Ok (EchoReply icmp_ident icmp_sequence, V4 pc)]\<rparr>)"

definition lab_network :: "ipv4 \<Rightarrow> mac_address \<Rightarrow> ipv4 \<Rightarrow> nat \<Rightarrow> outside" where
  "lab_network ip mac pc k = \<lparr>clock = 0, feed = lab_feed ip mac pc k, cursor = 0, log = []\<rparr>"

section \<open>The calls on it\<close>

lemma silent_simps [simp]:
  "obs_delay silent = 0" "obs_worker silent" "obs_build silent = Ok ()" "obs_connect silent = Ok ()"
  "obs_recv silent = []" "\<not> obs_may_recv silent" "obs_bind silent = Ok ()" "obs_icmp_send silent = Ok ()" "obs_icmp silent = []"
  by (simp_all add: silent_def)

lemma lab_replies:
  "http_status (lab_reply pc (lab_lookup ip mac)) = Ok 200" "fritz_host_ip wide (lab_reply pc (lab_lookup ip mac)) = Ok pc"
  "http_status (lab_reply pc (fritz_wol_request ip mac)) = Ok 200"
proof -
  have p: "pieces_of (lab_lookup ip mac) [lab_lookup ip mac]" "pieces_of (fritz_wol_request ip mac) [fritz_wol_request ip mac]"
    by (simp_all add: pieces_of_def lab_lookup_def fritz_wol_request_def fritz_hosts_request_def Let_def)
  obtain n where n: "http_ok (entry_response_body (V4 pc)) = entry_head n @ ''<NewIPAddress>'' @ show_ipv4 pc @
      ''</NewIPAddress><NewActive>1</NewActive>'' @ entry_tail"
    using entry_text [of "V4 pc"] by auto
  have "serve (V4 pc) (map Read [lab_lookup ip mac] @ []) = Some (http_ok (entry_response_body (V4 pc)))"
    using serve_pieces [OF actions(2) _ mac_arguments_text(2), of ip mac "[lab_lookup ip mac]"] p(1)
    by (simp add: entry_response lab_lookup_def)
  then have entry: "lab_reply pc (lab_lookup ip mac) = http_ok (entry_response_body (V4 pc))" by (simp add: lab_reply_def)
  have "serve (V4 pc) (map Read [fritz_wol_request ip mac] @ []) = Some (http_ok wake_response_body)"
    using serve_pieces [OF actions(1) _ mac_arguments_text(2), of ip mac "[fritz_wol_request ip mac]"] p(2)
    by (simp add: wake_response fritz_wol_request_def [symmetric])
  then have wake: "lab_reply pc (fritz_wol_request ip mac) = http_ok wake_response_body" by (simp add: lab_reply_def)
  show "http_status (lab_reply pc (lab_lookup ip mac)) = Ok 200" "http_status (lab_reply pc (fritz_wol_request ip mac)) = Ok 200"
    by (simp_all add: entry wake http_ok_status)
  show "fritz_host_ip wide (lab_reply pc (lab_lookup ip mac)) = Ok pc"
    unfolding entry n fritz_host_ip_def entry_ip by (simp add: parse_show_ipv4)
qed

lemma lab_exchanged:
  assumes "be_tunnel b = Some t" "be_fritz_address b = (ip, port)" "request = fritz_hosts_request ip action args"
    and "\<And>i. i < 3 \<Longrightarrow> feed w (cursor w + i) = lab_exchange pc request"
    and "http_status (lab_reply pc request) = Ok 200"
  shows "\<exists>t' w'. hosts_action action args (b, w) = (Ok (200, lab_reply pc request), b\<lparr>be_tunnel := Some t'\<rparr>, w') \<and>
    cursor w' = cursor w + 3 \<and> feed w' = feed w \<and> clock w' = clock w"
proof -
  have "feed w (cursor w) = lab_exchange pc request" "feed w (Suc (cursor w)) = lab_exchange pc request"
    "feed w (Suc (Suc (cursor w))) = lab_exchange pc request"
    using assms(4) [of 0] assms(4) [of 1] assms(4) [of 2] by simp_all
  then show ?thesis
    using assms(1-3,5)
    by (simp add: hosts_action_def act_simps lab_exchange_def) (rule exI, rule refl)
qed

lemma lab_connected:
  assumes "parse_socket_addr (wg_endpoint p) = Some endpoint"
  shows "\<exists>t w. backend_connect (backend_new p ip, lab_network ip mac pc k) =
      (Ok (), (backend_new p ip)\<lparr>be_tunnel := Some t\<rparr>, w) \<and>
    cursor w = 6 \<and> feed w = lab_feed ip mac pc k \<and> clock w = 0"
  using assms
  by (simp add: backend_connect_def tunnel_connect_def backend_new_def lab_network_def lab_feed_def act_simps
      resolve_endpoint_def engine_new_def store_tunnel_def)

lemma lab_missed:
  assumes "be_tunnel b = Some t" "feed w (cursor w) = silent" "feed w (cursor w + 1) = silent"
    "feed w (cursor w + 2) = silent\<lparr>obs_delay := from_millis 750\<rparr>"
  shows "\<exists>t' w'. backend_probe pc (b, w) = (Ok False, b\<lparr>be_tunnel := Some t'\<rparr>, w') \<and>
    cursor w' = cursor w + 3 \<and> feed w' = feed w \<and> clock w' = clock w + from_millis 750"
  using assms by (simp add: backend_probe_def ping_ipv4_def act_simps) (rule exI, rule refl)

lemma lab_answered:
  assumes "be_tunnel b = Some t"
    "\<And>i. i < 3 \<Longrightarrow> feed w (cursor w + i) = silent\<lparr>obs_icmp := [Ok (EchoReply icmp_ident icmp_sequence, V4 pc)]\<rparr>"
  shows "\<exists>s. backend_probe pc (b, w) = (Ok True, s)"
  using assms(1) assms(2) [of 0] assms(2) [of 1] assms(2) [of 2]
  by (simp add: backend_probe_def ping_ipv4_def act_simps)


section \<open>The attempt\<close>

text \<open>
  A round that misses takes 750 milliseconds and the pause after it. \<open>patience t\<close> is the number of rounds
  that may miss before the next one that does is the last.
\<close>

definition round_time :: "wake_target \<Rightarrow> duration" where
  "round_time t = from_millis 750 + probe_interval t"

definition patience :: "wake_target \<Rightarrow> nat" where
  "patience t = (probe_timeout t - from_millis 750 + (round_time t - 1)) div round_time t"

lemma patience_le: "patience t \<le> j \<longleftrightarrow> probe_timeout t \<le> j * round_time t + from_millis 750"
proof -
  have p: "0 < round_time t" by (simp add: round_time_def from_millis_def)
  have "patience t \<le> j \<longleftrightarrow> probe_timeout t - from_millis 750 + (round_time t - 1) < Suc j * round_time t"
    using div_less_iff_less_mult [OF p] by (simp only: patience_def less_Suc_eq_le [symmetric])
  then show ?thesis using p by auto
qed

definition rounds :: "nat \<Rightarrow> nat \<Rightarrow> wake_state list" where
  "rounds j n = map (\<lambda>i. WaitingForPc (numbered (Suc i))) [j..<Suc n]"

lemma rounds_step: "j < n \<Longrightarrow> rounds j n = WaitingForPc (numbered (Suc j)) # rounds (Suc j) n"
  by (simp add: rounds_def upt_rec [of j])

lemma rounds_last: "rounds j j = [WaitingForPc (numbered (Suc j))]"
  by (simp add: rounds_def)

definition lab_result :: "wake_target \<Rightarrow> nat \<Rightarrow> wake_failure + unit" where
  "lab_result t k = (if k \<le> patience t then Ok () else Err (timeout_failure t))"

lemma lab_turn:
  assumes "j < k" "be_tunnel b = Some u" "feed w = lab_feed ip mac pc k" "cursor w = 12 + 4 * j"
    "clock w = j * round_time t"
  obtains w' u' where "backend_probe pc (b, w) = (Ok False, b\<lparr>be_tunnel := Some u'\<rparr>, w')"
    "clock w' = j * round_time t + from_millis 750" "feed (sleep (probe_interval t) w') = lab_feed ip mac pc k"
    "cursor (sleep (probe_interval t) w') = 12 + 4 * Suc j" "clock (sleep (probe_interval t) w') = Suc j * round_time t"
proof -
  have at: "feed w (cursor w) = silent" "feed w (cursor w + 1) = silent"
    "feed w (cursor w + 2) = silent\<lparr>obs_delay := from_millis 750\<rparr>" "feed w (cursor w + 3) = silent"
    using assms by (simp_all add: lab_feed_def)
  obtain u' w' where probe: "backend_probe pc (b, w) = (Ok False, b\<lparr>be_tunnel := Some u'\<rparr>, w')" and
    w': "cursor w' = cursor w + 3" "feed w' = feed w" "clock w' = clock w + from_millis 750"
    using lab_missed [OF assms(2) at(1-3), of pc] by blast
  have "feed w' (cursor w') = silent" using w' at(4) by simp
  with w' assms probe show ?thesis
    by (intro that [of u' w']) (simp_all add: sleep_def observe_def Let_def round_time_def)
qed

lemma lab_loop:
  assumes "j \<le> min k (patience t)" "be_tunnel b = Some u" "feed w = lab_feed ip mac pc k" "cursor w = 12 + 4 * j"
    "clock w = j * round_time t"
  shows "\<exists>s. wake_loop (backend_env wide) t pc 0 (numbered j) ((b, w), l) =
    Some (lab_result t k, s, l @ rounds j (min k (patience t)) @ (if k \<le> patience t then [Awake] else []))"
  using assms
proof (induction "min k (patience t) - j" arbitrary: j b u w l)
  case 0
  then have j: "j = min k (patience t)" by simp
  show ?case
  proof (cases "k \<le> patience t")
    case True
    then have f: "feed w (cursor w + i) = silent\<lparr>obs_icmp := [Ok (EchoReply icmp_ident icmp_sequence, V4 pc)]\<rparr>" for i
      using 0 j by (simp add: lab_feed_def)
    from lab_answered [OF 0(3) f] obtain s where "backend_probe pc (b, w) = (Ok True, s)" by blast
    then show ?thesis using j True
      by (simp add: wake_loop_unfold wake_round_def backend_env_def on_backend_def saturating_numbered rounds_last lab_result_def)
  next
    case False
    then have jk: "j < k" "j = patience t" using j by simp_all
    obtain w' u' where p: "backend_probe pc (b, w) = (Ok False, b\<lparr>be_tunnel := Some u'\<rparr>, w')"
      "clock w' = j * round_time t + from_millis 750"
      by (rule lab_turn [OF jk(1) 0(3-6)])
    have "probe_timeout t \<le> clock w'" using patience_le [of t j] jk(2) p(2) by simp
    then show ?thesis using False jk(2) p(1)
      by (simp add: wake_loop_unfold wake_round_def backend_env_def on_backend_def saturating_numbered rounds_last lab_result_def)
  qed
next
  case (Suc d)
  then have j: "j < k" "j < patience t" "d = min k (patience t) - Suc j" by simp_all
  obtain w' u' where p: "backend_probe pc (b, w) = (Ok False, b\<lparr>be_tunnel := Some u'\<rparr>, w')"
    "clock w' = j * round_time t + from_millis 750" and
    w': "feed (sleep (probe_interval t) w') = lab_feed ip mac pc k" "cursor (sleep (probe_interval t) w') = 12 + 4 * Suc j"
      "clock (sleep (probe_interval t) w') = Suc j * round_time t"
    by (rule lab_turn [OF j(1) Suc.prems(2-5)])
  have "clock w' < probe_timeout t" using patience_le [of t j] j(2) p(2) by simp
  moreover from Suc.hyps(1) [OF j(3) _ _ w', of "b\<lparr>be_tunnel := Some u'\<rparr>" u' "l @ [WaitingForPc (numbered (Suc j))]"] j(1,2)
  obtain s where "wake_loop (backend_env wide) t pc 0 (numbered (Suc j))
      ((b\<lparr>be_tunnel := Some u'\<rparr>, sleep (probe_interval t) w'), l @ [WaitingForPc (numbered (Suc j))]) =
    Some (lab_result t k, s, (l @ [WaitingForPc (numbered (Suc j))]) @ rounds (Suc j) (min k (patience t)) @
      (if k \<le> patience t then [Awake] else []))" by auto
  ultimately show ?case using rounds_step [of j "min k (patience t)"] j(1,2)
    by (subst wake_loop_unfold) (simp add: wake_round_def backend_env_def on_backend_def saturating_numbered p(1))
qed

lemma lab_wake_runs:
  assumes "parse_socket_addr (wg_endpoint p) = Some endpoint"
  shows "\<exists>s. run_wake (backend_env wide) t ((backend_new p ip, lab_network ip (target_mac t) pc k), []) =
    Some (lab_result t k, s, [Connecting, ResolvingPc, Waking] @ rounds 0 (min k (patience t)) @ [final_state (lab_result t k)])"
proof -
  let ?mac = "target_mac t" and ?get = "''GetSpecificHostEntry''" and ?wol = "''X_AVM-DE_WakeOnLANByMACAddress''"
  obtain u1 w1 where connect: "backend_connect (backend_new p ip, lab_network ip ?mac pc k) =
      (Ok (), (backend_new p ip)\<lparr>be_tunnel := Some u1\<rparr>, w1)" and
    w1: "cursor w1 = 6" "feed w1 = lab_feed ip ?mac pc k" "clock w1 = 0"
    using lab_connected [OF assms(1), of ip ?mac pc k] by blast
  let ?b = "\<lambda>u. (backend_new p ip)\<lparr>be_tunnel := Some u\<rparr>"
  have b: "be_tunnel (?b u) = Some u" "be_fritz_address (?b u) = (ip, 49000)" for u by (simp_all add: backend_new_def)
  obtain u2 w2 where get: "hosts_action ?get (mac_arguments ?mac) (?b u1, w1) = (Ok (200, lab_reply pc (lab_lookup ip ?mac)), ?b u2, w2)"
    and w2: "cursor w2 = 9" "feed w2 = lab_feed ip ?mac pc k" "clock w2 = 0"
    using lab_exchanged [OF b(1) [of u1] b(2), of "lab_lookup ip ?mac" ?get "mac_arguments ?mac" w1 pc] w1 lab_replies
    by (auto simp: lab_lookup_def lab_feed_def)
  obtain u3 w3 where wol: "hosts_action ?wol (mac_arguments ?mac) (?b u2, w2) = (Ok (200, lab_reply pc (fritz_wol_request ip ?mac)), ?b u3, w3)"
    and w3: "cursor w3 = 12" "feed w3 = lab_feed ip ?mac pc k" "clock w3 = 0"
    using lab_exchanged [OF b(1) [of u2] b(2), of "fritz_wol_request ip ?mac" ?wol "mac_arguments ?mac" w2 pc] w2 lab_replies
    by (auto simp: fritz_wol_request_def lab_feed_def)
  have calls: "fst (host_ipv4 wide ?mac (?b u1, w1)) = Ok pc" "snd (host_ipv4 wide ?mac (?b u1, w1)) = (?b u2, w2)"
    "fst (send_wake ?mac (?b u2, w2)) = Ok ()" "snd (send_wake ?mac (?b u2, w2)) = (?b u3, w3)"
    by (simp_all add: host_ipv4_def host_entry_def send_wake_def get wol lab_replies)
  obtain s where "wake_loop (backend_env wide) t pc 0 (numbered 0) ((?b u3, w3), [Connecting, ResolvingPc, Waking]) =
      Some (lab_result t k, s, [Connecting, ResolvingPc, Waking] @ rounds 0 (min k (patience t)) @ (if k \<le> patience t then [Awake] else []))"
    using lab_loop [OF _ b(1) [of u3] w3(2), where j = 0 and t = t and wide = wide and l = "[Connecting, ResolvingPc, Waking]"] w3
    by (auto simp del: split_paired_Ex)
  moreover have "numbered 0 = 0" by (simp add: numbered_def)
  moreover have "env_now (backend_env wide) ((?b u3, w3), x) = 0" for x by (simp add: backend_env_def w3(3))
  ultimately show ?thesis
    by (simp add: run_wake_def wake_attempt_def backend_env_def on_backend_def connect calls lab_result_def
        Let_def case_prod_beta)
qed

text \<open>C26: \<^bold>\<open>a PC is woken exactly if it starts in time\<close>. On a network with the lab's FRITZ!Box, whatever the
  profile with a literal endpoint, the addresses and the MAC address, and however many pings the PC misses while
  it starts: the attempt reports each step and each round once, in order; it succeeds just when the misses are
  at most its patience, and otherwise gives up with the timeout after the first miss beyond it.\<close>

theorem lab_wake_exact:
  assumes "parse_socket_addr (wg_endpoint p) = Some endpoint"
  shows "\<exists>s r. run_wake (backend_env wide) t ((backend_new p ip, lab_network ip (target_mac t) pc k), []) =
    Some (r, s, [Connecting, ResolvingPc, Waking] @ map (\<lambda>i. WaitingForPc (numbered (Suc i))) [0..<Suc (min k (patience t))] @
      [if r = Ok () then Awake else Core_Types.Failed (timeout_failure t)]) \<and>
    (r = Ok () \<longleftrightarrow> k \<le> patience t) \<and> (r \<noteq> Ok () \<longrightarrow> r = Err (timeout_failure t))"
proof -
  obtain s where "run_wake (backend_env wide) t ((backend_new p ip, lab_network ip (target_mac t) pc k), []) =
    Some (lab_result t k, s, [Connecting, ResolvingPc, Waking] @ rounds 0 (min k (patience t)) @ [final_state (lab_result t k)])"
    using lab_wake_runs [OF assms] by blast
  then show ?thesis
    by (intro exI [of _ s] exI [of _ "lab_result t k"]) (simp add: rounds_def lab_result_def)
qed

text \<open>With the program's own target, sixty pings may miss.\<close>

lemma default_patience: "patience (wake_target_new mac) = 60"
  by (simp add: patience_def round_time_def wake_target_new_def from_millis_def from_mins_def from_secs_def)

theorem lab_wake_exact_witness:
  "\<exists>s. run_wake (backend_env id) (wake_target_new test_mac)
     ((backend_new sample_profile (Ipv4 192 168 178 1), lab_network (Ipv4 192 168 178 1) test_mac (Ipv4 10 231 0 1) 2), []) =
   Some (Ok (), s, [Connecting, ResolvingPc, Waking, WaitingForPc 1, WaitingForPc 2, WaitingForPc 3, Awake])"
proof -
  have e: "parse_socket_addr (wg_endpoint sample_profile) = Some (SocketV4 (Ipv4 127 0 0 1) 51820)"
    by (simp add: sample_profile_def test_endpoint)
  have n: "map (\<lambda>i. WaitingForPc (numbered (Suc i))) [0..<Suc 2] = [WaitingForPc 1, WaitingForPc 2, WaitingForPc 3]"
    by (simp add: numbered_def upt_rec)
  have m: "target_mac (wake_target_new test_mac) = test_mac" by (simp add: wake_target_new_def)
  have k: "min 2 (patience (wake_target_new test_mac)) = 2" "(2 :: nat) \<le> patience (wake_target_new test_mac)"
    by (simp_all add: default_patience)
  show ?thesis
    using lab_wake_exact [OF e, of id "wake_target_new test_mac" "Ipv4 192 168 178 1" "Ipv4 10 231 0 1" 2]
    unfolding m k(1) n using k(2) by auto
qed

end
