(* ===== verification/Channel.thy ===== *)
theory Channel
  imports Prelude
begin

text \<open>
  The channels of \<open>std::sync::mpsc\<close> and \<open>tokio::sync::mpsc\<close> that the program's threads and
  tasks talk over, and the contract their users rely on: what is sent while the receiver lives is
  received once, in order.
\<close>

section \<open>Channels\<close>

record 'a channel =
  ch_queue :: "'a list"
  ch_senders :: bool
  ch_receiver :: bool

definition new_channel :: "'a channel" where
  "new_channel = \<lparr>ch_queue = [], ch_senders = True, ch_receiver = True\<rparr>"

text \<open>\<open>send\<close> fails, giving its argument back, when the receiver is gone.\<close>

definition send :: "'a \<Rightarrow> 'a channel \<Rightarrow> ('a + unit) \<times> 'a channel" where
  "send x c = (if ch_receiver c then (Ok (), c\<lparr>ch_queue := ch_queue c @ [x]\<rparr>) else (Err x, c))"

datatype 'a received = Received 'a | Empty | Disconnected

definition try_recv :: "'a channel \<Rightarrow> 'a received \<times> 'a channel" where
  "try_recv c =
     (case ch_queue c of
        x # xs \<Rightarrow> (Received x, c\<lparr>ch_queue := xs\<rparr>)
      | [] \<Rightarrow> (if ch_senders c then Empty else Disconnected, c))"

definition drop_senders :: "'a channel \<Rightarrow> 'a channel" where
  "drop_senders c = c\<lparr>ch_senders := False\<rparr>"

definition drop_receiver :: "'a channel \<Rightarrow> 'a channel" where
  "drop_receiver c = c\<lparr>ch_receiver := False\<rparr>"

lemma try_recv_cases:
  obtains (message) x xs where "ch_queue c = x # xs" "try_recv c = (Received x, c\<lparr>ch_queue := xs\<rparr>)"
    | (nothing) "ch_queue c = []" "ch_senders c" "try_recv c = (Empty, c)"
    | (disconnected) "ch_queue c = []" "\<not> ch_senders c" "try_recv c = (Disconnected, c)"
  by (cases "ch_queue c"; cases "ch_senders c") (auto simp: try_recv_def)

section \<open>The contract\<close>

text \<open>
  A path for messages: a way in, a way out, the messages on their way, and whether the far end still
  takes them.
\<close>

datatype 'a path_op = Put 'a | Get

fun puts :: "'a path_op list \<Rightarrow> 'a list" where
  "puts [] = []"
| "puts (Put x # ops) = x # puts ops"
| "puts (Get # ops) = puts ops"

fun run_path ::
  "('a \<Rightarrow> 'c \<Rightarrow> 'c) \<Rightarrow> ('c \<Rightarrow> 'a option \<times> 'c) \<Rightarrow> 'a path_op list \<Rightarrow> 'c \<Rightarrow> 'a list \<times> 'c" where
  "run_path put get [] c = ([], c)"
| "run_path put get (Put x # ops) c = run_path put get ops (put x c)"
| "run_path put get (Get # ops) c =
     (let (x, c) = get c; (xs, c) = run_path put get ops c in (case x of None \<Rightarrow> xs | Some x \<Rightarrow> x # xs, c))"

locale message_path =
  fixes put :: "'a \<Rightarrow> 'c \<Rightarrow> 'c"
    and get :: "'c \<Rightarrow> 'a option \<times> 'c"
    and pending :: "'c \<Rightarrow> 'a list"
    and taking :: "'c \<Rightarrow> bool"
  assumes put_pending: "taking c \<Longrightarrow> pending (put x c) = pending c @ [x]"
    and put_taking: "taking c \<Longrightarrow> taking (put x c)"
    and get_some: "taking c \<Longrightarrow> pending c = x # xs \<Longrightarrow> fst (get c) = Some x \<and> pending (snd (get c)) = xs"
    and get_none: "taking c \<Longrightarrow> pending c = [] \<Longrightarrow> fst (get c) = None \<and> pending (snd (get c)) = []"
    and get_taking: "taking c \<Longrightarrow> taking (snd (get c))"
begin

lemma in_order:
  "taking c \<Longrightarrow> run_path put get ops c = (got, c') \<Longrightarrow> pending c @ puts ops = got @ pending c'"
proof (induction ops arbitrary: c got rule: puts.induct)
  case (2 x ops)
  then show ?case using put_pending put_taking by fastforce
next
  case (3 ops)
  obtain y d where g: "get c = (y, d)" by force
  obtain ys where r: "run_path put get ops d = (ys, c')" and got: "got = (case y of None \<Rightarrow> ys | Some x \<Rightarrow> x # ys)"
    using 3(3) g by (auto split: prod.splits)
  have "taking d" using get_taking [OF 3(2)] g by simp
  from 3(1) [OF this r] have IH: "pending d @ puts ops = ys @ pending c'" .
  show ?case
  proof (cases "pending c")
    case Nil
    then show ?thesis using get_none [OF 3(2)] g IH got by simp
  next
    case (Cons x xs)
    then show ?thesis using get_some [OF 3(2)] g IH got by simp
  qed
qed simp

lemma run_append:
  "taking c \<Longrightarrow> run_path put get ops c = (got, e) \<Longrightarrow>
     taking e \<and> fst (run_path put get (ops @ rest) c) = got @ fst (run_path put get rest e)"
proof (induction ops arbitrary: c got rule: puts.induct)
  case (2 x ops)
  from 2(1) [OF put_taking [OF 2(2)], of x got] 2(3) show ?case by simp
next
  case (3 ops)
  obtain y d where g: "get c = (y, d)" by force
  obtain ys where r: "run_path put get ops d = (ys, e)" and got: "got = (case y of None \<Rightarrow> ys | Some x \<Rightarrow> x # ys)"
    using 3(3) g by (auto split: prod.splits)
  have "taking d" using get_taking [OF 3(2)] g by simp
  from 3(1) [OF this r] g got show ?case by (auto simp: case_prod_beta split: option.splits)
qed simp

lemma delivered:
  assumes "taking c" "pending c = []" "length (puts ops) \<le> n"
  shows "fst (run_path put get (ops @ replicate n Get) c) = puts ops"
proof -
  have gets: "fst (run_path put get (replicate n Get) d) = take n (pending d)" if "taking d" for d n
    using that
  proof (induction n arbitrary: d)
    case (Suc n)
    show ?case
    proof (cases "pending d")
      case Nil
      then show ?thesis using get_none [OF Suc.prems] get_taking [OF Suc.prems] Suc.IH [of "snd (get d)"]
        by (simp add: case_prod_beta)
    next
      case (Cons x xs)
      then show ?thesis using get_some [OF Suc.prems] get_taking [OF Suc.prems] Suc.IH [of "snd (get d)"]
        by (simp add: case_prod_beta)
    qed
  qed simp
  obtain got e where e: "run_path put get ops c = (got, e)" by force
  with run_append [OF assms(1) e, of "replicate n Get"] in_order [OF assms(1) e] gets [of e n] assms(2,3)
  show ?thesis by simp
qed

end

text \<open>The channel itself is such a path.\<close>

definition receive :: "'a channel \<Rightarrow> 'a option \<times> 'a channel" where
  "receive c = (case try_recv c of (Received x, c) \<Rightarrow> (Some x, c) | (_, c) \<Rightarrow> (None, c))"

interpretation channel: message_path "\<lambda>x c. snd (send x c)" receive ch_queue ch_receiver
  by unfold_locales (auto simp: send_def receive_def try_recv_def split: list.splits)

end
