(* ===== verification/App_Text.thy ===== *)
theory App_Text
  imports Rust_Text Core_Types
begin

text \<open>
  The text functions of \<open>crates/waker-app/src/lib.rs\<close>: the redaction of credentials in
  diagnostics, the settings Waker reads from the profile file, paths below the home directory, the
  data URI of a log, and the numbers of wake attempts.
\<close>

section \<open>Redaction\<close>

definition credential_line :: "string \<Rightarrow> bool" where
  "credential_line line \<longleftrightarrow>
     (let lowercase = to_ascii_lowercase line;
          trimmed = trim_start lowercase
      in starts_with trimmed ''privatekey'' \<or>
         starts_with trimmed ''presharedkey'' \<or>
         starts_with trimmed ''private_key='' \<or>
         starts_with trimmed ''private_key:'' \<or>
         starts_with trimmed ''preshared_key='' \<or>
         starts_with trimmed ''preshared_key:'' \<or>
         contains lowercase '' private_key='' \<or>
         contains lowercase '' private_key:'' \<or>
         contains lowercase '' preshared_key='' \<or>
         contains lowercase '' preshared_key:'' \<or>
         contains lowercase ''\"private_key\":'' \<or>
         contains lowercase ''\"preshared_key\":'')"

definition redacted :: string where "redacted = ''[REDACTED credential line]''"

definition sanitize_line :: "string \<Rightarrow> string" where
  "sanitize_line line = (if credential_line line then redacted else line)"

definition sanitize_diagnostics :: "string \<Rightarrow> string" where
  "sanitize_diagnostics input = join [nl] (map sanitize_line (lines input))"

section \<open>Settings\<close>

record file_settings =
  fs_fritz_ip :: "string option"
  fs_pc_mac :: "string option"

definition default_settings :: file_settings where
  "default_settings = \<lparr>fs_fritz_ip = None, fs_pc_mac = None\<rparr>"

definition settings_line :: "string \<Rightarrow> file_settings \<Rightarrow> file_settings" where
  "settings_line raw_line s =
     (let line = trim (hd (split_on CHR ''#'' raw_line)) in
      case split_once CHR ''='' line of
        None \<Rightarrow> s
      | Some (key, value) \<Rightarrow>
          (let value = trim value;
               key = to_ascii_lowercase (trim key)
           in if key = ''wakerfritzip'' then s\<lparr>fs_fritz_ip := Some value\<rparr>
              else if key = ''wakerpcmac'' then s\<lparr>fs_pc_mac := Some value\<rparr>
              else s))"

definition parse_waker_file_settings :: "string \<Rightarrow> file_settings" where
  "parse_waker_file_settings config = fold settings_line (lines config) default_settings"

text \<open>\<open>PathBuf::join\<close> on Unix.\<close>

definition path_join :: "string \<Rightarrow> string \<Rightarrow> string" where
  "path_join base rest =
     (if starts_with rest ''/'' then rest
      else if base = [] \<or> last base = CHR ''/'' then base @ rest
      else base @ ''/'' @ rest)"

definition expand_home :: "string option \<Rightarrow> string \<Rightarrow> string" where
  "expand_home home value =
     (if value = ''~'' then (case home of None \<Rightarrow> value | Some h \<Rightarrow> h)
      else case strip_prefix ''~/'' value of
             None \<Rightarrow> value
           | Some rest \<Rightarrow> (case home of None \<Rightarrow> value | Some h \<Rightarrow> path_join h rest))"

text \<open>\<open>read\<close> is \<open>fs::read_to_string\<close>, with the text of its error.\<close>

definition load_waker_file_settings ::
  "(string \<Rightarrow> string + string) \<Rightarrow> string option \<Rightarrow> string \<Rightarrow> file_settings" where
  "load_waker_file_settings read home config_path =
     (case read (expand_home home config_path) of
        Err _ \<Rightarrow> default_settings
      | Ok config \<Rightarrow> parse_waker_file_settings config)"

section \<open>Messages, URIs, numbers\<close>

definition friendly_failure_message :: "wake_failure \<Rightarrow> string" where
  "friendly_failure_message f =
     (if contains (detail f) ''Cisco Umbrella/OpenDNS block-page address''
      then ''Network DNS is blocking the WireGuard endpoint''
      else if contains (detail f) ''WireGuard endpoint DNS''
      then ''Could not resolve the WireGuard endpoint''
      else user_message f)"

definition uri_plain :: "char \<Rightarrow> bool" where
  "uri_plain c \<longleftrightarrow>
     65 \<le> byte c \<and> byte c \<le> 90 \<or> 97 \<le> byte c \<and> byte c \<le> 122 \<or> 48 \<le> byte c \<and> byte c \<le> 57 \<or>
     c = CHR ''-'' \<or> c = CHR ''_'' \<or> c = CHR ''.'' \<or> c = CHR ''~''"

definition uri_prefix :: string where "uri_prefix = ''data:text/plain;charset=utf-8,''"

definition uri_byte :: "char \<Rightarrow> string" where
  "uri_byte c = (if uri_plain c then [c] else ''%'' @ show_hex2 (of_nat (byte c)))"

definition text_data_uri :: "string \<Rightarrow> string" where
  "text_data_uri text = uri_prefix @ concat (map uri_byte text)"

text \<open>
  \<open>now\<close> is the Unix time in milliseconds, \<open>0\<close> before the epoch; \<open>stored\<close> is the static
  \<open>LAST_ATTEMPT_ID\<close>. Answers the new number, which is also the new value of the static.
\<close>

definition next_attempt_id :: "nat \<Rightarrow> u64 \<Rightarrow> u64 \<times> u64" where
  "next_attempt_id now_ms stored =
     (let now = (if now_ms < 2 ^ 64 then of_nat now_ms else - 1);
          previous = stored;
          stored = max now (saturating_add previous 1)
      in (max now (saturating_add previous 1), stored))"

text \<open>\<open>secs1\<close> is the parameter for the format \<open>{:.1}\<close> of the duration's seconds as a float.\<close>

definition format_duration :: "(duration \<Rightarrow> string) \<Rightarrow> duration \<Rightarrow> string" where
  "format_duration secs1 d =
     (if as_millis d < 10 then ''<10 ms''
      else if as_millis d < 1000 then show_nat (as_millis d) @ '' ms''
      else secs1 d @ '' s'')"

text \<open>The fields and the message of the log line for a state: of a failure, only its stage is logged.\<close>

fun log_state :: "u64 \<Rightarrow> wake_state \<Rightarrow> (string \<times> string) list \<times> string" where
  "log_state i Idle = ([(''attempt_id'', show_nat (unat i)), (''stage'', ''idle'')], ''wake state changed'')"
| "log_state i Connecting = ([(''attempt_id'', show_nat (unat i)), (''stage'', ''connect'')], ''wake state changed'')"
| "log_state i ResolvingPc = ([(''attempt_id'', show_nat (unat i)), (''stage'', ''resolve_target'')], ''wake state changed'')"
| "log_state i Waking = ([(''attempt_id'', show_nat (unat i)), (''stage'', ''wake_request'')], ''wake state changed'')"
| "log_state i (WaitingForPc n) =
     ([(''attempt_id'', show_nat (unat i)), (''stage'', ''probe''), (''probe_attempt'', show_nat (unat n))], ''wake state changed'')"
| "log_state i Awake = ([(''attempt_id'', show_nat (unat i)), (''stage'', ''awake'')], ''wake state changed'')"
| "log_state i (Failed f) =
     ([(''attempt_id'', show_nat (unat i)), (''stage'', log_name (stage f))], ''wake state changed to failed'')"

lemma log_state_without_detail: "log_state i (Failed f) = log_state i (Failed (f\<lparr>detail := d\<rparr>))"
  by simp

section \<open>No credential line is left\<close>

lemma white_space_prefix_free:
  "p \<in> set white_space \<Longrightarrow> q \<in> set white_space \<Longrightarrow> prefix p q \<Longrightarrow> p = q"
proof -
  have "\<forall>p \<in> set white_space. \<forall>q \<in> set white_space. prefix p q \<longrightarrow> p = q" by code_simp
  then show "p \<in> set white_space \<Longrightarrow> q \<in> set white_space \<Longrightarrow> prefix p q \<Longrightarrow> p = q" by blast
qed

lemma strip_white_append:
  assumes "strip_pats white_space s = c # r" "graph_char c"
  shows "strip_pats white_space (s @ x) = c # r @ x"
proof -
  have "pats = white_space \<Longrightarrow> strip_pats pats s = c # r \<Longrightarrow> strip_pats pats (s @ x) = c # r @ x" for pats
  proof (induction pats s rule: strip_pats.induct)
    case (1 pats s)
    show ?case
    proof (cases "find (\<lambda>p. p \<noteq> [] \<and> prefix p s) pats")
      case None
      then have "s = c # r" using "1.prems"(2) by (subst (asm) strip_pats.simps) simp
      then show ?thesis using assms(2) "1.prems"(1) trim_start_graph [of c "r @ x"] by (simp add: trim_start_def)
    next
      case (Some p)
      then have p: "p \<in> set white_space" "p \<noteq> []" "prefix p s" using find_SomeD "1.prems"(1) by fastforce+
      have "\<exists>q. find (\<lambda>p. p \<noteq> [] \<and> prefix p (s @ x)) pats = Some q"
        using p "1.prems"(1) by (metis (mono_tags, lifting) find_None_all not_Some_eq prefix_prefix)
      then obtain q where q: "find (\<lambda>p. p \<noteq> [] \<and> prefix p (s @ x)) pats = Some q" by blast
      then have "q \<in> set white_space" "prefix q (s @ x)" using find_SomeD "1.prems"(1) by fastforce+
      then have "q = p" using p white_space_prefix_free prefix_same_cases prefix_prefix by metis
      moreover have "strip_pats pats (drop (length p) s) = c # r"
        using Some "1.prems"(2) strip_pats_step by metis
      ultimately show ?thesis
        using "1.IH" [OF Some "1.prems"(1)] q strip_pats_step [OF q] p(3) prefix_length_le [OF p(3)] by simp
    qed
  qed
  with assms(1) show ?thesis by blast
qed

lemma trimmed_prefix:
  assumes "starts_with (trim_start l') (c # p)" "graph_char c" "prefix l' l"
  shows "starts_with (trim_start l) (c # p)"
proof -
  obtain r where "strip_pats white_space l' = c # r" "prefix (c # p) (c # r)"
    using assms(1) by (auto simp: starts_with_def trim_start_def prefix_def)
  moreover obtain x where "l = l' @ x" using assms(3) by (auto simp: prefix_def)
  ultimately show ?thesis
    using strip_white_append assms(2) by (auto simp: starts_with_def trim_start_def prefix_def)
qed

lemma lower_append: "to_ascii_lowercase (a @ b) = to_ascii_lowercase a @ to_ascii_lowercase b"
  by (simp add: to_ascii_lowercase_def)

text \<open>A line that is no credential line has no beginning that is one.\<close>

lemma credential_line_prefix:
  assumes "prefix l' l" "credential_line l'"
  shows "credential_line l"
proof -
  have pre: "prefix (to_ascii_lowercase l') (to_ascii_lowercase l)"
    using assms(1) by (auto simp: prefix_def lower_append)
  have "graph_char CHR ''p''" by (simp add: graph_char_def)
  note t = trimmed_prefix [OF _ this pre] and c = contains_prefix [OF _ pre]
  from assms(2) show ?thesis
    unfolding credential_line_def Let_def by (elim disjE) (simp_all add: t c)
qed

lemma redacted_clean: "\<not> credential_line redacted"
  by code_simp

lemma sanitize_line_clean: "\<not> credential_line (sanitize_line l)"
  by (simp add: sanitize_line_def redacted_clean)

lemma sanitize_no_nl: "nl \<notin> set l \<Longrightarrow> nl \<notin> set (sanitize_line l)"
  by (simp add: sanitize_line_def redacted_def)

lemma sanitized_lines: "list_all (\<lambda>l. \<not> credential_line l) (lines (sanitize_diagnostics input))"
proof (cases "lines input = []")
  case False
  have "\<not> credential_line l" if "l \<in> set (lines (sanitize_diagnostics input))" for l
  proof -
    have "map sanitize_line (lines input) \<noteq> []" using False by simp
    moreover have "\<forall>x \<in> set (map sanitize_line (lines input)). nl \<notin> set x"
      using lines_no_nl sanitize_no_nl by auto
    moreover have "l \<in> set (lines (join [nl] (map sanitize_line (lines input))))"
      using that by (simp add: sanitize_diagnostics_def)
    ultimately obtain l' where "l' \<in> set (map sanitize_line (lines input))" "prefix l l'"
      using lines_join by blast
    then show ?thesis using sanitize_line_clean credential_line_prefix by fastforce
  qed
  then show ?thesis by (simp add: list_all_iff)
qed (simp add: sanitize_diagnostics_def)

text \<open>\<^bold>\<open>no credential line survives\<close>. Whatever text goes in, no line of the sanitised text
  is a credential line in the sense of the code's own test, even after its line endings are read
  again.\<close>

theorem sanitize_clean: "list_all (\<lambda>l. \<not> credential_line l) (lines (sanitize_diagnostics input))"
  by (rule sanitized_lines)

section \<open>The URI holds the text\<close>

text \<open>Percent decoding, as a browser reads the URI back.\<close>

fun uri_decode :: "string \<Rightarrow> string" where
  "uri_decode [] = []"
| "uri_decode (c # s) =
     (if c = CHR ''%'' then
        (case parse_hex_u8 (take 2 s) of
           Ok b \<Rightarrow> char_of (unat b) # uri_decode (drop 2 s)
         | Err _ \<Rightarrow> c # uri_decode s)
      else c # uri_decode s)"

lemma uri_decode_byte: "uri_decode (uri_byte c @ s) = c # uri_decode s"
proof (cases "uri_plain c")
  case True
  then have "c \<noteq> CHR ''%''" by (auto simp: uri_plain_def)
  with True show ?thesis by (simp add: uri_byte_def)
next
  case False
  have "byte c < 256" by simp
  then have "unat (of_nat (byte c) :: u8) = byte c"
    by (simp add: unsigned_of_nat take_bit_nat_eq_self)
  moreover have "take 2 (show_hex2 b @ s) = show_hex2 b" "drop 2 (show_hex2 b @ s) = s" for b
    by simp_all
  ultimately show ?thesis
    using False by (simp add: uri_byte_def parse_hex_show_hex2)
qed

lemma uri_decode_all: "uri_decode (concat (map uri_byte s)) = s"
  by (induction s) (simp_all add: uri_decode_byte)

lemma uri_holds_text: "uri_decode (drop (length uri_prefix) (text_data_uri s)) = s"
  by (simp add: text_data_uri_def uri_decode_all)

text \<open>\<^bold>\<open>a log opens as it is\<close>. Decoding the data URI of a text gives back exactly the text,
  and the URI has only characters that need no further quoting.\<close>

theorem text_data_uri_roundtrip:
  "uri_decode (drop (length uri_prefix) (text_data_uri text)) = text \<and>
   list_all (\<lambda>c. uri_plain c \<or> c = CHR ''%'') (drop (length uri_prefix) (text_data_uri text))"
proof -
  have "uri_plain (digit_char d)" if "d < 16" for d
    using less_16_cases [OF that] by (auto simp: digit_char_def uri_plain_def)
  then have "list_all (\<lambda>c. uri_plain c \<or> c = CHR ''%'') (uri_byte c)" for c
    using show_hex2_chars by (fastforce simp: uri_byte_def list_all_iff)
  then show ?thesis
    by (auto simp: text_data_uri_def uri_decode_all list_all_iff)
qed

section \<open>Attempt numbers\<close>

text \<open>The numbers given by successive calls at the given times.\<close>

fun attempt_ids :: "nat list \<Rightarrow> u64 \<Rightarrow> u64 list" where
  "attempt_ids [] stored = []"
| "attempt_ids (t # ts) stored =
     (let (i, stored) = next_attempt_id t stored in i # attempt_ids ts stored)"

lemma saturating_add_one: "stored < saturating_add stored 1 \<or> saturating_add stored 1 = (- 1 :: u64)"
proof (cases "unat stored + 1 < 2 ^ 64")
  case True
  then have "unat (saturating_add stored 1) = unat stored + 1" by (simp add: unat_saturating_add)
  then show ?thesis by (simp add: word_less_nat_alt)
next
  case False
  then show ?thesis by (simp add: saturating_add_def)
qed

lemma next_attempt_id_above: "stored < fst (next_attempt_id t stored) \<or> fst (next_attempt_id t stored) = - 1"
proof -
  have "saturating_add stored 1 \<le> fst (next_attempt_id t stored)"
    by (simp add: next_attempt_id_def Let_def)
  then show ?thesis
    using saturating_add_one [of stored] word_order.extremum_unique by fastforce
qed

lemma next_attempt_id_stored: "snd (next_attempt_id t stored) = fst (next_attempt_id t stored)"
  by (simp add: next_attempt_id_def Let_def)

lemma attempt_ids_above: "b \<in> set (attempt_ids ts stored) \<Longrightarrow> stored < b \<or> b = - 1"
proof (induction ts arbitrary: stored)
  case (Cons t ts)
  have top: "\<not> (- 1 :: u64) < b" using word_order.extremum_strict by blast
  show ?case
    using Cons.prems Cons.IH [of "fst (next_attempt_id t stored)"] next_attempt_id_above [of stored t]
      next_attempt_id_stored [of t stored] top
    by (auto simp: case_prod_beta dest: less_trans)
qed simp

text \<open>\<^bold>\<open>attempt numbers grow\<close>. Successive wake attempts get strictly increasing numbers, even
  when the clock stands still or is set back, until the largest 64-bit number is reached.\<close>

theorem attempt_ids_increase:
  "sorted_wrt (\<lambda>a b. a < b \<or> b = - 1) (stored # attempt_ids ts stored)"
proof (induction ts arbitrary: stored)
  case (Cons t ts)
  have "sorted_wrt (\<lambda>a b. a < b \<or> b = - 1) (fst (next_attempt_id t stored) # attempt_ids ts (fst (next_attempt_id t stored)))"
    by (rule Cons.IH)
  then show ?case
    using attempt_ids_above [of _ "t # ts" stored] next_attempt_id_stored [of t stored]
    by (auto simp: case_prod_beta)
qed simp

section \<open>Settings\<close>

text \<open>The value a line assigns to a (lower-case) key.\<close>

definition assigned :: "string \<Rightarrow> string \<Rightarrow> string option" where
  "assigned key raw_line =
     (case split_once CHR ''='' (trim (hd (split_on CHR ''#'' raw_line))) of
        None \<Rightarrow> None
      | Some (k, value) \<Rightarrow> if to_ascii_lowercase (trim k) = key then Some (trim value) else None)"

fun last_assigned :: "string \<Rightarrow> string list \<Rightarrow> string option" where
  "last_assigned key [] = None"
| "last_assigned key (l # ls) =
     (case last_assigned key ls of None \<Rightarrow> assigned key l | Some v \<Rightarrow> Some v)"

lemma settings_line_eq:
  "settings_line l s =
     \<lparr>fs_fritz_ip = (case assigned ''wakerfritzip'' l of None \<Rightarrow> fs_fritz_ip s | Some v \<Rightarrow> Some v),
      fs_pc_mac = (case assigned ''wakerpcmac'' l of None \<Rightarrow> fs_pc_mac s | Some v \<Rightarrow> Some v)\<rparr>"
  by (auto simp: settings_line_def assigned_def Let_def split: option.splits)

lemma settings_fold:
  "fold settings_line ls s =
     \<lparr>fs_fritz_ip = (case last_assigned ''wakerfritzip'' ls of None \<Rightarrow> fs_fritz_ip s | Some v \<Rightarrow> Some v),
      fs_pc_mac = (case last_assigned ''wakerpcmac'' ls of None \<Rightarrow> fs_pc_mac s | Some v \<Rightarrow> Some v)\<rparr>"
  by (induction ls arbitrary: s) (auto simp: settings_line_eq split: option.splits)

text \<open>\<^bold>\<open>the last setting of a kind counts\<close>. The FRITZ!Box address and the MAC address taken from
  the profile file are the values of the last lines that assign them, with keys in any case, spaces
  around key and value dropped and comments cut off; every other line is without effect.\<close>

theorem settings_last_wins:
  "parse_waker_file_settings config =
     \<lparr>fs_fritz_ip = last_assigned ''wakerfritzip'' (lines config),
      fs_pc_mac = last_assigned ''wakerpcmac'' (lines config)\<rparr>"
  by (auto simp: parse_waker_file_settings_def settings_fold default_settings_def split: option.splits)

end
