(* ===== verification/Diagnostics.thy ===== *)
theory Diagnostics
  imports App_Text "HOL-Library.Option_ord"
begin

text \<open>
  The diagnostics of \<open>crates/waker-app/src/diagnostics.rs\<close>: the log level and the targets of
  the log, the persistent log with its directory, the initialisation on the desktop and on Android
  and the tail of the newest log. The answers of the file system, of \<open>tracing_subscriber\<close> and of
  logcat are parameters; what was done to the file system and to \<open>tracing\<close> is a list of events.
\<close>

section \<open>Levels and targets\<close>

text \<open>In the order of verbosity that \<open>tracing::Level\<close> documents.\<close>

datatype level = ERROR | WARN | INFO | DEBUG | TRACE

fun verbosity :: "level \<Rightarrow> nat" where
  "verbosity ERROR = 0"
| "verbosity WARN = 1"
| "verbosity INFO = 2"
| "verbosity DEBUG = 3"
| "verbosity TRACE = 4"

lemma verbosity_inj: "verbosity a = verbosity b \<Longrightarrow> a = b"
  by (cases a; cases b) simp_all

instantiation level :: linorder
begin

definition less_eq_level :: "level \<Rightarrow> level \<Rightarrow> bool" where
  "less_eq_level a b \<longleftrightarrow> verbosity a \<le> verbosity b"

definition less_level :: "level \<Rightarrow> level \<Rightarrow> bool" where
  "less_level a b \<longleftrightarrow> verbosity a < verbosity b"

instance
  by standard (auto simp: less_eq_level_def less_level_def intro: verbosity_inj)

end

text \<open>\<open>waker_log\<close> is the environment variable, \<open>None\<close> when it is unset or not Unicode.\<close>

definition log_level :: "string option \<Rightarrow> level" where
  "log_level waker_log =
     (let v = to_ascii_lowercase (case waker_log of None \<Rightarrow> ''debug'' | Some v \<Rightarrow> v)
      in if v = ''trace'' then TRACE
         else if v = ''info'' then INFO
         else if v = ''warn'' then WARN
         else if v = ''error'' then ERROR
         else DEBUG)"

type_synonym targets = "(string \<times> level) list"

definition safe_targets :: "level \<Rightarrow> targets" where
  "safe_targets l = [(''waker_app'', l), (''waker_core'', l), (''waker_net'', l)]"

section \<open>The persistent log\<close>

definition log_prefix :: string where "log_prefix = ''waker.log''"

definition retained_log_files :: nat where "retained_log_files = 7"

record diagnostics_info =
  di_log_dir :: "string option"
  di_warning :: "string option"

text \<open>\<open>dr_guard\<close> tells whether the runtime holds the guard of the log writer.\<close>

record diagnostics_runtime =
  dr_guard :: bool
  dr_info :: diagnostics_info

definition is_persistent :: "diagnostics_runtime \<Rightarrow> bool" where
  "is_persistent r = dr_guard r"

datatype layer = FileLayer targets | StderrLayer targets | LogcatLayer targets

datatype log_event =
  DirCreated string
| DirSecured string nat
| LogOpened string string nat
| LogClosed
| Installed "layer list"

record log_host =
  lh_create_dir :: "string \<Rightarrow> string + unit"
  lh_set_mode :: "string \<Rightarrow> nat \<Rightarrow> string + unit"
  lh_open_log :: "string \<Rightarrow> string \<Rightarrow> nat \<Rightarrow> string + unit"
  lh_try_init :: "log_event list \<Rightarrow> layer list \<Rightarrow> string + unit"
  lh_events :: "log_event list"

definition note_event :: "log_event \<Rightarrow> log_host \<Rightarrow> log_host" where
  "note_event ev h = h\<lparr>lh_events := lh_events h @ [ev]\<rparr>"

text \<open>For Unix, Android included: the change of permissions is under \<open>#[cfg(unix)]\<close> in the source.\<close>

definition open_persistent_log :: "string \<Rightarrow> log_host \<Rightarrow> (string + unit) \<times> log_host" where
  "open_persistent_log log_dir h =
     (case lh_create_dir h log_dir of
        Err e \<Rightarrow> (Err (''could not create diagnostics directory: '' @ e), h)
      | Ok _ \<Rightarrow>
     (let h = note_event (DirCreated log_dir) h in
      case lh_set_mode h log_dir 448 of
        Err e \<Rightarrow> (Err (''could not secure diagnostics directory: '' @ e), h)
      | Ok _ \<Rightarrow>
     (let h = note_event (DirSecured log_dir 448) h in
      case lh_open_log h log_dir log_prefix retained_log_files of
        Err e \<Rightarrow> (Err (''could not open persistent diagnostic log: '' @ e), h)
      | Ok _ \<Rightarrow> (Ok (), note_event (LogOpened log_dir log_prefix retained_log_files) h))))"

definition try_init :: "layer list \<Rightarrow> log_host \<Rightarrow> (string + unit) \<times> log_host" where
  "try_init layers h =
     (case lh_try_init h (lh_events h) layers of
        Err e \<Rightarrow> (Err e, h)
      | Ok _ \<Rightarrow> (Ok (), note_event (Installed layers) h))"

section \<open>Initialisation\<close>

definition desktop_log_dir :: "string option \<Rightarrow> string option \<Rightarrow> string option" where
  "desktop_log_dir xdg_state_home home =
     (case xdg_state_home of
        Some state_home \<Rightarrow> Some (path_join state_home ''waker/logs'')
      | None \<Rightarrow> map_option (\<lambda>home. path_join home ''.local/state/waker/logs'') home)"

definition without_log :: "string \<Rightarrow> diagnostics_runtime" where
  "without_log warning = \<lparr>dr_guard = False, dr_info = \<lparr>di_log_dir = None, di_warning = Some warning\<rparr>\<rparr>"

text \<open>A runtime that fails to install its layers drops the guard, which closes the log.\<close>

definition init_desktop ::
  "string option \<Rightarrow> string option \<Rightarrow> string option \<Rightarrow> log_host \<Rightarrow> diagnostics_runtime \<times> log_host" where
  "init_desktop waker_log xdg_state_home home h =
     (let targets = safe_targets (log_level waker_log)
      in case desktop_log_dir xdg_state_home home of
           Some log_dir \<Rightarrow>
             (case open_persistent_log log_dir h of
                (Ok _, h) \<Rightarrow>
                  (case try_init [FileLayer targets, StderrLayer targets] h of
                     (Ok _, h) \<Rightarrow>
                       (\<lparr>dr_guard = True, dr_info = \<lparr>di_log_dir = Some log_dir, di_warning = None\<rparr>\<rparr>, h)
                   | (Err e, h) \<Rightarrow> (without_log (''could not initialise tracing: '' @ e), note_event LogClosed h))
              | (Err e, h) \<Rightarrow> (without_log e, snd (try_init [StderrLayer targets] h)))
         | None \<Rightarrow>
             (without_log ''HOME is unavailable; persistent diagnostics are disabled'',
              snd (try_init [StderrLayer targets] h)))"

definition init_android_once ::
  "string option \<Rightarrow> string option \<Rightarrow> string + unit \<Rightarrow> log_host \<Rightarrow> diagnostics_runtime \<times> log_host" where
  "init_android_once waker_log internal_data_path logcat h =
     (let targets = safe_targets (log_level waker_log);
          log_dir = map_option (\<lambda>path. path_join path ''logs'') internal_data_path
      in case (log_dir, logcat) of
           (Some log_dir, Ok _) \<Rightarrow>
             (case open_persistent_log log_dir h of
                (Ok _, h) \<Rightarrow>
                  (case try_init [FileLayer targets, LogcatLayer targets] h of
                     (Ok _, h) \<Rightarrow>
                       (\<lparr>dr_guard = True, dr_info = \<lparr>di_log_dir = Some log_dir, di_warning = None\<rparr>\<rparr>, h)
                   | (Err e, h) \<Rightarrow> (without_log (''could not initialise tracing: '' @ e), note_event LogClosed h))
              | (Err file_error, h) \<Rightarrow>
                  (case try_init [LogcatLayer targets] h of
                     (Ok _, h) \<Rightarrow> (without_log (''persistent diagnostics unavailable: '' @ file_error), h)
                   | (Err init_error, h) \<Rightarrow>
                       (without_log (''persistent diagnostics unavailable ('' @ file_error @
                          ''); logcat initialisation failed ('' @ init_error @ '')''), h)))
         | (Some log_dir, Err logcat_error) \<Rightarrow>
             (case open_persistent_log log_dir h of
                (Ok _, h) \<Rightarrow>
                  (case try_init [FileLayer targets] h of
                     (Ok _, h) \<Rightarrow>
                       (\<lparr>dr_guard = True, dr_info = \<lparr>di_log_dir = Some log_dir,
                          di_warning = Some (''logcat diagnostics unavailable: '' @ logcat_error)\<rparr>\<rparr>, h)
                   | (Err init_error, h) \<Rightarrow>
                       (without_log (''logcat diagnostics unavailable ('' @ logcat_error @
                          ''); persistent diagnostics initialisation failed ('' @ init_error @ '')''),
                        note_event LogClosed h))
              | (Err file_error, h) \<Rightarrow>
                  (without_log (''persistent diagnostics unavailable ('' @ file_error @
                     ''); logcat unavailable ('' @ logcat_error @ '')''), h))
         | (None, Ok _) \<Rightarrow>
             (case try_init [LogcatLayer targets] h of
                (Ok _, h) \<Rightarrow>
                  (without_log ''Android internal data path is unavailable; persistent diagnostics are disabled'', h)
              | (Err init_error, h) \<Rightarrow>
                  (without_log (''Android internal data path is unavailable and logcat initialisation failed: '' @ init_error), h))
         | (None, Err e) \<Rightarrow>
             (without_log (''Android internal data path and logcat diagnostics are unavailable: '' @ e), h))"

text \<open>\<open>OnceLock::get_or_init\<close>: \<open>once\<close> is the content of the static.\<close>

definition init_android ::
  "string option \<Rightarrow> string option \<Rightarrow> string + unit \<Rightarrow> diagnostics_runtime option \<times> log_host \<Rightarrow>
   diagnostics_runtime \<times> diagnostics_runtime option \<times> log_host" where
  "init_android waker_log internal_data_path logcat s =
     (case s of
        (Some r, h) \<Rightarrow> (r, Some r, h)
      | (None, h) \<Rightarrow>
          (let (r, h) = init_android_once waker_log internal_data_path logcat h in (r, Some r, h)))"

section \<open>The tail of the newest log\<close>

record dir_entry =
  de_name :: string
  de_modified :: "nat option"

record log_files =
  lf_read_dir :: "string \<Rightarrow> string + (string + dir_entry) list"
  lf_read :: "string \<Rightarrow> string + string"

fun oks :: "('e + 'a) list \<Rightarrow> 'a list" where
  "oks [] = []"
| "oks (Ok a # rs) = a # oks rs"
| "oks (Err e # rs) = oks rs"

definition is_log :: "dir_entry \<Rightarrow> bool" where
  "is_log entry = starts_with (from_utf8_lossy (de_name entry)) log_prefix"

definition logs_of :: "(string + dir_entry) list \<Rightarrow> dir_entry list" where
  "logs_of entries = sort_key de_modified (filter is_log (oks entries))"

definition recent_log_tail :: "log_files \<Rightarrow> diagnostics_info \<Rightarrow> nat \<Rightarrow> string" where
  "recent_log_tail fs info max_bytes =
     (case di_log_dir info of
        None \<Rightarrow> ''Persistent diagnostics are unavailable for this run.''
      | Some log_dir \<Rightarrow>
     (case lf_read_dir fs log_dir of
        Err _ \<Rightarrow> ''Could not read diagnostics directory: '' @ from_utf8_lossy log_dir
      | Ok entries \<Rightarrow>
     (let logs = logs_of entries
      in if logs = [] then ''No persistent diagnostic log has been written yet.''
         else (let path = path_join log_dir (de_name (last logs))
               in case lf_read fs path of
                    Ok bytes \<Rightarrow> from_utf8_lossy (drop (length bytes - max_bytes) bytes)
                  | Err e \<Rightarrow> ''Could not read '' @ from_utf8_lossy path @ '': '' @ e))))"

section \<open>The log is secured before it is written\<close>

definition log_opened :: "string \<Rightarrow> log_event list" where
  "log_opened d = [DirCreated d, DirSecured d 448, LogOpened d log_prefix retained_log_files]"

lemma open_persistent_log_ok:
  assumes "open_persistent_log d h = (Ok (), h')"
  shows "lh_events h' = lh_events h @ log_opened d"
  using assms by (auto simp: open_persistent_log_def note_event_def log_opened_def Let_def split: sum.splits)

lemma try_init_ok: "try_init ls h = (Ok (), h') \<Longrightarrow> lh_events h' = lh_events h @ [Installed ls]"
  by (auto simp: try_init_def note_event_def split: sum.splits)

text \<open>
  What a runtime promises: it names a log directory exactly when it keeps a log there, which was
  created, made private and only then opened, and a layer writing it was installed, all for the
  targets of Waker's own crates only; and when it keeps no log it has a warning.
\<close>

definition runtime_sound :: "diagnostics_runtime \<Rightarrow> log_host \<Rightarrow> log_host \<Rightarrow> bool" where
  "runtime_sound r h h' \<longleftrightarrow>
     (case di_log_dir (dr_info r) of
        None \<Rightarrow> \<not> is_persistent r \<and> di_warning (dr_info r) \<noteq> None
      | Some d \<Rightarrow> is_persistent r \<and>
          (\<exists>l rest. lh_events h' = lh_events h @ log_opened d @ [Installed (FileLayer (safe_targets l) # rest)]))"

lemma runtime_sound_without [simp]: "runtime_sound (without_log w) h h'"
  by (simp add: runtime_sound_def without_log_def is_persistent_def)

lemma runtime_sound_with:
  assumes "open_persistent_log d h = (Ok (), h1)"
    and "try_init (FileLayer (safe_targets l) # rest) h1 = (Ok (), h')"
  shows "runtime_sound \<lparr>dr_guard = True, dr_info = \<lparr>di_log_dir = Some d, di_warning = w\<rparr>\<rparr> h h'"
  using open_persistent_log_ok [OF assms(1)] try_init_ok [OF assms(2)]
  by (auto simp: runtime_sound_def is_persistent_def)

lemma init_desktop_sound: "init_desktop waker_log xdg home h = (r, h') \<Longrightarrow> runtime_sound r h h'"
  by (auto simp: init_desktop_def Let_def intro: runtime_sound_with split: option.splits prod.splits sum.splits)

lemma init_android_once_sound: "init_android_once waker_log path logcat h = (r, h') \<Longrightarrow> runtime_sound r h h'"
  by (auto simp: init_android_once_def Let_def intro: runtime_sound_with split: option.splits prod.splits sum.splits)

text \<open>C32: \<^bold>\<open>the log is private, and its absence is told\<close>. However the file system, \<open>tracing\<close>
  and logcat answer, on the desktop and on Android: a runtime names a log directory exactly when it
  holds an open log there; that directory was created and restricted to its owner before the log was
  opened, and only then was the layer that writes it installed; a runtime without a log carries a
  warning.\<close>

theorem log_is_private:
  "runtime_sound (fst (init_desktop waker_log xdg home h)) h (snd (init_desktop waker_log xdg home h)) \<and>
   runtime_sound (fst (init_android_once waker_log path logcat h)) h (snd (init_android_once waker_log path logcat h))"
  using init_desktop_sound init_android_once_sound by (metis prod.collapse)

lemma init_android_again:
  assumes "init_android v p c s = (r, once, h)"
  shows "init_android v' p' c' (once, h) = (r, once, h)"
  using assms by (auto simp: init_android_def split: option.splits prod.splits)

lemma empty_state_home_is_relative: "desktop_log_dir (Some []) home = Some ''waker/logs''"
  by (simp add: desktop_log_dir_def path_join_def starts_with_def)

section \<open>The tail\<close>

lemma sorted_last: "sorted xs \<Longrightarrow> x \<in> set xs \<Longrightarrow> x \<le> last xs"
  by (induction xs rule: rev_induct) (auto simp: sorted_append)

lemma set_logs_of [simp]: "set (logs_of entries) = {e. Ok e \<in> set entries \<and> is_log e}"
proof -
  have "set (oks entries) = {e. Ok e \<in> set entries}"
    by (induction entries rule: oks.induct) auto
  then show ?thesis by (auto simp: logs_of_def)
qed

lemma logs_of_newest:
  assumes "logs_of entries \<noteq> []" "Ok e \<in> set entries" "is_log e"
  shows "de_modified e \<le> de_modified (last (logs_of entries))"
proof -
  have "sorted (map de_modified (logs_of entries))" by (simp add: logs_of_def)
  from sorted_last [OF this, of "de_modified e"] assms show ?thesis by (simp add: last_map)
qed

lemma from_utf8_lossy_length: "length (from_utf8_lossy s) \<le> 3 * length s"
proof (induction s rule: from_utf8_lossy.induct)
  case (1 s)
  show ?case
  proof (cases "s = []")
    case False
    show ?thesis
    proof (cases "utf8_char_len s = 0")
      case True
      have eq: "from_utf8_lossy s = [CHR 0xEF, CHR 0xBF, CHR 0xBD] @ from_utf8_lossy (drop (bad_len s) s)"
        using True False by (simp add: from_utf8_lossy.simps [of s])
      have "bad_len s > 0" "length s > 0" using False bad_len_pos by (cases s; simp)+
      then have "3 + 3 * length (drop (bad_len s) s) \<le> 3 * length s" by (simp, linarith)
      then show ?thesis using 1(1) [OF False True] by (simp add: eq)
    next
      case nz: False
      then have eq: "from_utf8_lossy s = take (utf8_char_len s) s @ from_utf8_lossy (drop (utf8_char_len s) s)"
        using False by (simp add: from_utf8_lossy.simps [of s])
      show ?thesis using 1(2) [OF False nz] by (simp add: eq)
    qed
  qed simp
qed

text \<open>\<^bold>\<open>the tail is the end of the newest log\<close>. Of the log files in a readable directory the
  one last modified is read, and what is shown is the decoding of its last bytes, at most the limit
  asked for, in at most three times as many bytes.\<close>

theorem recent_log_tail_newest:
  assumes "di_log_dir info = Some d" "lf_read_dir fs d = Ok entries"
    and "Ok e0 \<in> set entries" "is_log e0"
    and "\<And>name. lf_read fs (path_join d name) = Ok (content name)"
  shows "\<exists>e. Ok e \<in> set entries \<and> is_log e \<and>
    (\<forall>e'. Ok e' \<in> set entries \<and> is_log e' \<longrightarrow> de_modified e' \<le> de_modified e) \<and>
    (\<exists>older newer. content (de_name e) = older @ newer \<and> length newer = min max_bytes (length (content (de_name e))) \<and>
      recent_log_tail fs info max_bytes = from_utf8_lossy newer) \<and>
    length (recent_log_tail fs info max_bytes) \<le> 3 * max_bytes"
proof -
  have ne: "logs_of entries \<noteq> []" using set_logs_of [of entries] assms(3,4) by (metis (mono_tags, lifting) empty_iff list.set(1) mem_Collect_eq)
  let ?e = "last (logs_of entries)"
  let ?c = "content (de_name ?e)"
  have mem: "Ok ?e \<in> set entries \<and> is_log ?e" using last_in_set [OF ne] by simp
  have tail: "recent_log_tail fs info max_bytes = from_utf8_lossy (drop (length ?c - max_bytes) ?c)"
    using assms(1,2,5) ne by (simp add: recent_log_tail_def Let_def)
  have "length (recent_log_tail fs info max_bytes) \<le> 3 * max_bytes"
    using from_utf8_lossy_length [of "drop (length ?c - max_bytes) ?c"] by (simp add: tail)
  moreover have "?c = take (length ?c - max_bytes) ?c @ drop (length ?c - max_bytes) ?c \<and>
      length (drop (length ?c - max_bytes) ?c) = min max_bytes (length ?c)" by simp
  then have "\<exists>older newer. ?c = older @ newer \<and> length newer = min max_bytes (length ?c) \<and>
      recent_log_tail fs info max_bytes = from_utf8_lossy newer"
    unfolding tail by blast
  ultimately show ?thesis using mem logs_of_newest [OF ne] by blast
qed

definition two_logs :: log_files where
  "two_logs = \<lparr>
     lf_read_dir = (\<lambda>_. Ok [Ok \<lparr>de_name = ''waker.log.2'', de_modified = Some 5\<rparr>,
        Err ''denied'', Ok \<lparr>de_name = ''other'', de_modified = Some 9\<rparr>,
        Ok \<lparr>de_name = ''waker.log.1'', de_modified = Some 4\<rparr>]),
     lf_read = (\<lambda>path. Ok path)\<rparr>"

lemma two_logs_tail:
  "recent_log_tail two_logs \<lparr>di_log_dir = Some ''/d'', di_warning = None\<rparr> 5 = ''log.2''"
  by code_simp

theorem recent_log_tail_newest_witness:
  "length (recent_log_tail two_logs \<lparr>di_log_dir = Some ''/d'', di_warning = None\<rparr> 5) \<le> 15"
proof -
  let ?e = "\<lparr>de_name = ''waker.log.2'', de_modified = Some 5\<rparr>"
  let ?info = "\<lparr>di_log_dir = Some ''/d'', di_warning = None\<rparr>"
  have "is_log ?e" by code_simp
  moreover have "di_log_dir ?info = Some ''/d''" by simp
  moreover obtain entries where "lf_read_dir two_logs ''/d'' = Ok entries" "Ok ?e \<in> set entries"
    by (simp add: two_logs_def)
  moreover have "lf_read two_logs (path_join ''/d'' name) = Ok (path_join ''/d'' name)" for name
    by (simp add: two_logs_def)
  ultimately have "length (recent_log_tail two_logs ?info 5) \<le> 3 * 5"
    using recent_log_tail_newest [of ?info "''/d''" two_logs entries ?e "path_join ''/d''" 5] by blast
  then show ?thesis by simp
qed

section \<open>A cut that hides a credential line\<close>

text \<open>
  The tail is cut before it is redacted: when the cut falls into the word \<open>PrivateKey\<close> the rest of
  that line is no longer recognised.
\<close>

lemma cut_line_not_redacted:
  assumes "lf_read_dir fs ''/d'' = Ok [Ok \<lparr>de_name = ''waker.log'', de_modified = None\<rparr>]"
    and "lf_read fs ''/d/waker.log'' = Ok (''PrivateKey = SECRET'' @ nl # rest)" "\<forall>c \<in> set rest. ascii c"
  shows "prefix ''eKey = SECRET''
    (sanitize_diagnostics (recent_log_tail fs \<lparr>di_log_dir = Some ''/d'', di_warning = None\<rparr> (length rest + 14)))"
proof -
  let ?logs = "[\<lparr>de_name = ''waker.log'', de_modified = None\<rparr>]"
  let ?line = "''eKey = SECRET''"
  have "is_log \<lparr>de_name = ''waker.log'', de_modified = None\<rparr>" by code_simp
  then have "logs_of (map Ok ?logs) = ?logs" by (simp add: logs_of_def)
  moreover have "path_join ''/d'' ''waker.log'' = ''/d/waker.log''" by code_simp
  moreover have "from_utf8_lossy (?line @ nl # rest) = ?line @ nl # rest"
    by (rule from_utf8_lossy_ascii_all) (use assms(3) in \<open>auto\<close>)
  ultimately have "recent_log_tail fs \<lparr>di_log_dir = Some ''/d'', di_warning = None\<rparr> (length rest + 14) = ?line @ nl # rest"
    using assms by (simp add: recent_log_tail_def)
  moreover have "lines (?line @ nl # rest) = strip_cr ?line # lines rest"
    by (rule lines_append) simp
  moreover have "strip_cr ?line = ?line" "\<not> credential_line ?line" by code_simp+
  ultimately show ?thesis
    by (cases "lines rest") (simp_all add: sanitize_diagnostics_def sanitize_line_def)
qed

end
