(* ===== verification/Utf16.thy ===== *)
theory Utf16
  imports Rust_Text
begin

text \<open>
  Characters of a text and their UTF-16 indices, as \<open>char_index_to_utf16\<close> and
  \<open>utf16_index_to_char\<close> of \<open>crates/waker-app/src/android.rs\<close> convert them between egui and
  Android's text input.
\<close>

section \<open>The model\<close>

text \<open>\<open>str::chars\<close>, each character as its UTF-8 bytes.\<close>

function chars :: "string \<Rightarrow> string list" where
  "chars s =
     (if s = [] then []
      else (let n = max 1 (utf8_char_len s) in take n s # chars (drop n s)))"
  by pat_completeness auto
termination
  by (relation "measure length") (auto simp: neq_Nil_conv)

declare chars.simps [simp del]

definition len_utf16 :: "string \<Rightarrow> nat" where
  "len_utf16 c = (if length c = 4 then 2 else 1)"

definition char_index_to_utf16 :: "string \<Rightarrow> nat \<Rightarrow> nat" where
  "char_index_to_utf16 s char_index = sum_list (map len_utf16 (take char_index (chars s)))"

text \<open>The loop of \<open>utf16_index_to_char\<close>: \<open>None\<close> when it ends without returning.\<close>

fun utf16_scan :: "nat \<Rightarrow> nat \<Rightarrow> nat \<Rightarrow> string list \<Rightarrow> nat option" where
  "utf16_scan utf16_index units index [] = None"
| "utf16_scan utf16_index units index (ch # cs) =
     (if units \<ge> utf16_index then Some index
      else let units = units + len_utf16 ch
           in if units \<ge> utf16_index then Some (index + 1)
              else utf16_scan utf16_index units (index + 1) cs)"

definition utf16_index_to_char :: "string \<Rightarrow> nat \<Rightarrow> nat" where
  "utf16_index_to_char s utf16_index =
     (case utf16_scan utf16_index 0 0 (chars s) of
        Some index \<Rightarrow> index
      | None \<Rightarrow> length (chars s))"

section \<open>The conversions are inverse\<close>

abbreviation units :: "string list \<Rightarrow> nat" where
  "units cs \<equiv> sum_list (map len_utf16 cs)"

lemma len_utf16_bounds: "0 < len_utf16 c" "len_utf16 c \<le> 2"
  by (simp_all add: len_utf16_def)

lemma units_strict: "i < j \<Longrightarrow> j \<le> length cs \<Longrightarrow> units (take i cs) < units (take j cs)"
proof (induction cs arbitrary: i j)
  case (Cons c cs)
  then obtain k where "j = Suc k" by (cases j) auto
  with Cons len_utf16_bounds [of c] show ?case by (cases i) (auto simp: add_pos_nonneg)
qed simp

text \<open>The scan answers the least number of characters that have at least the units asked for.\<close>

lemma utf16_scan_least:
  assumes "k = (case utf16_scan u n i cs of Some j \<Rightarrow> j - i | None \<Rightarrow> length cs)"
  shows "k \<le> length cs" "u \<le> n + units (take k cs) \<or> k = length cs"
    "\<And>j. j < k \<Longrightarrow> n + units (take j cs) < u"
    "\<forall>j. utf16_scan u n i cs = Some j \<longrightarrow> i \<le> j"
proof -
  have "k \<le> length cs \<and> (u \<le> n + units (take k cs) \<or> k = length cs) \<and>
      (\<forall>j < k. n + units (take j cs) < u) \<and> (\<forall>j. utf16_scan u n i cs = Some j \<longrightarrow> i \<le> j)"
    using assms
  proof (induction cs arbitrary: n i k)
    case (Cons c cs)
    consider (here) "u \<le> n" | (this_one) "n < u" "u \<le> n + len_utf16 c" | (further) "n + len_utf16 c < u" by linarith
    then show ?case
    proof cases
      case here
      then show ?thesis using Cons.prems by simp
    next
      case this_one
      then show ?thesis using Cons.prems by simp
    next
      case further
      let ?r = "utf16_scan u (n + len_utf16 c) (i + 1) cs"
      let ?k = "case ?r of Some j \<Rightarrow> j - (i + 1) | None \<Rightarrow> length cs"
      note IH = Cons.IH [where k = ?k and n = "n + len_utf16 c" and i = "i + 1", OF refl]
      have k: "k = Suc ?k"
        using Cons.prems further IH by (cases ?r) (auto simp: Let_def)
      have "n + units (take j (c # cs)) < u" if "j < k" for j
        using that IH further by (cases j) (auto simp: k add.assoc)
      then show ?thesis
        using IH further by (auto simp: k add.assoc Let_def)
    qed
  qed simp
  then show "k \<le> length cs" "u \<le> n + units (take k cs) \<or> k = length cs"
    "\<And>j. j < k \<Longrightarrow> n + units (take j cs) < u" "\<forall>j. utf16_scan u n i cs = Some j \<longrightarrow> i \<le> j" by blast+
qed

lemma utf16_index_least:
  assumes "k = utf16_index_to_char s u"
  shows "k \<le> length (chars s)" "u \<le> char_index_to_utf16 s k \<or> k = length (chars s)"
    "\<And>j. j < k \<Longrightarrow> char_index_to_utf16 s j < u"
proof -
  have "k = (case utf16_scan u 0 0 (chars s) of Some j \<Rightarrow> j - 0 | None \<Rightarrow> length (chars s))"
    unfolding assms utf16_index_to_char_def by (cases "utf16_scan u 0 0 (chars s)") simp_all
  note least = utf16_scan_least [OF this]
  show "k \<le> length (chars s)" by (rule least)
  show "u \<le> char_index_to_utf16 s k \<or> k = length (chars s)" using least(2) by (simp add: char_index_to_utf16_def)
  show "\<And>j. j < k \<Longrightarrow> char_index_to_utf16 s j < u" using least(3) by (simp add: char_index_to_utf16_def)
qed

lemma char_index_strict: "i < j \<Longrightarrow> j \<le> length (chars s) \<Longrightarrow> char_index_to_utf16 s i < char_index_to_utf16 s j"
  by (simp add: char_index_to_utf16_def units_strict)

lemma utf16_of_char_index: "i \<le> length (chars s) \<Longrightarrow> utf16_index_to_char s (char_index_to_utf16 s i) = i"
proof -
  assume i: "i \<le> length (chars s)"
  let ?k = "utf16_index_to_char s (char_index_to_utf16 s i)"
  note k = utf16_index_least [where s = s and u = "char_index_to_utf16 s i", OF refl]
  show "?k = i"
  proof (rule linorder_cases [of ?k i])
    assume "?k < i"
    then show ?thesis using k(2) char_index_strict [of ?k i s] i by auto
  next
    assume "i < ?k"
    then show ?thesis using k(3) [of i] by simp
  qed
qed

lemma char_index_step:
  "i < length (chars s) \<Longrightarrow> char_index_to_utf16 s (Suc i) \<le> char_index_to_utf16 s i + 2"
  using len_utf16_bounds(2) by (simp add: char_index_to_utf16_def take_Suc_conv_app_nth)

lemma char_index_past: "length (chars s) \<le> i \<Longrightarrow> char_index_to_utf16 s i = char_index_to_utf16 s (length (chars s))"
  by (simp add: char_index_to_utf16_def)

text \<open>C34: \<^bold>\<open>UTF-16 indices\<close>. Converting a character index to UTF-16 and back gives the index, or
  the end of the text for an index past it. A UTF-16 index inside the text comes back unchanged, or one
  unit further when it points into the middle of a surrogate pair.\<close>

theorem utf16_roundtrip:
  "utf16_index_to_char s (char_index_to_utf16 s i) = min i (length (chars s)) \<and>
   (let u' = char_index_to_utf16 s (utf16_index_to_char s (min u (char_index_to_utf16 s (length (chars s)))))
    in min u (char_index_to_utf16 s (length (chars s))) \<le> u' \<and> u' \<le> u + 1)"
proof -
  let ?n = "length (chars s)"
  let ?u = "min u (char_index_to_utf16 s ?n)"
  let ?k = "utf16_index_to_char s ?u"
  have "utf16_index_to_char s (char_index_to_utf16 s i) = min i ?n"
    using utf16_of_char_index [of i s] utf16_of_char_index [of ?n s] char_index_past [of s i] by (cases "i \<le> ?n") auto
  moreover have "?u \<le> char_index_to_utf16 s ?k"
    using utf16_index_least(2) [where s = s and u = ?u, OF refl] by auto
  moreover have "char_index_to_utf16 s ?k \<le> u + 1"
  proof (cases ?k)
    case 0
    then show ?thesis by (simp add: char_index_to_utf16_def)
  next
    case (Suc j)
    then have "char_index_to_utf16 s j < ?u" "j < ?n"
      using utf16_index_least(3) [where s = s and u = ?u and j = j, OF refl] utf16_index_least(1) [where s = s and u = ?u, OF refl] by auto
    then show ?thesis using char_index_step [of j s] Suc by auto
  qed
  ultimately show ?thesis by (simp add: Let_def)
qed

text \<open>A text with a character outside the basic plane.\<close>

lemma utf16_examples:
  "chars [CHR ''a'', CHR 0xF0, CHR 0x9F, CHR 0x98, CHR 0x80, CHR ''b''] =
     [''a'', [CHR 0xF0, CHR 0x9F, CHR 0x98, CHR 0x80], ''b'']"
  "char_index_to_utf16 [CHR ''a'', CHR 0xF0, CHR 0x9F, CHR 0x98, CHR 0x80, CHR ''b''] 2 = 3"
  "utf16_index_to_char [CHR ''a'', CHR 0xF0, CHR 0x9F, CHR 0x98, CHR 0x80, CHR ''b''] 2 = 2"
  by code_simp+

end
