(* ===== verification/App_State.thy ===== *)
theory App_State
  imports Backend Channel Diagnostics Utf16
begin

text \<open>
  The application object \<open>WakerApp\<close> of \<open>crates/waker-app/src/lib.rs\<close>: the attempt in
  progress, the two diagnostic checks, their receivers, results and deadlines, and the operations
  that start, drain and time out. The machine holds what the application shares with its worker
  threads and the operating system: the channels, the threads started, the file system, the clocks.
\<close>

section \<open>The model\<close>

subsection \<open>Data\<close>

record active_attempt =
  aa_id :: u64
  aa_started :: instant

record attempt_summary =
  as_elapsed :: duration
  as_failure :: "wake_failure option"

type_synonym check_result = "string + bool"

definition terminal_state_display_duration :: duration where
  "terminal_state_display_duration = from_secs 5"

definition confetti_duration :: duration where
  "confetti_duration = from_millis 1700"

text \<open>The text field that has the focus, as it is handed to Android's text input.\<close>

datatype android_text_field = ConfigPath | FritzIp | PcMac

record text_snapshot =
  ts_field :: android_text_field
  ts_text :: string
  ts_selection_start :: nat
  ts_selection_end :: nat
  ts_clicked :: bool

text \<open>Receivers are the numbers of their channels, a burst of confetti is the time it started.\<close>

record waker_app =
  wa_config_path :: string
  wa_fritz_ip :: string
  wa_pc_mac :: string
  wa_state :: wake_state
  wa_state_rx :: "nat option"
  wa_busy :: bool
  wa_active :: "active_attempt option"
  wa_last :: "attempt_summary option"
  wa_terminal_deadline :: "instant option"
  wa_status_rx :: "nat option"
  wa_host_status :: "check_result option"
  wa_host_status_deadline :: "instant option"
  wa_ping_rx :: "nat option"
  wa_ping_status :: "check_result option"
  wa_ping_status_deadline :: "instant option"
  wa_diagnostics :: diagnostics_info
  wa_clipboard_status :: "(string + unit) option"
  wa_open_log_status :: "(string + unit) option"
  wa_confetti_pending :: bool
  wa_confetti :: "instant option"
  wa_text_input :: "text_snapshot option"
  wa_selection_override :: "(android_text_field \<times> nat \<times> nat) option"

record fritz_job =
  fj_profile :: wireguard_profile
  fj_fritz_ip :: ipv4
  fj_mac :: mac_address

record wake_job =
  wj_fritz :: fritz_job
  wj_target :: wake_target

datatype worker =
  WakeWorker wake_job u64 (worker_channel: nat)
| StatusWorker fritz_job (worker_channel: nat)
| PingWorker fritz_job (worker_channel: nat)

text \<open>
  Where the program runs: on Android, with the activity's functions that open a log and fill the
  clipboard when there is an activity. \<open>ui_command\<close> is what leaves the application.
\<close>

datatype platform =
  Desktop
| Android "((string \<Rightarrow> string + unit) \<times> (string \<Rightarrow> string + unit)) option"

datatype ui_command = OpenUrl string | CopyText string | AndroidOpenLog string | AndroidCopyText string

text \<open>One answer of the operating system: the clocks, and whether a thread can be started.\<close>

record os_answer =
  os_now :: instant
  os_unix_ms :: nat
  os_spawn :: "string + unit"

record machine =
  mc_answers :: "nat \<Rightarrow> os_answer"
  mc_asked :: nat
  mc_last_id :: u64
  mc_read :: "string \<Rightarrow> string + string"
  mc_home :: "string option"
  mc_logs :: log_files
  mc_states :: "nat \<Rightarrow> wake_state channel"
  mc_checks :: "nat \<Rightarrow> check_result channel"
  mc_fresh :: nat
  mc_workers :: "worker list"
  mc_repaints :: "duration list"
  mc_platform :: platform
  mc_commands :: "ui_command list"

type_synonym app_sys = "waker_app \<times> machine"

definition ask :: "machine \<Rightarrow> os_answer \<times> machine" where
  "ask m = (mc_answers m (mc_asked m), m\<lparr>mc_asked := Suc (mc_asked m)\<rparr>)"

definition now :: "machine \<Rightarrow> instant \<times> machine" where
  "now m = (let (a, m) = ask m in (os_now a, m))"

definition request_repaint_after :: "duration \<Rightarrow> machine \<Rightarrow> machine" where
  "request_repaint_after d m = m\<lparr>mc_repaints := mc_repaints m @ [d]\<rparr>"

subsection \<open>Channels\<close>

definition new_state_channel :: "machine \<Rightarrow> nat \<times> machine" where
  "new_state_channel m =
     (mc_fresh m, m\<lparr>mc_states := (mc_states m)(mc_fresh m := new_channel), mc_fresh := Suc (mc_fresh m)\<rparr>)"

definition new_check_channel :: "machine \<Rightarrow> nat \<times> machine" where
  "new_check_channel m =
     (mc_fresh m, m\<lparr>mc_checks := (mc_checks m)(mc_fresh m := new_channel), mc_fresh := Suc (mc_fresh m)\<rparr>)"

definition on_states :: "(wake_state channel \<Rightarrow> wake_state channel) \<Rightarrow> nat \<Rightarrow> machine \<Rightarrow> machine" where
  "on_states f n m = m\<lparr>mc_states := (mc_states m)(n := f (mc_states m n))\<rparr>"

definition on_checks :: "(check_result channel \<Rightarrow> check_result channel) \<Rightarrow> nat \<Rightarrow> machine \<Rightarrow> machine" where
  "on_checks f n m = m\<lparr>mc_checks := (mc_checks m)(n := f (mc_checks m n))\<rparr>"

text \<open>Assigning to a receiver field drops the receiver it held.\<close>

definition set_state_rx :: "nat option \<Rightarrow> app_sys \<Rightarrow> app_sys" where
  "set_state_rx rx s =
     (let (a, m) = s
      in (a\<lparr>wa_state_rx := rx\<rparr>, case wa_state_rx a of None \<Rightarrow> m | Some n \<Rightarrow> on_states drop_receiver n m))"

definition set_status_rx :: "nat option \<Rightarrow> app_sys \<Rightarrow> app_sys" where
  "set_status_rx rx s =
     (let (a, m) = s
      in (a\<lparr>wa_status_rx := rx\<rparr>, case wa_status_rx a of None \<Rightarrow> m | Some n \<Rightarrow> on_checks drop_receiver n m))"

definition set_ping_rx :: "nat option \<Rightarrow> app_sys \<Rightarrow> app_sys" where
  "set_ping_rx rx s =
     (let (a, m) = s
      in (a\<lparr>wa_ping_rx := rx\<rparr>, case wa_ping_rx a of None \<Rightarrow> m | Some n \<Rightarrow> on_checks drop_receiver n m))"

text \<open>A thread that cannot be started drops its closure and the sender in it.\<close>

definition hang_up :: "worker \<Rightarrow> machine \<Rightarrow> machine" where
  "hang_up w m =
     (case w of
        WakeWorker _ _ n \<Rightarrow> on_states drop_senders n m
      | StatusWorker _ n \<Rightarrow> on_checks drop_senders n m
      | PingWorker _ n \<Rightarrow> on_checks drop_senders n m)"

definition spawn_worker :: "worker \<Rightarrow> machine \<Rightarrow> (string + unit) \<times> machine" where
  "spawn_worker w m =
     (let (a, m) = ask m
      in case os_spawn a of
           Err e \<Rightarrow> (Err e, hang_up w m)
         | Ok _ \<Rightarrow> (Ok (), m\<lparr>mc_workers := mc_workers m @ [w]\<rparr>))"

definition attempt_id :: "machine \<Rightarrow> u64 \<times> machine" where
  "attempt_id m =
     (let (a, m) = ask m; (i, stored) = next_attempt_id (os_unix_ms a) (mc_last_id m)
      in (i, m\<lparr>mc_last_id := stored\<rparr>))"

subsection \<open>Construction\<close>

text \<open>\<open>env\<close> is \<open>std::env::var(\<dots>).ok()\<close>.\<close>

definition app_new ::
  "(string \<Rightarrow> string option) \<Rightarrow> diagnostics_info \<Rightarrow> string option \<Rightarrow> machine \<Rightarrow> waker_app" where
  "app_new env info default_config_path m =
     (let config_path = (case env ''WAKER_WG_CONFIG'' of
            Some p \<Rightarrow> p
          | None \<Rightarrow> from_utf8_lossy
              (case default_config_path of None \<Rightarrow> ''waker.local.conf'' | Some p \<Rightarrow> p));
          settings = load_waker_file_settings (mc_read m) (mc_home m) config_path
      in \<lparr>wa_config_path = config_path,
          wa_fritz_ip = (case env ''WAKER_FRITZ_IP'' of
              Some v \<Rightarrow> v
            | None \<Rightarrow> (case fs_fritz_ip settings of Some v \<Rightarrow> v | None \<Rightarrow> ''192.168.178.1'')),
          wa_pc_mac = (case env ''WAKER_PC_MAC'' of
              Some v \<Rightarrow> v
            | None \<Rightarrow> (case fs_pc_mac settings of Some v \<Rightarrow> v | None \<Rightarrow> [])),
          wa_state = Idle, wa_state_rx = None, wa_busy = False, wa_active = None, wa_last = None,
          wa_terminal_deadline = None, wa_status_rx = None, wa_host_status = None,
          wa_host_status_deadline = None, wa_ping_rx = None, wa_ping_status = None,
          wa_ping_status_deadline = None, wa_diagnostics = info, wa_clipboard_status = None,
          wa_open_log_status = None, wa_confetti_pending = False, wa_confetti = None,
          wa_text_input = None, wa_selection_override = None\<rparr>)"

subsection \<open>Jobs\<close>

definition build_fritz_job :: "codecs \<Rightarrow> waker_app \<Rightarrow> machine \<Rightarrow> string + fritz_job" where
  "build_fritz_job C a m =
     (let config_path = expand_home (mc_home m) (wa_config_path a) in
      and_then (map_err (\<lambda>e. ''could not read WireGuard profile '' @ from_utf8_lossy config_path @ '': '' @ e)
        (mc_read m config_path)) (\<lambda>config.
      and_then (map_err show_net_error (parse_profile C config)) (\<lambda>profile.
      and_then (ok_or ''invalid FRITZ!Box IPv4 address: invalid IPv4 address syntax''
        (parse_ipv4 (trim (wa_fritz_ip a)))) (\<lambda>fritz_ip.
      and_then (map_err show_mac_error (mac_from_str (trim (wa_pc_mac a)))) (\<lambda>mac.
      Ok \<lparr>fj_profile = profile, fj_fritz_ip = fritz_ip, fj_mac = mac\<rparr>)))))"

definition build_job :: "codecs \<Rightarrow> waker_app \<Rightarrow> machine \<Rightarrow> string + wake_job" where
  "build_job C a m =
     and_then (build_fritz_job C a m) (\<lambda>fritz.
       Ok \<lparr>wj_fritz = fritz, wj_target = wake_target_new (fj_mac fritz)\<rparr>)"

subsection \<open>The wake attempt\<close>

definition finish_attempt :: "app_sys \<Rightarrow> app_sys" where
  "finish_attempt s =
     (let (a, m) = s
      in case wa_active a of
           None \<Rightarrow> (a, m)
         | Some active \<Rightarrow>
             (let failure = (case wa_state a of Core_Types.Failed f \<Rightarrow> Some f | _ \<Rightarrow> None);
                  (t, m) = now m;
                  a = a\<lparr>wa_active := None,
                        wa_last := Some \<lparr>as_elapsed = t - aa_started active, as_failure = failure\<rparr>\<rparr>;
                  a = (if wa_state a = Awake then a\<lparr>wa_confetti_pending := True\<rparr> else a)
              in if is_terminal (wa_state a)
                 then (let (t, m) = now m
                       in (a\<lparr>wa_terminal_deadline := Some (t + terminal_state_display_duration)\<rparr>, m))
                 else (a, m)))"

definition begin_wake :: "codecs \<Rightarrow> app_sys \<Rightarrow> app_sys" where
  "begin_wake C s =
     (let (a, m) = s;
          a = a\<lparr>wa_terminal_deadline := None\<rparr>;
          (i, m) = attempt_id m;
          (t, m) = now m;
          a = a\<lparr>wa_active := Some \<lparr>aa_id = i, aa_started = t\<rparr>\<rparr>
      in case build_job C a m of
           Ok job \<Rightarrow>
             (let (n, m) = new_state_channel m;
                  (a, m) = set_state_rx (Some n) (a, m);
                  a = a\<lparr>wa_state := Connecting, wa_busy := True\<rparr>
              in case spawn_worker (WakeWorker job i n) m of
                   (Ok _, m) \<Rightarrow> (a, m)
                 | (Err e, m) \<Rightarrow>
                     (let a = a\<lparr>wa_state := Core_Types.Failed (wake_failure_new Runtime
                                  (''could not create worker thread: '' @ e))\<rparr>;
                          (a, m) = set_state_rx None (a, m)
                      in finish_attempt (a\<lparr>wa_busy := False\<rparr>, m)))
         | Err why \<Rightarrow>
             finish_attempt
               (a\<lparr>wa_state := Core_Types.Failed (wake_failure_new Configuration why), wa_busy := False\<rparr>, m))"

text \<open>
  The loop over \<open>try_recv\<close>. A report that a worker sends while the loop runs is in the queue
  before the last call of \<open>try_recv\<close> or not at all, so the loop runs on the channel as it is then.
\<close>

definition worker_stopped :: wake_failure where
  "worker_stopped = wake_failure_new Runtime ''wake worker stopped without reporting a terminal result''"

function drain_states ::
  "bool \<Rightarrow> wake_state channel \<Rightarrow> bool \<Rightarrow> wake_state \<Rightarrow> bool \<times> wake_state \<times> wake_state channel" where
  "drain_states busy c terminal st =
     (case try_recv c of
        (Received st', c') \<Rightarrow> drain_states busy c' (terminal \<or> is_terminal st') st'
      | (Empty, c') \<Rightarrow> (terminal, st, c')
      | (Channel.Disconnected, c') \<Rightarrow>
          if busy \<and> \<not> terminal then (True, Core_Types.Failed worker_stopped, c') else (terminal, st, c'))"
  by pat_completeness auto
termination
  by (relation "measure (\<lambda>(busy, c, terminal, st). length (ch_queue c))")
    (auto simp: try_recv_def split: list.splits if_splits)

declare drain_states.simps [simp del]

definition drain_state_updates :: "app_sys \<Rightarrow> app_sys" where
  "drain_state_updates s =
     (let (a, m) = s
      in case wa_state_rx a of
           None \<Rightarrow> (a, m)
         | Some n \<Rightarrow>
             (let (terminal, st, c) = drain_states (wa_busy a) (mc_states m n) False (wa_state a);
                  a = a\<lparr>wa_state := st\<rparr>;
                  m = on_states (\<lambda>_. c) n m
              in if terminal
                 then finish_attempt (set_state_rx None (a\<lparr>wa_busy := False\<rparr>, m))
                 else (a, m)))"

subsection \<open>The diagnostic checks\<close>

definition checks_blocked :: "waker_app \<Rightarrow> bool" where
  "checks_blocked a \<longleftrightarrow> wa_busy a \<or> wa_status_rx a \<noteq> None \<or> wa_ping_rx a \<noteq> None"

definition show_host_status :: "check_result \<Rightarrow> app_sys \<Rightarrow> app_sys" where
  "show_host_status r s =
     (let (a, m) = s; (t, m) = now m
      in (a\<lparr>wa_host_status := Some r,
            wa_host_status_deadline := Some (t + terminal_state_display_duration)\<rparr>, m))"

definition show_ping_status :: "check_result \<Rightarrow> app_sys \<Rightarrow> app_sys" where
  "show_ping_status r s =
     (let (a, m) = s; (t, m) = now m
      in (a\<lparr>wa_ping_status := Some r,
            wa_ping_status_deadline := Some (t + terminal_state_display_duration)\<rparr>, m))"

definition repaint_at_deadline :: "app_sys \<Rightarrow> app_sys" where
  "repaint_at_deadline s = (fst s, request_repaint_after terminal_state_display_duration (snd s))"

definition begin_host_status_check :: "codecs \<Rightarrow> app_sys \<Rightarrow> app_sys" where
  "begin_host_status_check C s =
     (let (a, m) = s
      in if checks_blocked a then (a, m)
         else (let a = a\<lparr>wa_host_status_deadline := None\<rparr>
               in case build_fritz_job C a m of
                    Ok job \<Rightarrow>
                      (let (n, m) = new_check_channel m;
                           (a, m) = set_status_rx (Some n) (a, m);
                           a = a\<lparr>wa_host_status := None\<rparr>
                       in case spawn_worker (StatusWorker job n) m of
                            (Ok _, m) \<Rightarrow> (a, m)
                          | (Err e, m) \<Rightarrow>
                              repaint_at_deadline (show_host_status (Err (''Could not create worker thread: '' @ e))
                                (set_status_rx None (a, m))))
                  | Err why \<Rightarrow> repaint_at_deadline (show_host_status (Err why) (a, m))))"

definition begin_ping_check :: "codecs \<Rightarrow> app_sys \<Rightarrow> app_sys" where
  "begin_ping_check C s =
     (let (a, m) = s
      in if checks_blocked a then (a, m)
         else (let a = a\<lparr>wa_ping_status_deadline := None\<rparr>
               in case build_fritz_job C a m of
                    Ok job \<Rightarrow>
                      (let (n, m) = new_check_channel m;
                           (a, m) = set_ping_rx (Some n) (a, m);
                           a = a\<lparr>wa_ping_status := None\<rparr>
                       in case spawn_worker (PingWorker job n) m of
                            (Ok _, m) \<Rightarrow> (a, m)
                          | (Err e, m) \<Rightarrow>
                              repaint_at_deadline (show_ping_status (Err (''Could not create worker thread: '' @ e))
                                (set_ping_rx None (a, m))))
                  | Err why \<Rightarrow> repaint_at_deadline (show_ping_status (Err why) (a, m))))"

definition drain_host_status_update :: "app_sys \<Rightarrow> app_sys" where
  "drain_host_status_update s =
     (let (a, m) = s
      in case wa_status_rx a of
           None \<Rightarrow> (a, m)
         | Some n \<Rightarrow>
             (let (r, c) = try_recv (mc_checks m n);
                  m = on_checks (\<lambda>_. c) n m;
                  update = (case r of
                      Received result \<Rightarrow> Some result
                    | Empty \<Rightarrow> None
                    | Channel.Disconnected \<Rightarrow> Some (Err ''Host status worker stopped without reporting a result''))
              in case update of
                   None \<Rightarrow> (a, m)
                 | Some result \<Rightarrow> set_status_rx None (show_host_status result (a, m))))"

definition drain_ping_update :: "app_sys \<Rightarrow> app_sys" where
  "drain_ping_update s =
     (let (a, m) = s
      in case wa_ping_rx a of
           None \<Rightarrow> (a, m)
         | Some n \<Rightarrow>
             (let (r, c) = try_recv (mc_checks m n);
                  m = on_checks (\<lambda>_. c) n m;
                  update = (case r of
                      Received result \<Rightarrow> Some result
                    | Empty \<Rightarrow> None
                    | Channel.Disconnected \<Rightarrow> Some (Err ''Ping worker stopped without reporting a result''))
              in case update of
                   None \<Rightarrow> (a, m)
                 | Some result \<Rightarrow> set_ping_rx None (show_ping_status result (a, m))))"

subsection \<open>Deadlines\<close>

definition update_terminal_state_timeout :: "instant \<Rightarrow> waker_app \<Rightarrow> duration option \<times> waker_app" where
  "update_terminal_state_timeout t a =
     (case wa_terminal_deadline a of
        None \<Rightarrow> (None, a)
      | Some deadline \<Rightarrow>
          if \<not> is_terminal (wa_state a) then (None, a\<lparr>wa_terminal_deadline := None\<rparr>)
          else if t \<ge> deadline then (None, a\<lparr>wa_state := Idle, wa_terminal_deadline := None\<rparr>)
          else (Some (deadline - t), a))"

text \<open>One turn of the loop over the deadlines: the deadline and the next repaint after it.\<close>

definition deadline_turn ::
  "instant \<Rightarrow> instant option \<Rightarrow> duration option \<Rightarrow> instant option \<times> duration option" where
  "deadline_turn t deadline next_repaint =
     (case deadline of
        None \<Rightarrow> (None, next_repaint)
      | Some value \<Rightarrow>
          if t \<ge> value then (None, next_repaint)
          else (Some value, Some (case next_repaint of None \<Rightarrow> value - t | Some r \<Rightarrow> min r (value - t))))"

definition update_diagnostic_result_timeouts :: "instant \<Rightarrow> waker_app \<Rightarrow> duration option \<times> waker_app" where
  "update_diagnostic_result_timeouts t a =
     (let (status, next_repaint) = deadline_turn t (wa_host_status_deadline a) None;
          (on_ping, next_repaint) = deadline_turn t (wa_ping_status_deadline a) next_repaint
      in (next_repaint, a\<lparr>wa_host_status_deadline := status, wa_ping_status_deadline := on_ping\<rparr>))"

subsection \<open>Labels\<close>

definition host_status_button_label :: "waker_app \<Rightarrow> string" where
  "host_status_button_label a =
     (if wa_status_rx a \<noteq> None then ''Checking FRITZ!Box'' @ ellipsis
      else case (wa_host_status_deadline a, wa_host_status a) of
             (Some _, Some (Ok True)) \<Rightarrow> ''PC online''
           | (Some _, Some (Ok False)) \<Rightarrow> ''PC offline''
           | _ \<Rightarrow> ''Check PC via FRITZ!Box API'')"

definition ping_button_label :: "waker_app \<Rightarrow> string" where
  "ping_button_label a =
     (if wa_ping_rx a \<noteq> None then ''Pinging PC'' @ ellipsis
      else case (wa_ping_status_deadline a, wa_ping_status a) of
             (Some _, Some (Ok True)) \<Rightarrow> ''PC replied''
           | (Some _, Some (Ok False)) \<Rightarrow> ''No ICMP reply''
           | _ \<Rightarrow> ''Ping PC through tunnel'')"

definition diagnostic_action_enabled :: "waker_app \<Rightarrow> bool" where
  "diagnostic_action_enabled a \<longleftrightarrow> \<not> wa_busy a \<and> wa_status_rx a = None \<and> wa_ping_rx a = None"

definition wake_button_label :: "waker_app \<Rightarrow> string" where
  "wake_button_label a =
     (case wa_state a of
        Idle \<Rightarrow> ''Wake''
      | Core_Types.Failed _ \<Rightarrow> ''Wake''
      | Connecting \<Rightarrow> ''Connecting'' @ ellipsis
      | ResolvingPc \<Rightarrow> ''Finding PC'' @ ellipsis
      | Waking \<Rightarrow> ''Sending wake request'' @ ellipsis
      | WaitingForPc _ \<Rightarrow> ''Waiting for PC'' @ ellipsis
      | Awake \<Rightarrow> ''PC awake!'')"

end
