(* ===== verification/App_Ui.thy ===== *)
theory App_Ui
  imports App_State
begin

text \<open>
  One frame of the user interface of \<open>crates/waker-app/src/lib.rs\<close>: what \<open>show_ui\<close> drains,
  times out, draws and lets the user do, and the texts it shows or hands out. What is drawn is a list
  of widgets without their layout and colours; what the user did is the frame's input.
\<close>

section \<open>The model\<close>

datatype widget =
  Label string | Small string | ErrorLabel string | WarnLabel string
| Button string bool | TextField string | Collapsing string

text \<open>The answer of a text field: the edited text, and the cursors (primary, secondary).\<close>

record field_output =
  fo_edit :: "string \<Rightarrow> string"
  fo_focus :: bool
  fo_cursor :: "(nat \<times> nat) option"
  fo_clicked :: bool

record ui_input =
  in_wake :: bool
  in_status :: bool
  in_ping :: bool
  in_open_log :: bool
  in_copy :: bool
  in_settings_open :: bool
  in_diagnostics_open :: bool
  in_config_path :: field_output
  in_fritz_ip :: field_output
  in_pc_mac :: field_output

text \<open>
  The parameters: the codecs of the profile parser, \<open>wide\<close> of the \<open>Debug\<close> format, the decimal
  format of seconds, and the cursors (primary, secondary) of egui's \<open>CCursorRange::two\<close>.
\<close>

record app_params =
  ap_codecs :: codecs
  ap_wide :: "string \<Rightarrow> string"
  ap_secs1 :: "duration \<Rightarrow> string"
  ap_two :: "nat \<Rightarrow> nat \<Rightarrow> nat \<times> nat"

definition diagnostic_tail_bytes :: nat where "diagnostic_tail_bytes = 64 * 1024"

subsection \<open>Logs\<close>

definition current_log_text :: "app_sys \<Rightarrow> string" where
  "current_log_text s =
     sanitize_diagnostics (recent_log_tail (mc_logs (snd s)) (wa_diagnostics (fst s)) diagnostic_tail_bytes)"

fun show_check :: "string \<Rightarrow> string \<Rightarrow> check_result \<Rightarrow> string" where
  "show_check yes no (Ok True) = yes"
| "show_check yes no (Ok False) = no"
| "show_check yes no (Err e) = ''failed - '' @ e"

definition diagnostics_bundle :: "(duration \<Rightarrow> string) \<Rightarrow> waker_app \<Rightarrow> string \<Rightarrow> string" where
  "diagnostics_bundle secs1 a log_text =
     (let output = ''Waker diagnostics'' @ [nl];
          output = output @ (case wa_last a of
              None \<Rightarrow> []
            | Some summary \<Rightarrow>
                (let outcome = (case as_failure summary of
                       Some f \<Rightarrow> ''failed ('' @ log_name (stage f) @ '') - '' @ friendly_failure_message f
                     | None \<Rightarrow> ''succeeded'')
                 in ''Last wake: '' @ outcome @ '' in '' @ format_duration secs1 (as_elapsed summary) @ [nl, nl]));
          output = output @ (case wa_host_status a of
              None \<Rightarrow> []
            | Some r \<Rightarrow> ''FRITZ!Box host status: '' @ show_check ''online'' ''offline'' r @ [nl, nl]);
          output = output @ (case wa_ping_status a of
              None \<Rightarrow> []
            | Some r \<Rightarrow> ''PC ICMP ping: '' @ show_check ''reply received'' ''no reply'' r @ [nl, nl])
      in sanitize_diagnostics (output @ log_text))"

definition issue :: "ui_command \<Rightarrow> machine \<Rightarrow> machine" where
  "issue c m = m\<lparr>mc_commands := mc_commands m @ [c]\<rparr>"

definition open_log :: "app_sys \<Rightarrow> app_sys" where
  "open_log s =
     (let (a, m) = s;
          a = a\<lparr>wa_clipboard_status := None\<rparr>;
          out = current_log_text (a, m);
          (result, m) = (case mc_platform m of
              Desktop \<Rightarrow> (Ok (), issue (OpenUrl (text_data_uri out)) m)
            | Android None \<Rightarrow> (Err ''Android activity is unavailable'', m)
            | Android (Some (open_text, copy_text)) \<Rightarrow> (open_text out, issue (AndroidOpenLog out) m))
      in (a\<lparr>wa_open_log_status := Some result\<rparr>, m))"

definition copy_diagnostics_to_clipboard :: "(duration \<Rightarrow> string) \<Rightarrow> app_sys \<Rightarrow> app_sys" where
  "copy_diagnostics_to_clipboard secs1 s =
     (let (a, m) = s;
          a = a\<lparr>wa_open_log_status := None\<rparr>;
          log_text = current_log_text (a, m);
          out = diagnostics_bundle secs1 a log_text;
          (result, m) = (case mc_platform m of
              Desktop \<Rightarrow> (Ok (), issue (CopyText out) m)
            | Android None \<Rightarrow> (Err ''Android activity is unavailable'', m)
            | Android (Some (open_text, copy_text)) \<Rightarrow> (copy_text out, issue (AndroidCopyText out) m))
      in (a\<lparr>wa_clipboard_status := Some result\<rparr>, m))"

subsection \<open>Text fields\<close>

fun field_text :: "android_text_field \<Rightarrow> waker_app \<Rightarrow> string" where
  "field_text ConfigPath a = wa_config_path a"
| "field_text FritzIp a = wa_fritz_ip a"
| "field_text PcMac a = wa_pc_mac a"

fun set_field_text :: "android_text_field \<Rightarrow> string \<Rightarrow> waker_app \<Rightarrow> waker_app" where
  "set_field_text ConfigPath t a = a\<lparr>wa_config_path := t\<rparr>"
| "set_field_text FritzIp t a = a\<lparr>wa_fritz_ip := t\<rparr>"
| "set_field_text PcMac t a = a\<lparr>wa_pc_mac := t\<rparr>"

definition capture_text_edit ::
  "(nat \<Rightarrow> nat \<Rightarrow> nat \<times> nat) \<Rightarrow> android_text_field \<Rightarrow> field_output \<Rightarrow> waker_app \<Rightarrow> waker_app" where
  "capture_text_edit two f out a =
     (let (cursor_range, a) = (case wa_selection_override a of
            None \<Rightarrow> (fo_cursor out, a)
          | Some (f', start, end_) \<Rightarrow>
              if f' = f then (Some (two start end_), a\<lparr>wa_selection_override := None\<rparr>)
              else (fo_cursor out, a))
      in if \<not> fo_focus out then a
         else (let content = field_text f a;
                   fallback = length (chars content);
                   (selection_start, selection_end) =
                     (case cursor_range of Some (primary, secondary) \<Rightarrow> (primary, secondary) | None \<Rightarrow> (fallback, fallback))
               in a\<lparr>wa_text_input := Some \<lparr>ts_field = f, ts_text = content,
                     ts_selection_start = selection_start, ts_selection_end = selection_end,
                     ts_clicked = fo_clicked out\<rparr>\<rparr>))"

definition apply_android_text_input_state :: "string \<Rightarrow> nat \<Rightarrow> nat \<Rightarrow> waker_app \<Rightarrow> waker_app" where
  "apply_android_text_input_state content selection_start selection_end a =
     (case wa_text_input a of
        None \<Rightarrow> a
      | Some snapshot \<Rightarrow>
          (set_field_text (ts_field snapshot) content a)
            \<lparr>wa_selection_override := Some (ts_field snapshot, selection_start, selection_end)\<rparr>)"

definition edit_field ::
  "app_params \<Rightarrow> android_text_field \<Rightarrow> field_output \<Rightarrow> app_sys \<Rightarrow> widget list \<times> app_sys" where
  "edit_field P f out s =
     (let (a, m) = s;
          a = set_field_text f (fo_edit out (field_text f a)) a;
          a = (case mc_platform m of Desktop \<Rightarrow> a | Android _ \<Rightarrow> capture_text_edit (ap_two P) f out a)
      in ([TextField (field_text f a)], a, m))"

definition render_settings :: "app_params \<Rightarrow> ui_input \<Rightarrow> app_sys \<Rightarrow> widget list \<times> app_sys" where
  "render_settings P i s =
     (if \<not> in_settings_open i then ([Collapsing ''Settings''], s)
      else (let (w1, s) = edit_field P ConfigPath (in_config_path i) s;
                (w2, s) = edit_field P FritzIp (in_fritz_ip i) s;
                (w3, s) = edit_field P PcMac (in_pc_mac i) s
            in ([Collapsing ''Settings'', Label ''WireGuard profile''] @ w1 @ [Label ''FRITZ!Box''] @ w2 @
                [Label ''PC MAC''] @ w3, s)))"

subsection \<open>The wake button\<close>

definition start_confetti :: "app_sys \<Rightarrow> app_sys" where
  "start_confetti s =
     (let (a, m) = s; (t, m) = now m
      in (a\<lparr>wa_confetti_pending := False, wa_confetti := Some t\<rparr>, m))"

definition paint_confetti :: "app_sys \<Rightarrow> app_sys" where
  "paint_confetti s =
     (let (a, m) = s
      in case wa_confetti a of
           None \<Rightarrow> (a, m)
         | Some started \<Rightarrow>
             (let (t, m) = now m; elapsed = t - started
              in if elapsed \<ge> confetti_duration then (a\<lparr>wa_confetti := None\<rparr>, m)
                 else (a, request_repaint_after 0 m)))"

definition wake_enabled :: "waker_app \<Rightarrow> bool" where
  "wake_enabled a \<longleftrightarrow> \<not> wa_busy a \<and> wa_state a \<noteq> Awake \<and> wa_status_rx a = None \<and> wa_ping_rx a = None"

definition render_wake_error :: "waker_app \<Rightarrow> widget list" where
  "render_wake_error a =
     (case wa_state a of
        Core_Types.Failed f \<Rightarrow> [ErrorLabel (friendly_failure_message f)]
      | _ \<Rightarrow> [])"

definition render_wake_button :: "app_params \<Rightarrow> ui_input \<Rightarrow> app_sys \<Rightarrow> widget list \<times> app_sys" where
  "render_wake_button P i s =
     (let button = Button (wake_button_label (fst s)) (wake_enabled (fst s));
          s = (if in_wake i \<and> wake_enabled (fst s) then begin_wake (ap_codecs P) s else s);
          s = (if wa_confetti_pending (fst s) then start_confetti s else s)
      in (button # render_wake_error (fst s), s))"

subsection \<open>The diagnostics\<close>

definition render_fritz_status_diagnostic :: "app_params \<Rightarrow> ui_input \<Rightarrow> app_sys \<Rightarrow> widget list \<times> app_sys" where
  "render_fritz_status_diagnostic P i s =
     (let enabled = diagnostic_action_enabled (fst s);
          button = Button (host_status_button_label (fst s)) enabled;
          s = (if in_status i \<and> enabled then begin_host_status_check (ap_codecs P) s else s)
      in ([Label ''FRITZ!Box host status'', button] @
          (case (wa_host_status_deadline (fst s), wa_host_status (fst s)) of
             (Some _, Some (Err e)) \<Rightarrow> [ErrorLabel (''Status check failed: '' @ e)]
           | _ \<Rightarrow> []) @
          [Small ''Queries FRITZ!Box only; does not send Wake-on-LAN.''], s))"

definition render_ping_diagnostic :: "app_params \<Rightarrow> ui_input \<Rightarrow> app_sys \<Rightarrow> widget list \<times> app_sys" where
  "render_ping_diagnostic P i s =
     (let enabled = diagnostic_action_enabled (fst s);
          button = Button (ping_button_label (fst s)) enabled;
          s = (if in_ping i \<and> enabled then begin_ping_check (ap_codecs P) s else s)
      in ([Label ''PC ICMP reachability'', button] @
          (case (wa_ping_status_deadline (fst s), wa_ping_status (fst s)) of
             (Some _, Some (Err e)) \<Rightarrow> [ErrorLabel (''Ping failed: '' @ e)]
           | _ \<Rightarrow> []) @
          [Small (''Uses the FRITZ!Box API to resolve the PC from its MAC, then sends ICMP through '' @
             ''Waker'' @ [CHR 0x27] @ ''s private tunnel; does not send Wake-on-LAN.'')], s))"

definition diagnostics_head :: "app_params \<Rightarrow> waker_app \<Rightarrow> widget list" where
  "diagnostics_head P a =
     (case wa_last a of
        Some summary \<Rightarrow>
          [Label (''Last wake '' @ (if as_failure summary \<noteq> None then ''failed'' else ''succeeded'') @ '' in '' @
             format_duration (ap_secs1 P) (as_elapsed summary))]
      | None \<Rightarrow> [Label ''No wake has completed in this session.'']) @
     (case di_log_dir (wa_diagnostics a) of
        Some log_dir \<Rightarrow>
          [Small (''Persistent log directory: '' @ from_utf8_lossy log_dir), Small ''Retention: seven daily log files'']
      | None \<Rightarrow> [Small ''Persistent log unavailable'']) @
     (case di_warning (wa_diagnostics a) of Some warning \<Rightarrow> [WarnLabel warning] | None \<Rightarrow> [])"

definition diagnostics_tail :: "waker_app \<Rightarrow> widget list" where
  "diagnostics_tail a =
     (case wa_open_log_status a of Some (Err e) \<Rightarrow> [ErrorLabel (''Could not open log: '' @ e)] | _ \<Rightarrow> []) @
     (case wa_clipboard_status a of
        Some (Ok _) \<Rightarrow> [Small ''Log copied to clipboard'']
      | Some (Err e) \<Rightarrow> [ErrorLabel (''Could not copy log: '' @ e)]
      | None \<Rightarrow> [])"

definition render_diagnostics :: "app_params \<Rightarrow> ui_input \<Rightarrow> app_sys \<Rightarrow> widget list \<times> app_sys" where
  "render_diagnostics P i s =
     (if \<not> in_diagnostics_open i then ([Collapsing ''Diagnostics''], s)
      else (let w1 = diagnostics_head P (fst s);
                (w2, s) = render_fritz_status_diagnostic P i s;
                (w3, s) = render_ping_diagnostic P i s;
                s = (if in_open_log i then open_log s else s);
                s = (if in_copy i then copy_diagnostics_to_clipboard (ap_secs1 P) s else s)
            in (Collapsing ''Diagnostics'' # w1 @ w2 @ w3 @ [Button ''Open log'' True, Button ''Copy log'' True] @
                diagnostics_tail (fst s), s)))"

subsection \<open>The frame\<close>

definition repaint_in :: "duration option \<Rightarrow> machine \<Rightarrow> machine" where
  "repaint_in d m = (case d of None \<Rightarrow> m | Some d \<Rightarrow> request_repaint_after d m)"

definition frame_updates :: "app_sys \<Rightarrow> app_sys" where
  "frame_updates s =
     (let (a, m) = drain_ping_update (drain_host_status_update (drain_state_updates s));
          a = (case mc_platform m of Desktop \<Rightarrow> a | Android _ \<Rightarrow> a\<lparr>wa_text_input := None\<rparr>);
          (t, m) = now m;
          (remaining, a) = update_terminal_state_timeout t a;
          m = repaint_in remaining m;
          (t, m) = now m;
          (remaining, a) = update_diagnostic_result_timeouts t a
      in (a, repaint_in remaining m))"

definition show_ui :: "app_params \<Rightarrow> ui_input \<Rightarrow> app_sys \<Rightarrow> widget list \<times> app_sys" where
  "show_ui P i s =
     (let s = frame_updates s;
          (w1, s) = render_wake_button P i s;
          (w2, s) = render_settings P i s;
          (w3, s) = render_diagnostics P i s
      in (w1 @ w2 @ w3, paint_confetti s))"

end
