(* ===== verification/App_Workers.thy ===== *)
theory App_Workers
  imports App_Ui
begin

text \<open>
  The application with its worker threads, as a step relation: frames of the user interface, workers
  that start, report and stop at any time, and files that change. What the threads of
  \<open>spawn_wake_worker\<close>, \<open>spawn_host_status_worker\<close> and \<open>spawn_ping_worker\<close> do is run against
  an arbitrary network; a thread may also die with reports left to make.
\<close>

section \<open>The worker threads\<close>

definition no_runtime :: "string \<Rightarrow> string" where
  "no_runtime e = ''could not start networking runtime: '' @ e"

text \<open>\<open>runtime\<close> is the result of \<open>network_runtime\<close>; the list is what the worker reports.\<close>

definition wake_worker ::
  "(string \<Rightarrow> string) \<Rightarrow> string + unit \<Rightarrow> wake_job \<Rightarrow> outside \<Rightarrow> (wake_state list \<times> outside) option" where
  "wake_worker wide runtime job v =
     (case runtime of
        Err e \<Rightarrow> Some ([Core_Types.Failed (wake_failure_new Runtime (no_runtime e))], v)
      | Ok _ \<Rightarrow>
          (let b = backend_new (fj_profile (wj_fritz job)) (fj_fritz_ip (wj_fritz job))
           in map_option (\<lambda>(result, (b, v), reported). (reported, v))
                (run_wake (backend_env wide) (wj_target job) ((b, v), []))))"

definition check_worker ::
  "(mac_address \<Rightarrow> backend_state \<Rightarrow> (wake_backend_error + bool) \<times> backend_state) \<Rightarrow>
   string + unit \<Rightarrow> fritz_job \<Rightarrow> outside \<Rightarrow> check_result \<times> outside" where
  "check_worker check runtime job v =
     (case runtime of
        Err e \<Rightarrow> (Err (no_runtime e), v)
      | Ok _ \<Rightarrow>
          (let (r, s) = backend_connect (backend_new (fj_profile job) (fj_fritz_ip job), v);
               (result, s) = (case r of
                   Err e \<Rightarrow> (Err (show_backend_error e), s)
                 | Ok _ \<Rightarrow> (let (r, s) = check (fj_mac job) s in (map_err show_backend_error r, s)))
           in (result, snd (backend_disconnect s))))"

definition status_worker ::
  "(string \<Rightarrow> string) \<Rightarrow> string + unit \<Rightarrow> fritz_job \<Rightarrow> outside \<Rightarrow> check_result \<times> outside" where
  "status_worker wide = check_worker (host_active wide)"

definition ping_worker ::
  "(string \<Rightarrow> string) \<Rightarrow> string + unit \<Rightarrow> fritz_job \<Rightarrow> outside \<Rightarrow> check_result \<times> outside" where
  "ping_worker wide = check_worker (ping_host wide)"

text \<open>A running thread with its sender and what it has still to send.\<close>

datatype thread =
  WakeThread (thread_channel: nat) "wake_state list"
| CheckThread (thread_channel: nat) "check_result list"

definition start_worker ::
  "(string \<Rightarrow> string) \<Rightarrow> string + unit \<Rightarrow> outside \<Rightarrow> worker \<Rightarrow> thread option" where
  "start_worker wide runtime v w =
     (case w of
        WakeWorker job i n \<Rightarrow> map_option (\<lambda>(reported, v). WakeThread n reported) (wake_worker wide runtime job v)
      | StatusWorker job n \<Rightarrow> Some (CheckThread n [fst (status_worker wide runtime job v)])
      | PingWorker job n \<Rightarrow> Some (CheckThread n [fst (ping_worker wide runtime job v)]))"

text \<open>Every report is followed by a request to repaint.\<close>

fun thread_send :: "thread \<Rightarrow> machine \<Rightarrow> (thread \<times> machine) option" where
  "thread_send (WakeThread n (st # sts)) m =
     Some (WakeThread n sts, request_repaint_after 0 (on_states (\<lambda>c. snd (send st c)) n m))"
| "thread_send (CheckThread n (r # rs)) m =
     Some (CheckThread n rs, request_repaint_after 0 (on_checks (\<lambda>c. snd (send r c)) n m))"
| "thread_send _ m = None"

fun thread_end :: "thread \<Rightarrow> machine \<Rightarrow> machine" where
  "thread_end (WakeThread n sts) m = on_states drop_senders n m"
| "thread_end (CheckThread n rs) m = on_checks drop_senders n m"

section \<open>Steps\<close>

type_synonym app_system = "waker_app \<times> machine \<times> thread list"

inductive app_step :: "app_params \<Rightarrow> app_system \<Rightarrow> app_system \<Rightarrow> bool" for P where
  frame: "snd (show_ui P i (a, m)) = (a', m') \<Longrightarrow> app_step P (a, m, ths) (a', m', ths)"
| starts: "mc_workers m = ws @ w # ws' \<Longrightarrow> start_worker (ap_wide P) runtime v w = Some th \<Longrightarrow>
    app_step P (a, m, ths) (a, m\<lparr>mc_workers := ws @ ws'\<rparr>, ths @ [th])"
| sends: "thread_send th m = Some (th', m') \<Longrightarrow> app_step P (a, m, xs @ th # ys) (a, m', xs @ th' # ys)"
| stops: "app_step P (a, m, xs @ th # ys) (a, thread_end th m, xs @ ys)"
| world: "app_step P (a, m, ths) (a, m\<lparr>mc_read := r, mc_home := h, mc_logs := l\<rparr>, ths)"
| typed: "app_step P (a, m, ths) (apply_android_text_input_state content i j a, m, ths)"

inductive_cases app_stepE: "app_step P (a, m, ths) s"

inductive reachable :: "app_params \<Rightarrow> app_system \<Rightarrow> bool" for P where
  initial: "mc_workers m = [] \<Longrightarrow> mc_commands m = [] \<Longrightarrow> reachable P (app_new env info path m, m, [])"
| further: "reachable P s \<Longrightarrow> app_step P s s' \<Longrightarrow> reachable P s'"

section \<open>What the receivers may expect\<close>

text \<open>Reports that may still arrive: none but the last is terminal, and none is idle.\<close>

definition orderly :: "wake_state list \<Rightarrow> bool" where
  "orderly sts \<longleftrightarrow> (\<forall>st \<in> set (butlast sts). under_way st) \<and> Idle \<notin> set sts"

lemma orderly_Nil [simp]: "orderly []"
  by (simp add: orderly_def)

lemma orderly_suffix: "orderly (xs @ ys) \<Longrightarrow> orderly ys"
  by (auto simp: orderly_def butlast_append split: if_splits)

lemma orderly_prefix: "orderly (xs @ ys) \<Longrightarrow> orderly xs"
  by (auto simp: orderly_def butlast_append split: if_splits dest: in_set_butlastD)

lemma orderly_skip: "orderly (xs @ y # ys) \<Longrightarrow> orderly (xs @ ys)"
  by (auto simp: orderly_def butlast_append split: if_splits dest: in_set_butlastD)

lemma orderly_last:
  assumes "orderly sts"
  shows "list_ex is_terminal sts \<Longrightarrow> is_terminal (last sts)"
    and "\<not> list_ex is_terminal sts \<Longrightarrow> sts \<noteq> [] \<Longrightarrow> under_way (last sts)"
proof -
  show "is_terminal (last sts)" if ex: "list_ex is_terminal sts"
  proof -
    obtain x where x: "x \<in> set sts" "is_terminal x" using ex by (auto simp: list_ex_iff)
    then have "sts = butlast sts @ [last sts]" by (cases sts) auto
    then have "x \<in> set (butlast sts) \<or> x = last sts" using x(1) by (metis Un_iff empty_iff list.set(1) set_ConsD set_append)
    then show ?thesis using assms x(2) by (auto simp: orderly_def under_way_def)
  qed
  show "under_way (last sts)" if "\<not> list_ex is_terminal sts" "sts \<noteq> []"
  proof -
    have "last sts \<in> set sts" using that(2) by simp
    then show ?thesis using that(1) assms unfolding orderly_def under_way_def list_ex_iff by metis
  qed
qed

lemma wake_worker_orderly:
  assumes "wake_worker wide runtime job v = Some (sts, v')"
  shows "orderly sts" "sts \<noteq> []" "is_terminal (last sts)"
proof -
  have "orderly sts \<and> sts \<noteq> [] \<and> is_terminal (last sts)"
  proof (cases runtime)
    case (Inl e)
    then show ?thesis using assms by (auto simp: wake_worker_def orderly_def)
  next
    case (Inr u)
    then obtain r s where run: "run_wake (backend_env wide) (wj_target job)
        ((backend_new (fj_profile (wj_fritz job)) (fj_fritz_ip (wj_fritz job)), v), []) = Some (r, s, sts)"
      using assms by (auto simp: wake_worker_def Let_def)
    from run_collects [OF run] have l: "sts \<noteq> []" "last sts = final_state r" "\<forall>st \<in> set (butlast sts). under_way st"
      by auto
    have "is_terminal (last sts)" by (cases r) (simp_all add: l(2))
    moreover have "Idle \<notin> set sts"
    proof
      assume "Idle \<in> set sts"
      moreover have "sts = butlast sts @ [last sts]" using l(1) by simp
      ultimately have "Idle \<in> set (butlast sts) \<or> Idle = last sts"
        by (metis Un_iff empty_iff list.set(1) set_ConsD set_append)
      then show False using l(3) \<open>is_terminal (last sts)\<close> by auto
    qed
    ultimately show ?thesis using l by (simp add: orderly_def)
  qed
  then show "orderly sts" "sts \<noteq> []" "is_terminal (last sts)" by simp_all
qed

lemma wake_worker_returns:
  assumes "wj_target job = wake_target_new mac"
  obtains sts v' where "wake_worker wide runtime job v = Some (sts, v')"
proof (cases runtime)
  case (Inl e)
  then show ?thesis using that by (simp add: wake_worker_def)
next
  case (Inr u)
  obtain r b v' l where "run_wake (backend_env wide) (wj_target job)
      ((backend_new (fj_profile (wj_fritz job)) (fj_fritz_ip (wj_fritz job)), v), []) = Some (r, (b, v'), l)"
    using backend_run_ends [of wide mac] assms by (metis prod.collapse)
  then show ?thesis using that Inr by (simp add: wake_worker_def)
qed

end
