(* ===== verification/App_Invariant.thy ===== *)
theory App_Invariant
  imports App_Workers
begin

text \<open>
  The invariant of the application and its workers, and that the operations of \<open>App_State\<close> keep it.
\<close>

section \<open>Draining\<close>

lemma drain_states_eq:
  "drain_states busy c terminal st =
     (let q = ch_queue c; ended = terminal \<or> list_ex is_terminal q; c' = c\<lparr>ch_queue := []\<rparr>
      in if busy \<and> \<not> ended \<and> \<not> ch_senders c then (True, Core_Types.Failed worker_stopped, c')
         else (ended, if q = [] then st else last q, c'))"
proof (induction busy c terminal st rule: drain_states.induct)
  case (1 busy c terminal st)
  show ?case
  proof (rule try_recv_cases [of c])
    fix x xs
    assume q: "ch_queue c = x # xs" "try_recv c = (Received x, c\<lparr>ch_queue := xs\<rparr>)"
    then show ?thesis
      using 1 [OF q(2) [symmetric]] by (subst drain_states.simps) (simp add: Let_def disj_ac)
  qed (subst drain_states.simps; simp add: Let_def)+
qed

section \<open>The invariant\<close>

text \<open>
  The application alone: an attempt is in progress exactly while it has a receiver and is counted as
  active; no check runs beside an attempt or beside the other check; the state is one of progress
  exactly during an attempt, and a terminal state is always one with a deadline to leave it.
\<close>

definition app_ok :: "waker_app \<Rightarrow> bool" where
  "app_ok a \<longleftrightarrow>
     (wa_busy a \<longleftrightarrow> wa_state_rx a \<noteq> None) \<and> (wa_busy a \<longleftrightarrow> wa_active a \<noteq> None) \<and>
     (wa_busy a \<longrightarrow> wa_status_rx a = None \<and> wa_ping_rx a = None) \<and>
     (wa_status_rx a = None \<or> wa_ping_rx a = None) \<and>
     (wa_busy a \<longleftrightarrow> under_way (wa_state a)) \<and>
     (is_terminal (wa_state a) \<longleftrightarrow> wa_terminal_deadline a \<noteq> None)"

fun wake_workers :: "worker list \<Rightarrow> nat list" where
  "wake_workers [] = []"
| "wake_workers (WakeWorker job i n # ws) = n # wake_workers ws"
| "wake_workers (w # ws) = wake_workers ws"

fun wake_threads :: "thread list \<Rightarrow> nat list" where
  "wake_threads [] = []"
| "wake_threads (WakeThread n sts # ths) = n # wake_threads ths"
| "wake_threads (th # ths) = wake_threads ths"

fun check_workers :: "worker list \<Rightarrow> nat list" where
  "check_workers [] = []"
| "check_workers (WakeWorker job i n # ws) = check_workers ws"
| "check_workers (w # ws) = worker_channel w # check_workers ws"

fun check_threads :: "thread list \<Rightarrow> nat list" where
  "check_threads [] = []"
| "check_threads (WakeThread n sts # ths) = check_threads ths"
| "check_threads (th # ths) = thread_channel th # check_threads ths"

lemma ids_append [simp]:
  "wake_workers (ws @ ws') = wake_workers ws @ wake_workers ws'"
  "wake_threads (ths @ ths') = wake_threads ths @ wake_threads ths'"
  "check_workers (ws @ ws') = check_workers ws @ check_workers ws'"
  "check_threads (ths @ ths') = check_threads ths @ check_threads ths'"
proof -
  show "wake_workers (ws @ ws') = wake_workers ws @ wake_workers ws'" by (induction ws rule: wake_workers.induct) auto
  show "wake_threads (ths @ ths') = wake_threads ths @ wake_threads ths'" by (induction ths rule: wake_threads.induct) auto
  show "check_workers (ws @ ws') = check_workers ws @ check_workers ws'" by (induction ws rule: check_workers.induct) auto
  show "check_threads (ths @ ths') = check_threads ths @ check_threads ths'" by (induction ths rule: check_threads.induct) auto
qed

lemma wake_workers_iff: "n \<in> set (wake_workers ws) \<longleftrightarrow> (\<exists>job i. WakeWorker job i n \<in> set ws)"
  by (induction ws rule: wake_workers.induct) auto

lemma wake_threads_iff: "n \<in> set (wake_threads ths) \<longleftrightarrow> (\<exists>sts. WakeThread n sts \<in> set ths)"
  by (induction ths rule: wake_threads.induct) auto

text \<open>
  The channels of wake attempts: every worker has one of its own, with its sender alive; what is in it
  and what is still to come are orderly; and the receiver's channel is closed unless a worker holds it.
\<close>

definition states_ok ::
  "worker list \<Rightarrow> thread list \<Rightarrow> (nat \<Rightarrow> wake_state channel) \<Rightarrow> nat \<Rightarrow> nat option \<Rightarrow> bool" where
  "states_ok ws ths ch fresh rx \<longleftrightarrow>
     distinct (wake_workers ws @ wake_threads ths) \<and>
     (\<forall>n \<in> set (wake_workers ws @ wake_threads ths). n < fresh) \<and>
     (\<forall>job i n. WakeWorker job i n \<in> set ws \<longrightarrow>
        ch_queue (ch n) = [] \<and> (\<exists>mac. wj_target job = wake_target_new mac)) \<and>
     (\<forall>n sts. WakeThread n sts \<in> set ths \<longrightarrow> orderly (ch_queue (ch n) @ sts)) \<and>
     (\<forall>n. rx = Some n \<longrightarrow> n < fresh \<and> ch_receiver (ch n) \<and> orderly (ch_queue (ch n)) \<and>
        (ch_senders (ch n) \<longleftrightarrow> n \<in> set (wake_workers ws @ wake_threads ths)))"

definition checks_ok ::
  "worker list \<Rightarrow> thread list \<Rightarrow> (nat \<Rightarrow> check_result channel) \<Rightarrow> nat \<Rightarrow> nat option \<Rightarrow> bool" where
  "checks_ok ws ths ch fresh rx \<longleftrightarrow>
     distinct (check_workers ws @ check_threads ths) \<and>
     (\<forall>n \<in> set (check_workers ws @ check_threads ths). n < fresh) \<and>
     (\<forall>n. rx = Some n \<longrightarrow> n < fresh \<and> ch_receiver (ch n) \<and>
        (ch_senders (ch n) \<longleftrightarrow> n \<in> set (check_workers ws @ check_threads ths)))"

definition sys_ok :: "thread list \<Rightarrow> app_sys \<Rightarrow> bool" where
  "sys_ok ths s \<longleftrightarrow> (case s of (a, m) \<Rightarrow>
     app_ok a \<and>
     states_ok (mc_workers m) ths (mc_states m) (mc_fresh m) (wa_state_rx a) \<and>
     checks_ok (mc_workers m) ths (mc_checks m) (mc_fresh m) (wa_status_rx a) \<and>
     checks_ok (mc_workers m) ths (mc_checks m) (mc_fresh m) (wa_ping_rx a))"

subsection \<open>Channels\<close>

lemma states_ok_consume:
  "states_ok ws ths ch fresh rx \<Longrightarrow> states_ok ws ths (ch(n := (ch n)\<lparr>ch_queue := []\<rparr>)) fresh rx"
  unfolding states_ok_def by (auto intro: orderly_suffix [where xs = "ch_queue (ch n)"])

lemma states_ok_leave:
  "states_ok ws ths ch fresh rx \<Longrightarrow> states_ok ws ths (ch(n := drop_receiver (ch n))) fresh None"
  unfolding states_ok_def drop_receiver_def by auto

lemma states_ok_fresh: "states_ok ws ths ch fresh rx \<Longrightarrow> states_ok ws ths ch (Suc fresh) rx"
  unfolding states_ok_def by (auto simp: less_Suc_eq)

lemma states_ok_check_worker:
  "check_workers [w] \<noteq> [] \<Longrightarrow> states_ok (ws @ [w]) ths ch fresh rx = states_ok ws ths ch fresh rx"
  by (cases w) (auto simp: states_ok_def)

lemma states_ok_unused:
  assumes "states_ok ws ths ch fresh rx"
  shows "WakeWorker job i fresh \<notin> set ws" "WakeThread fresh sts \<notin> set ths"
proof -
  have "fresh \<notin> set (wake_workers ws)" "fresh \<notin> set (wake_threads ths)" using assms by (auto simp: states_ok_def)
  then show "WakeWorker job i fresh \<notin> set ws" "WakeThread fresh sts \<notin> set ths"
    by (auto simp: wake_workers_iff wake_threads_iff)
qed

lemma states_ok_new:
  assumes "states_ok ws ths ch fresh rx" "wj_target job = wake_target_new mac"
  shows "states_ok (ws @ [WakeWorker job i fresh]) ths (ch(fresh := new_channel)) (Suc fresh) (Some fresh)"
proof -
  note states_ok_unused [OF assms(1)]
  with assms show ?thesis unfolding states_ok_def by (auto simp: new_channel_def less_Suc_eq)
qed

lemma checks_ok_leave:
  "checks_ok ws ths ch fresh rx \<Longrightarrow> checks_ok ws ths (ch(n := f (ch n))) fresh None"
  unfolding checks_ok_def by auto

lemma checks_ok_fresh: "checks_ok ws ths ch fresh rx \<Longrightarrow> checks_ok ws ths ch (Suc fresh) rx"
  unfolding checks_ok_def by (auto simp: less_Suc_eq)

lemma checks_ok_wake_worker: "checks_ok (ws @ [WakeWorker job i n]) ths ch fresh rx = checks_ok ws ths ch fresh rx"
  by (simp add: checks_ok_def)

lemma checks_ok_new:
  assumes "checks_ok ws ths ch fresh rx" "check_workers [w] = [fresh]"
  shows "checks_ok (ws @ [w]) ths (ch(fresh := new_channel)) (Suc fresh) (Some fresh)"
    and "checks_ok (ws @ [w]) ths (ch(fresh := new_channel)) (Suc fresh) None"
  using assms unfolding checks_ok_def by (auto simp: new_channel_def less_Suc_eq)

subsection \<open>The operations keep it\<close>

lemma finish_attempt_eq:
  assumes "wa_active a = Some x" "is_terminal (wa_state a)"
  shows "finish_attempt (a, m) =
    (a\<lparr>wa_active := None,
       wa_last := Some \<lparr>as_elapsed = os_now (mc_answers m (mc_asked m)) - aa_started x,
         as_failure = (case wa_state a of Core_Types.Failed f \<Rightarrow> Some f | _ \<Rightarrow> None)\<rparr>,
       wa_confetti_pending := (wa_state a = Awake \<or> wa_confetti_pending a),
       wa_terminal_deadline :=
         Some (os_now (mc_answers m (Suc (mc_asked m))) + terminal_state_display_duration)\<rparr>,
     m\<lparr>mc_asked := Suc (Suc (mc_asked m))\<rparr>)"
  using assms by (cases a) (simp add: finish_attempt_def now_def ask_def Let_def)

lemma app_ok_finish:
  assumes "finish_attempt (a, m) = (a', m')" "wa_active a \<noteq> None" "is_terminal (wa_state a)"
    "wa_state_rx a = None" "\<not> wa_busy a" "wa_status_rx a = None \<or> wa_ping_rx a = None"
  shows "app_ok a'" "wa_state_rx a' = None" "wa_status_rx a' = wa_status_rx a" "wa_ping_rx a' = wa_ping_rx a"
    "mc_workers m' = mc_workers m" "mc_states m' = mc_states m" "mc_checks m' = mc_checks m" "mc_fresh m' = mc_fresh m"
  using assms finish_attempt_eq [of a _ m] by (auto simp: app_ok_def under_way_def)

lemma drain_state_updates_ok:
  assumes "sys_ok ths (a, m)"
  shows "sys_ok ths (drain_state_updates (a, m))"
proof (cases "wa_state_rx a")
  case None
  then show ?thesis using assms by (simp add: drain_state_updates_def)
next
  case (Some n)
  have ok: "app_ok a" and st: "states_ok (mc_workers m) ths (mc_states m) (mc_fresh m) (Some n)"
    using assms Some by (simp_all add: sys_ok_def)
  let ?c = "mc_states m n"
  obtain ended st' c' where d: "drain_states (wa_busy a) ?c False (wa_state a) = (ended, st', c')"
    by (metis prod.collapse)
  have ord: "orderly (ch_queue ?c)" and recv: "ch_receiver ?c" using st by (simp_all add: states_ok_def)
  have busy: "wa_busy a" "wa_active a \<noteq> None" "wa_status_rx a = None" "wa_ping_rx a = None" "under_way (wa_state a)"
    using ok Some by (auto simp: app_ok_def)
  have c': "c' = ?c\<lparr>ch_queue := []\<rparr>" and ended: "ended \<Longrightarrow> is_terminal st'" and going: "\<not> ended \<Longrightarrow> under_way st'"
    using d orderly_last [OF ord] busy(5)
    by (auto simp: drain_states_eq Let_def split: if_splits)
  have st': "states_ok (mc_workers m) ths ((mc_states m)(n := c')) (mc_fresh m) (Some n)"
    using states_ok_consume [OF st] by (simp add: c')
  show ?thesis
  proof (cases ended)
    case False
    then show ?thesis
      using assms Some d st' going by (auto simp: drain_state_updates_def sys_ok_def app_ok_def on_states_def Let_def under_way_def)
  next
    case True
    let ?a = "a\<lparr>wa_state := st', wa_busy := False, wa_state_rx := None\<rparr>"
    let ?m = "on_states drop_receiver n (on_states (\<lambda>_. c') n m)"
    obtain a2 m2 where f: "finish_attempt (?a, ?m) = (a2, m2)" by force
    have "drain_state_updates (a, m) = (a2, m2)"
      using Some d True f by (simp add: drain_state_updates_def set_state_rx_def Let_def)
    moreover note app_ok_finish [OF f]
    moreover have "states_ok (mc_workers m) ths (mc_states ?m) (mc_fresh m) None"
      using states_ok_leave [OF st', where n = n] by (simp add: on_states_def)
    ultimately show ?thesis
      using assms busy ended [OF True] by (simp add: sys_ok_def on_states_def)
  qed
qed

lemma spawn_worker_cases:
  obtains (started) "spawn_worker w m = (Ok (), m\<lparr>mc_asked := Suc (mc_asked m), mc_workers := mc_workers m @ [w]\<rparr>)"
  | (refused) e where "spawn_worker w m = (Err e, hang_up w (m\<lparr>mc_asked := Suc (mc_asked m)\<rparr>))"
  by (cases "os_spawn (mc_answers m (mc_asked m))") (auto simp: spawn_worker_def ask_def Let_def)

lemma build_job_target: "build_job C a m = Ok job \<Longrightarrow> \<exists>mac. wj_target job = wake_target_new mac"
  by (auto simp: build_job_def result_simps)

lemma states_ok_None: "states_ok ws ths ch fresh None \<Longrightarrow> states_ok ws ths (ch(fresh := c)) (Suc fresh) None"
  using states_ok_unused [of ws ths ch fresh None] by (auto simp: states_ok_def less_Suc_eq)

lemma begin_wake_ok:
  assumes "sys_ok ths (a, m)" "wake_enabled a"
  shows "sys_ok ths (begin_wake C (a, m))"
proof -
  obtain i m1 t m2 where ask: "attempt_id m = (i, m1)" "now m1 = (t, m2)" by force
  then have same: "mc_workers m2 = mc_workers m" "mc_states m2 = mc_states m" "mc_checks m2 = mc_checks m" "mc_fresh m2 = mc_fresh m"
    by (auto simp: attempt_id_def now_def ask_def Let_def split: prod.splits)
  let ?a = "a\<lparr>wa_terminal_deadline := None, wa_active := Some \<lparr>aa_id = i, aa_started = t\<rparr>\<rparr>"
  have quiet: "\<not> wa_busy a" "wa_status_rx a = None" "wa_ping_rx a = None" "wa_state_rx a = None"
    using assms by (auto simp: wake_enabled_def sys_ok_def app_ok_def)
  have ch: "states_ok (mc_workers m) ths (mc_states m) (mc_fresh m) None"
    "checks_ok (mc_workers m) ths (mc_checks m) (mc_fresh m) None"
    using assms quiet by (auto simp: sys_ok_def)
  show ?thesis
  proof (cases "build_job C ?a m2")
    case (Inl why)
    let ?b = "?a\<lparr>wa_state := Core_Types.Failed (wake_failure_new Configuration why), wa_busy := False\<rparr>"
    obtain a3 m3 where f: "finish_attempt (?b, m2) = (a3, m3)" by force
    have "begin_wake C (a, m) = (a3, m3)" using ask Inl f by (simp add: begin_wake_def)
    with app_ok_finish [OF f] ch quiet same show ?thesis by (simp add: sys_ok_def)
  next
    case (Inr job)
    let ?n = "mc_fresh m"
    let ?m = "m2\<lparr>mc_states := (mc_states m)(?n := new_channel), mc_fresh := Suc ?n\<rparr>"
    let ?w = "WakeWorker job i ?n"
    obtain mac where mac: "wj_target job = wake_target_new mac" using build_job_target [OF Inr] by blast
    show ?thesis
    proof (rule spawn_worker_cases [of ?w ?m])
      assume sp: "spawn_worker ?w ?m = (Ok (), ?m\<lparr>mc_asked := Suc (mc_asked ?m), mc_workers := mc_workers ?m @ [?w]\<rparr>)"
      have "begin_wake C (a, m) = (?a\<lparr>wa_state_rx := Some ?n, wa_state := Connecting, wa_busy := True\<rparr>,
          ?m\<lparr>mc_asked := Suc (mc_asked ?m), mc_workers := mc_workers ?m @ [?w]\<rparr>)"
        using ask Inr sp same quiet by (simp add: begin_wake_def new_state_channel_def set_state_rx_def)
      then show ?thesis
        using quiet states_ok_new [OF ch(1) mac] checks_ok_fresh [OF ch(2)] same
        by (simp add: sys_ok_def app_ok_def checks_ok_wake_worker)
    next
      fix e
      assume sp: "spawn_worker ?w ?m = (Err e, hang_up ?w (?m\<lparr>mc_asked := Suc (mc_asked ?m)\<rparr>))"
      let ?b = "?a\<lparr>wa_state := Core_Types.Failed (wake_failure_new Runtime (''could not create worker thread: '' @ e)),
          wa_state_rx := None, wa_busy := False\<rparr>"
      let ?h = "on_states drop_receiver ?n (hang_up ?w (?m\<lparr>mc_asked := Suc (mc_asked ?m)\<rparr>))"
      obtain a3 m3 where f: "finish_attempt (?b, ?h) = (a3, m3)" by force
      have "begin_wake C (a, m) = (a3, m3)"
        using ask Inr sp same quiet f by (simp add: begin_wake_def new_state_channel_def set_state_rx_def)
      with app_ok_finish [OF f] quiet states_ok_None [OF ch(1)] checks_ok_fresh [OF ch(2)] same
      show ?thesis by (simp add: sys_ok_def hang_up_def on_states_def)
    qed
  qed
qed

lemma not_blocked: "app_ok a \<Longrightarrow> \<not> checks_blocked a \<Longrightarrow>
    \<not> wa_busy a \<and> wa_status_rx a = None \<and> wa_ping_rx a = None \<and> wa_state_rx a = None"
  by (auto simp: checks_blocked_def app_ok_def)

lemmas check_simps = set_status_rx_def set_ping_rx_def repaint_at_deadline_def show_host_status_def show_ping_status_def
  now_def ask_def request_repaint_after_def on_checks_def

lemma begin_host_status_check_ok:
  assumes "sys_ok ths (a, m)"
  shows "sys_ok ths (begin_host_status_check C (a, m))"
proof (cases "checks_blocked a \<or> (\<exists>e. build_fritz_job C (a\<lparr>wa_host_status_deadline := None\<rparr>) m = Err e)")
  case True
  then show ?thesis
    using assms by (auto simp: begin_host_status_check_def sys_ok_def app_ok_def check_simps)
next
  case False
  then obtain job where job: "build_fritz_job C (a\<lparr>wa_host_status_deadline := None\<rparr>) m = Ok job"
    and free: "\<not> checks_blocked a" by (cases "build_fritz_job C (a\<lparr>wa_host_status_deadline := None\<rparr>) m") auto
  let ?n = "mc_fresh m"
  let ?m = "m\<lparr>mc_checks := (mc_checks m)(?n := new_channel), mc_fresh := Suc ?n\<rparr>"
  have ok: "app_ok a" "states_ok (mc_workers m) ths (mc_states m) (mc_fresh m) (wa_state_rx a)"
    "checks_ok (mc_workers m) ths (mc_checks m) (mc_fresh m) None"
    and quiet: "\<not> wa_busy a" "wa_status_rx a = None" "wa_ping_rx a = None" "wa_state_rx a = None"
    using assms not_blocked [OF _ free] by (auto simp: sys_ok_def)
  note ch = checks_ok_new [OF ok(3), of "StatusWorker job ?n"] checks_ok_leave [OF checks_ok_fresh [OF ok(3)]]
    states_ok_fresh [OF ok(2)] states_ok_check_worker [of "StatusWorker job ?n"]
  show ?thesis
    by (rule spawn_worker_cases [of "StatusWorker job ?n" ?m])
      (use free job quiet ok(1) ch in \<open>simp_all add: begin_host_status_check_def new_check_channel_def
        sys_ok_def app_ok_def check_simps hang_up_def\<close>)
qed

lemma begin_ping_check_ok:
  assumes "sys_ok ths (a, m)"
  shows "sys_ok ths (begin_ping_check C (a, m))"
proof (cases "checks_blocked a \<or> (\<exists>e. build_fritz_job C (a\<lparr>wa_ping_status_deadline := None\<rparr>) m = Err e)")
  case True
  then show ?thesis
    using assms by (auto simp: begin_ping_check_def sys_ok_def app_ok_def check_simps)
next
  case False
  then obtain job where job: "build_fritz_job C (a\<lparr>wa_ping_status_deadline := None\<rparr>) m = Ok job"
    and free: "\<not> checks_blocked a" by (cases "build_fritz_job C (a\<lparr>wa_ping_status_deadline := None\<rparr>) m") auto
  let ?n = "mc_fresh m"
  let ?m = "m\<lparr>mc_checks := (mc_checks m)(?n := new_channel), mc_fresh := Suc ?n\<rparr>"
  have ok: "app_ok a" "states_ok (mc_workers m) ths (mc_states m) (mc_fresh m) (wa_state_rx a)"
    "checks_ok (mc_workers m) ths (mc_checks m) (mc_fresh m) None"
    and quiet: "\<not> wa_busy a" "wa_status_rx a = None" "wa_ping_rx a = None" "wa_state_rx a = None"
    using assms not_blocked [OF _ free] by (auto simp: sys_ok_def)
  note ch = checks_ok_new [OF ok(3), of "PingWorker job ?n"] checks_ok_leave [OF checks_ok_fresh [OF ok(3)]]
    states_ok_fresh [OF ok(2)] states_ok_check_worker [of "PingWorker job ?n"]
  show ?thesis
    by (rule spawn_worker_cases [of "PingWorker job ?n" ?m])
      (use free job quiet ok(1) ch in \<open>simp_all add: begin_ping_check_def new_check_channel_def
        sys_ok_def app_ok_def check_simps hang_up_def\<close>)
qed

lemma drain_host_status_update_ok:
  assumes "sys_ok ths (a, m)"
  shows "sys_ok ths (drain_host_status_update (a, m))"
proof (cases "wa_status_rx a")
  case (Some n)
  then have "wa_ping_rx a = None" using assms by (auto simp: sys_ok_def app_ok_def)
  then show ?thesis
    using assms Some
    by (cases "mc_checks m n" rule: try_recv_cases)
      (auto simp: drain_host_status_update_def sys_ok_def app_ok_def checks_ok_def drop_receiver_def check_simps)
qed (use assms in \<open>simp add: drain_host_status_update_def\<close>)

lemma drain_ping_update_ok:
  assumes "sys_ok ths (a, m)"
  shows "sys_ok ths (drain_ping_update (a, m))"
proof (cases "wa_ping_rx a")
  case (Some n)
  then have "wa_status_rx a = None" using assms by (auto simp: sys_ok_def app_ok_def)
  then show ?thesis
    using assms Some
    by (cases "mc_checks m n" rule: try_recv_cases)
      (auto simp: drain_ping_update_def sys_ok_def app_ok_def checks_ok_def drop_receiver_def check_simps)
qed (use assms in \<open>simp add: drain_ping_update_def\<close>)

end
