(* ===== verification/App_System.thy ===== *)
theory App_System
  imports App_Invariant
begin

text \<open>
  The application as a whole: frames and steps keep the invariant of \<open>App_Invariant\<close>, so every
  reachable state has it.
\<close>

section \<open>The frame keeps the invariant\<close>

text \<open>Two states that agree on all the invariants look at.\<close>

definition alike :: "app_sys \<Rightarrow> app_sys \<Rightarrow> bool" where
  "alike s s' \<longleftrightarrow>
     wa_busy (fst s') = wa_busy (fst s) \<and> wa_state_rx (fst s') = wa_state_rx (fst s) \<and>
     wa_active (fst s') = wa_active (fst s) \<and> wa_status_rx (fst s') = wa_status_rx (fst s) \<and>
     wa_ping_rx (fst s') = wa_ping_rx (fst s) \<and> wa_state (fst s') = wa_state (fst s) \<and>
     wa_terminal_deadline (fst s') = wa_terminal_deadline (fst s) \<and>
     wa_host_status (fst s') = wa_host_status (fst s) \<and> wa_ping_status (fst s') = wa_ping_status (fst s) \<and>
     wa_host_status_deadline (fst s') = wa_host_status_deadline (fst s) \<and>
     wa_ping_status_deadline (fst s') = wa_ping_status_deadline (fst s) \<and>
     mc_workers (snd s') = mc_workers (snd s) \<and> mc_states (snd s') = mc_states (snd s) \<and>
     mc_checks (snd s') = mc_checks (snd s) \<and> mc_fresh (snd s') = mc_fresh (snd s)"

lemma alike_ok: "alike s s' \<Longrightarrow> sys_ok ths s \<Longrightarrow> sys_ok ths s'"
proof -
  assume *: "alike s s'" and ok: "sys_ok ths s"
  then have "app_ok (fst s') = app_ok (fst s)" by (simp add: alike_def app_ok_def)
  with ok show ?thesis using * by (cases s; cases s') (simp add: sys_ok_def alike_def)
qed

lemma alike_trans [trans]: "alike s s' \<Longrightarrow> alike s' s'' \<Longrightarrow> alike s s''"
  by (simp add: alike_def)

lemma alike_field: "alike s (set_field_text f t (fst s), snd s)"
  by (cases f) (simp_all add: alike_def)

lemma alike_capture: "alike s (capture_text_edit two f out (fst s), snd s)"
  by (cases "wa_selection_override (fst s)") (simp_all add: alike_def capture_text_edit_def Let_def case_prod_beta)

lemma alike_edit_field: "alike s (snd (edit_field P f out s))"
proof -
  obtain a m where s: "s = (a, m)" by force
  have "alike s (set_field_text f (fo_edit out (field_text f a)) a, m)" (is "alike s ?s")
    using alike_field [of s] by (simp add: s)
  moreover have "alike ?s (capture_text_edit (ap_two P) f out (fst ?s), m)"
    using alike_capture [of ?s] by simp
  ultimately show ?thesis
    by (auto simp: edit_field_def s Let_def intro: alike_trans split: platform.splits)
qed

lemma alike_settings: "alike s (snd (render_settings P i s))"
  by (auto simp: render_settings_def case_prod_beta Let_def
      intro: alike_trans [OF alike_trans [OF alike_edit_field alike_edit_field] alike_edit_field])
    (simp add: alike_def)

lemma alike_open_log: "alike s (open_log s)"
  by (cases s) (simp add: alike_def open_log_def issue_def Let_def split: platform.splits option.splits prod.splits)

lemma alike_copy: "alike s (copy_diagnostics_to_clipboard secs1 s)"
  by (cases s)
    (simp add: alike_def copy_diagnostics_to_clipboard_def issue_def Let_def split: platform.splits option.splits prod.splits)

lemma alike_confetti: "alike s (start_confetti s)" "alike s (paint_confetti s)"
  by (cases s; simp add: alike_def start_confetti_def paint_confetti_def now_def ask_def request_repaint_after_def Let_def
      split: option.splits)+

lemmas alike_rules = alike_settings alike_open_log alike_copy alike_confetti

lemma alike_repaint: "alike (a, m) (a, repaint_in d m)" "alike (a, m) (a, snd (now m))"
    "alike (a, m) (case mc_platform m of Desktop \<Rightarrow> a | Android _ \<Rightarrow> a\<lparr>wa_text_input := x\<rparr>, m)"
  by (auto simp: alike_def repaint_in_def request_repaint_after_def now_def ask_def split: option.splits platform.splits)

text \<open>A property of the state that the operations a frame is made of keep, and that sees no more than \<open>alike\<close>.\<close>

locale frame_invariant =
  fixes I :: "app_sys \<Rightarrow> bool"
  assumes keeps: "alike s s' \<Longrightarrow> I s \<Longrightarrow> I s'"
    and drain_states: "I s \<Longrightarrow> I (drain_state_updates s)"
    and drain_status: "I s \<Longrightarrow> I (drain_host_status_update s)"
    and drain_ping: "I s \<Longrightarrow> I (drain_ping_update s)"
    and terminal: "I (a, m) \<Longrightarrow> I (snd (update_terminal_state_timeout t a), m)"
    and results: "I (a, m) \<Longrightarrow> I (snd (update_diagnostic_result_timeouts t a), m)"
    and begin_wake: "I (a, m) \<Longrightarrow> wake_enabled a \<Longrightarrow> I (begin_wake C (a, m))"
    and begin_status: "I s \<Longrightarrow> I (begin_host_status_check C s)"
    and begin_ping: "I s \<Longrightarrow> I (begin_ping_check C s)"
begin

lemmas alike_kept = alike_rules [THEN keeps]

lemma wake_button: "I s \<Longrightarrow> I (snd (render_wake_button P i s))"
  by (cases s) (auto simp: render_wake_button_def Let_def intro: alike_kept begin_wake)

lemma diagnostics: "I s \<Longrightarrow> I (snd (render_diagnostics P i s))"
proof -
  assume ok: "I s"
  have 1: "I (snd (render_fritz_status_diagnostic P i s))"
    using ok by (cases s) (auto simp: render_fritz_status_diagnostic_def Let_def intro: begin_status)
  have 2: "I (snd (render_ping_diagnostic P i s))" if "I s" for s
    using that by (cases s) (auto simp: render_ping_diagnostic_def Let_def intro: begin_ping)
  show ?thesis
    using ok 2 [OF 1] by (auto simp: render_diagnostics_def Let_def case_prod_beta intro: alike_kept)
qed

lemma updates:
  assumes "I s"
  shows "I (frame_updates s)"
proof -
  obtain a m where d: "drain_ping_update (drain_host_status_update (drain_state_updates s)) = (a, m)" by force
  have ok: "I (a, m)" using drain_ping [OF drain_status [OF drain_states [OF assms]]] d by simp
  define b where "b = (case mc_platform m of Desktop \<Rightarrow> a | Android _ \<Rightarrow> a\<lparr>wa_text_input := None\<rparr>)"
  have "I (b, m)" using keeps [OF alike_repaint(3) ok] by (simp add: b_def)
  then have "I (b, snd (now m))" by (rule keeps [OF alike_repaint(2)])
  then have up: "I (snd (update_terminal_state_timeout t b), snd (now m))" for t by (rule terminal)
  have "I (snd (update_diagnostic_result_timeouts u (snd (update_terminal_state_timeout t b))),
      repaint_in r2 (snd (now (repaint_in r1 (snd (now m))))))" for t u r1 r2
    by (rule keeps [OF alike_repaint(1)], rule results,
      rule keeps [OF alike_repaint(2)], rule keeps [OF alike_repaint(1)], rule up)
  then show ?thesis
    by (cases "mc_platform m") (simp_all add: frame_updates_def d b_def case_prod_beta Let_def)
qed

lemma frame: "I s \<Longrightarrow> I (snd (show_ui P i s))"
  by (auto simp: show_ui_def Let_def case_prod_beta intro!: alike_kept diagnostics wake_button updates)

end

lemma update_terminal_ok: "sys_ok ths (a, m) \<Longrightarrow> sys_ok ths (snd (update_terminal_state_timeout t a), m)"
  by (cases "wa_terminal_deadline a")
    (auto simp: update_terminal_state_timeout_def sys_ok_def app_ok_def under_way_def)

lemma update_results_ok: "sys_ok ths (a, m) \<Longrightarrow> sys_ok ths (snd (update_diagnostic_result_timeouts t a), m)"
  by (auto simp: update_diagnostic_result_timeouts_def sys_ok_def app_ok_def Let_def case_prod_beta)

interpretation sys: frame_invariant "sys_ok ths" for ths
proof
  fix s :: app_sys and C
  show "sys_ok ths s \<Longrightarrow> sys_ok ths (drain_state_updates s)" by (cases s) (simp add: drain_state_updates_ok)
  show "sys_ok ths s \<Longrightarrow> sys_ok ths (drain_host_status_update s)" by (cases s) (simp add: drain_host_status_update_ok)
  show "sys_ok ths s \<Longrightarrow> sys_ok ths (drain_ping_update s)" by (cases s) (simp add: drain_ping_update_ok)
  show "sys_ok ths s \<Longrightarrow> sys_ok ths (begin_host_status_check C s)" by (cases s) (simp add: begin_host_status_check_ok)
  show "sys_ok ths s \<Longrightarrow> sys_ok ths (begin_ping_check C s)" by (cases s) (simp add: begin_ping_check_ok)
qed (fact alike_ok update_terminal_ok update_results_ok begin_wake_ok)+

section \<open>Every step keeps the invariant\<close>

lemma states_ok_start:
  assumes "states_ok (ws @ WakeWorker job i n # ws') ths ch fresh rx" "orderly sts"
  shows "states_ok (ws @ ws') (ths @ [WakeThread n sts]) ch fresh rx"
proof -
  have "ch_queue (ch n) = []" using assms(1) by (auto simp: states_ok_def)
  with assms show ?thesis unfolding states_ok_def by auto
qed

lemma states_ok_check:
  "check_workers [w] \<noteq> [] \<Longrightarrow> states_ok (ws @ w # ws') ths ch fresh rx = states_ok (ws @ ws') ths ch fresh rx"
  "states_ok ws (xs @ CheckThread n rs # ys) ch fresh rx = states_ok ws (xs @ ys) ch fresh rx"
  by (cases w; auto simp: states_ok_def)+

lemma checks_ok_wake:
  "checks_ok (ws @ WakeWorker job i n # ws') ths ch fresh rx = checks_ok (ws @ ws') ths ch fresh rx"
  "checks_ok ws (xs @ WakeThread n sts # ys) ch fresh rx = checks_ok ws (xs @ ys) ch fresh rx"
  by (simp_all add: checks_ok_def)

lemma checks_ok_start:
  "checks_ok (ws @ w # ws') ths ch fresh rx \<Longrightarrow> check_workers [w] = [n] \<Longrightarrow>
     checks_ok (ws @ ws') (ths @ [CheckThread n rs]) ch fresh rx"
  by (cases w) (auto simp: checks_ok_def)

lemma states_ok_sends:
  assumes "states_ok ws (xs @ WakeThread n (st # sts) # ys) ch fresh rx"
  shows "states_ok ws (xs @ WakeThread n sts # ys) (ch(n := snd (send st (ch n)))) fresh rx"
proof -
  have ord: "orderly (ch_queue (ch n) @ st # sts)" using assms by (simp add: states_ok_def)
  have "n \<notin> set (wake_workers ws)" "n \<notin> set (wake_threads (xs @ ys))" using assms by (auto simp: states_ok_def)
  then have alone: "\<And>job i. WakeWorker job i n \<notin> set ws" "\<And>sts. WakeThread n sts \<notin> set (xs @ ys)"
    unfolding wake_workers_iff wake_threads_iff by blast+
  have "orderly (ch_queue (ch n) @ [st])" using ord orderly_prefix [of "ch_queue (ch n) @ [st]" sts] by simp
  with ord orderly_skip [OF ord] alone assms show ?thesis
    unfolding states_ok_def send_def by auto
qed

lemma checks_ok_sends:
  "checks_ok ws (xs @ CheckThread n (r # rs) # ys) ch fresh rx \<Longrightarrow>
     checks_ok ws (xs @ CheckThread n rs # ys) (ch(n := snd (send r (ch n)))) fresh rx"
  by (auto simp: checks_ok_def send_def)

lemma states_ok_stops:
  assumes "states_ok ws (xs @ WakeThread n sts # ys) ch fresh rx"
  shows "states_ok ws (xs @ ys) (ch(n := drop_senders (ch n))) fresh rx"
  using assms unfolding states_ok_def drop_senders_def by auto

lemma checks_ok_stops:
  "checks_ok ws (xs @ CheckThread n rs # ys) ch fresh rx \<Longrightarrow>
     checks_ok ws (xs @ ys) (ch(n := drop_senders (ch n))) fresh rx"
  unfolding checks_ok_def drop_senders_def by auto

lemma start_worker_cases:
  assumes "start_worker wide runtime v w = Some th"
  obtains (wakes) job i n sts where "w = WakeWorker job i n" "th = WakeThread n sts" "orderly sts"
    | (checks) n rs where "check_workers [w] = [n]" "th = CheckThread n rs"
proof (cases w)
  case (WakeWorker job i n)
  then obtain sts v' where "wake_worker wide runtime job v = Some (sts, v')" "th = WakeThread n sts"
    using assms by (auto simp: start_worker_def)
  with WakeWorker wakes show ?thesis using wake_worker_orderly(1) by blast
qed (use assms checks in \<open>auto simp: start_worker_def\<close>)

lemma step_ok:
  assumes "app_step P (a, m, ths) (a', m', ths')" "sys_ok ths (a, m)"
  shows "sys_ok ths' (a', m')"
  using assms(1)
proof (cases rule: app_stepE [consumes 1, case_names frame starts sends stops world typed])
  case (frame i)
  then show ?thesis using sys.frame [OF assms(2), of P i] by simp
next
  case (starts ws w ws' runtime v th)
  from starts(3) show ?thesis
    by (cases rule: start_worker_cases)
      (use starts assms(2) in \<open>auto simp: sys_ok_def states_ok_check checks_ok_wake intro: states_ok_start checks_ok_start\<close>)
next
  case (sends th th' xs ys)
  then show ?thesis using assms(2)
    by (cases "(th, m)" rule: thread_send.cases)
      (auto simp: sys_ok_def states_ok_check checks_ok_wake on_states_def on_checks_def request_repaint_after_def
        intro: states_ok_sends checks_ok_sends)
next
  case (stops xs th ys)
  then show ?thesis using assms(2)
    by (cases th) (auto simp: sys_ok_def states_ok_check checks_ok_wake on_states_def on_checks_def
        intro: states_ok_stops checks_ok_stops)
next
  case (world l h r)
  then show ?thesis using assms(2) by (simp add: sys_ok_def)
next
  case (typed content i j)
  moreover have "alike (a, m) (apply_android_text_input_state content i j a, m)"
    by (cases "wa_text_input a")
      (auto simp: apply_android_text_input_state_def alike_def, (cases "ts_field (the (wa_text_input a))"; simp)+)
  ultimately show ?thesis using alike_ok assms(2) by simp
qed

lemma reachable_ok: "reachable P (a, m, ths) \<Longrightarrow> sys_ok ths (a, m)"
proof (induction "(a, m, ths)" arbitrary: a m ths rule: reachable.induct)
  case (initial m env info path)
  then show ?case
    by (simp add: app_new_def Let_def sys_ok_def app_ok_def states_ok_def checks_ok_def)
next
  case (further s)
  then show ?case by (metis prod.collapse step_ok)
qed

end
