(* ===== verification/App_Checks.thy ===== *)
theory App_Checks
  imports App_Workers
begin

text \<open>
  The two diagnostic checks of the application: the contract of their operations, which both keep, and
  what their workers do on the network.
\<close>

section \<open>The contract of a check\<close>

text \<open>
  A check is begun when nothing else runs, has a receiver while its worker runs, and is drained by
  every frame: what arrives, or an error when the worker is gone, is shown until a deadline.
\<close>

locale diagnostic_check =
  fixes begin_check :: "app_sys \<Rightarrow> app_sys"
    and drain_check :: "app_sys \<Rightarrow> app_sys"
    and rx :: "waker_app \<Rightarrow> nat option"
    and shown :: "waker_app \<Rightarrow> check_result option"
    and deadline :: "waker_app \<Rightarrow> instant option"
    and stopped :: string
  assumes drain_quiet: "rx a = None \<Longrightarrow> drain_check (a, m) = (a, m)"
    and drain_empty: "rx a = Some n \<Longrightarrow> try_recv (mc_checks m n) = (Empty, c) \<Longrightarrow>
      drain_check (a, m) = (a, on_checks (\<lambda>_. c) n m)"
    and drain_some: "rx a = Some n \<Longrightarrow> try_recv (mc_checks m n) = (r, c) \<Longrightarrow> r \<noteq> Empty \<Longrightarrow>
      drain_check (a, m) = (a', m') \<Longrightarrow> rx a' = None \<and>
      shown a' = Some (case r of Received x \<Rightarrow> x | _ \<Rightarrow> Err stopped) \<and>
      deadline a' = Some (os_now (mc_answers m (mc_asked m)) + terminal_state_display_duration)"
    and begin_blocked: "checks_blocked a \<Longrightarrow> begin_check (a, m) = (a, m)"
    and begin_free: "\<not> checks_blocked a \<Longrightarrow> begin_check (a, m) = (a', m') \<Longrightarrow>
      rx a' = Some (mc_fresh m) \<and> shown a' = None \<and> deadline a' = None \<and> mc_checks m' (mc_fresh m) = new_channel \<or>
      rx a' = None \<and> (\<exists>e d. shown a' = Some (Err e) \<and> deadline a' = Some d \<and>
        mc_repaints m' = mc_repaints m @ [terminal_state_display_duration])"
begin

text \<open>A check that was begun runs, its old result gone, or shows at once why it could not.\<close>

lemma begun:
  assumes "\<not> checks_blocked a" "begin_check (a, m) = (a', m')"
  shows "(rx a' \<noteq> None \<longleftrightarrow> shown a' = None) \<and> (shown a' = None \<longleftrightarrow> deadline a' = None)"
  using begin_free [OF assms] by auto

text \<open>The result of the worker is shown, once: draining again changes nothing.\<close>

lemma answered:
  assumes "\<not> checks_blocked a" "begin_check (a, m) = (a', m')" "rx a' = Some n"
    and "drain_check (a', on_checks (\<lambda>c. snd (send r c)) n m') = (b, k)"
  shows "rx b = None \<and> shown b = Some r \<and> deadline b \<noteq> None \<and> drain_check (b, k) = (b, k)"
proof -
  have "mc_checks m' n = new_channel" using begin_free [OF assms(1,2)] assms(3) by auto
  then have "try_recv (mc_checks (on_checks (\<lambda>c. snd (send r c)) n m') n) = (Received r, new_channel)"
    by (simp add: on_checks_def send_def try_recv_def new_channel_def)
  from drain_some [OF assms(3) this _ assms(4)] show ?thesis using drain_quiet by auto
qed

text \<open>A worker that died is noticed.\<close>

lemma noticed:
  assumes "rx a = Some n" "\<not> ch_senders (mc_checks m n)" "drain_check (a, m) = (b, k)"
  shows "rx b = None \<and> shown b = Some (case ch_queue (mc_checks m n) of x # _ \<Rightarrow> x | [] \<Rightarrow> Err stopped)"
  by (rule try_recv_cases [of "mc_checks m n"]) (use drain_some [OF assms(1) _ _ assms(3)] assms(2) in auto)

end

interpretation status: diagnostic_check "begin_host_status_check C" drain_host_status_update wa_status_rx
    wa_host_status wa_host_status_deadline "''Host status worker stopped without reporting a result''" for C
proof
  fix a m a' m'
  assume "\<not> checks_blocked a" "begin_host_status_check C (a, m) = (a', m')"
  then show "wa_status_rx a' = Some (mc_fresh m) \<and> wa_host_status a' = None \<and> wa_host_status_deadline a' = None \<and>
      mc_checks m' (mc_fresh m) = new_channel \<or>
    wa_status_rx a' = None \<and> (\<exists>e d. wa_host_status a' = Some (Err e) \<and> wa_host_status_deadline a' = Some d \<and>
      mc_repaints m' = mc_repaints m @ [terminal_state_display_duration])"
    by (auto simp: begin_host_status_check_def new_check_channel_def checks_blocked_def spawn_worker_def hang_up_def
        set_status_rx_def repaint_at_deadline_def show_host_status_def now_def ask_def request_repaint_after_def on_checks_def
        Let_def split: sum.splits)
qed (auto simp: drain_host_status_update_def begin_host_status_check_def set_status_rx_def show_host_status_def now_def
    ask_def on_checks_def Let_def split: received.splits)

interpretation pinging: diagnostic_check "begin_ping_check C" drain_ping_update wa_ping_rx
    wa_ping_status wa_ping_status_deadline "''Ping worker stopped without reporting a result''" for C
proof
  fix a m a' m'
  assume "\<not> checks_blocked a" "begin_ping_check C (a, m) = (a', m')"
  then show "wa_ping_rx a' = Some (mc_fresh m) \<and> wa_ping_status a' = None \<and> wa_ping_status_deadline a' = None \<and>
      mc_checks m' (mc_fresh m) = new_channel \<or>
    wa_ping_rx a' = None \<and> (\<exists>e d. wa_ping_status a' = Some (Err e) \<and> wa_ping_status_deadline a' = Some d \<and>
      mc_repaints m' = mc_repaints m @ [terminal_state_display_duration])"
    by (auto simp: begin_ping_check_def new_check_channel_def checks_blocked_def spawn_worker_def hang_up_def
        set_ping_rx_def repaint_at_deadline_def show_ping_status_def now_def ask_def request_repaint_after_def on_checks_def
        Let_def split: sum.splits)
qed (auto simp: drain_ping_update_def begin_ping_check_def set_ping_rx_def show_ping_status_def now_def
    ask_def on_checks_def Let_def split: received.splits)

section \<open>What a check does on the network\<close>

definition lookup_of :: "ipv4 \<Rightarrow> mac_address \<Rightarrow> string" where
  "lookup_of fritz_ip mac = fritz_hosts_request fritz_ip ''GetSpecificHostEntry'' (mac_arguments mac)"

abbreviation lookups :: "backend_state \<Rightarrow> mac_address \<Rightarrow> net_event set" where
  "lookups s mac \<equiv> only_sends {lookup_of (fst (be_fritz_address (fst s))) mac}"

lemma host_entry_sends: "extends (lookups s mac) (snd s) (snd (snd (host_entry mac s)))"
proof -
  let ?request = "lookup_of (fst (be_fritz_address (fst s))) mac"
  have "extends (only_sends {?request}) w w'"
    if "tunnel_http target ?request timeout (t, w) = (r, t', w')" for target timeout t w r t' w'
    by (rule sending.tunnel_extends(1) [OF _ that]) simp
  from use_tunnel_sends [where call = "tunnel_http (be_fritz_address (fst s)) ?request (from_secs 8)", OF this]
  show ?thesis by (simp add: host_entry_def hosts_action_def lookup_of_def Let_def case_prod_beta)
qed

lemma host_active_sends: "extends (lookups s mac) (snd s) (snd (snd (host_active wide mac s)))"
  using host_entry_sends by (simp add: host_active_def case_prod_beta)

lemma ping_host_sends: "extends (lookups s mac) (snd s) (snd (snd (ping_host wide mac s)))"
proof -
  have lookup: "extends (lookups s mac) (snd s) (snd (snd (host_ipv4 wide mac s)))"
    using host_entry_sends by (simp add: host_ipv4_def case_prod_beta)
  have "extends R (snd u) (snd (snd (ping_ipv4 target timeout u)))"
    if "R = only_sends Q" for R Q u target timeout
    unfolding that ping_ipv4_def by (rule use_tunnel_sends [OF sending.tunnel_extends(3)])
  then show ?thesis
    using lookup extends_trans [OF lookup] by (auto simp: ping_host_def split: prod.splits sum.splits)
qed

lemma check_worker_network:
  assumes sends: "\<And>s. extends (lookups s (fj_mac job)) (snd s) (snd (snd (check (fj_mac job) s)))"
    and kept: "\<And>s. kept s (snd (check (fj_mac job) s))"
    and run: "check_worker check runtime job v = (r, v')"
  shows "extends (only_sends {lookup_of (fj_fritz_ip job) (fj_mac job)}) v v' \<and>
    (built (log v) = dropped (log v) \<longrightarrow> built (log v') = dropped (log v'))"
proof (cases runtime)
  case (Inr u)
  let ?b = "backend_new (fj_profile job) (fj_fritz_ip job)"
  let ?S = "only_sends {lookup_of (fj_fritz_ip job) (fj_mac job)}"
  obtain q s where c: "backend_connect (?b, v) = (q, s)" by (metis prod.collapse)
  define s2 where "s2 = (case q of Err _ \<Rightarrow> s | Ok _ \<Rightarrow> snd (check (fj_mac job) s))"
  have v': "v' = snd (backend_disconnect s2)"
    using run Inr c by (auto simp: check_worker_def s2_def Let_def case_prod_beta split: sum.splits)
  have b: "fst (be_fritz_address (fst s)) = fj_fritz_ip job"
    and bal: "built (log v) = dropped (log v) \<longrightarrow> balanced s"
    using backend_connect_facts [of v ?b] c by (auto simp: backend_new_def balanced_def)
  have 1: "extends ?S v (snd s)" using backend_connect_sends [of _ v ?b] c by simp
  have 2: "extends ?S (snd s) (snd s2)" using sends [of s] b by (simp add: s2_def split: sum.splits)
  have "balanced s \<longrightarrow> balanced s2" using kept_balanced [OF kept [of s]] by (simp add: s2_def split: sum.splits)
  moreover have "balanced s2 \<longrightarrow> built (log v') = dropped (log v')"
    by (cases s2) (auto simp: v' backend_disconnect_def balanced_def store_tunnel_def tunnel_shutdown_def emit_def)
  ultimately show ?thesis
    using extends_trans [OF extends_trans [OF 1 2] backend_disconnect_sends [of _ s2]] v' bal by simp
qed (use run in \<open>simp add: check_worker_def\<close>)

text \<open>C11: \<^bold>\<open>a check never wakes the PC\<close>. As the window promises beside both buttons, whatever the
  network answers, all that the worker of a status check or of a ping ever writes to a connection are
  pieces of the one request that looks the host up; no Wake-on-LAN request is sent. And it drops every
  WireGuard device it built.\<close>

theorem checks_never_wake:
  assumes "status_worker wide runtime job v = (r, v') \<or> ping_worker wide runtime job v = (r, v')"
  shows "\<exists>evs. log v' = log v @ evs \<and>
    (\<forall>s \<in> set (tcp_sent evs). prefix s (lookup_of (fj_fritz_ip job) (fj_mac job))) \<and>
    (built (log v) = dropped (log v) \<longrightarrow> built (log v') = dropped (log v'))"
proof -
  have ping_kept: "kept s (snd (ping_host wide mac s))" for s mac
  proof -
    obtain q u where h: "host_ipv4 wide mac s = (q, u)" by (metis prod.collapse)
    have "kept s u" using host_calls_kept(3) [of s wide mac] h by simp
    moreover have "kept u (snd (ping_ipv4 a t u))" for a t by (rule ping_ipv4_kept)
    ultimately show ?thesis using h by (cases q) (auto simp: ping_host_def kept_def intro: extends_trans)
  qed
  have "extends (only_sends {lookup_of (fj_fritz_ip job) (fj_mac job)}) v v' \<and>
      (built (log v) = dropped (log v) \<longrightarrow> built (log v') = dropped (log v'))"
    using assms
  proof
    assume "status_worker wide runtime job v = (r, v')"
    then show ?thesis
      unfolding status_worker_def by (rule check_worker_network [where check = "host_active wide", OF host_active_sends host_calls_kept(2)])
  next
    assume "ping_worker wide runtime job v = (r, v')"
    then show ?thesis
      unfolding ping_worker_def by (rule check_worker_network [where check = "ping_host wide", OF ping_host_sends ping_kept])
  qed
  then show ?thesis using tcp_sent_only by (fastforce simp: extends_def)
qed

theorem checks_never_wake_witness:
  "\<exists>r v'. status_worker id (Ok ()) \<lparr>fj_profile = sample_profile, fj_fritz_ip = Ipv4 1 2 3 4, fj_mac = test_mac\<rparr> good_world = (r, v') \<and>
     (\<exists>evs. log v' = evs \<and> (\<forall>s \<in> set (tcp_sent evs). prefix s (lookup_of (Ipv4 1 2 3 4) test_mac))) \<and>
     built (log v') = dropped (log v')"
proof -
  let ?job = "\<lparr>fj_profile = sample_profile, fj_fritz_ip = Ipv4 1 2 3 4, fj_mac = test_mac\<rparr>"
  obtain r v' where run: "status_worker id (Ok ()) ?job good_world = (r, v')" by force
  have "log good_world = []" by (simp add: good_world_def)
  with checks_never_wake [OF disjI1 [OF run]] run show ?thesis by auto
qed

end
