(* ===== verification/App_Jobs.thy ===== *)
theory App_Jobs
  imports App_System App_Checks
begin

text \<open>
  The jobs of the application and its results, in every reachable state: at most one job has anything left
  to do for the application, which listens to it, and a check's result has a deadline while it is shown.
\<close>

section \<open>Jobs\<close>

text \<open>A thread with something left to report.\<close>

fun unfinished :: "thread \<Rightarrow> bool" where
  "unfinished (WakeThread n sts) \<longleftrightarrow> sts \<noteq> []"
| "unfinished (CheckThread n rs) \<longleftrightarrow> rs \<noteq> []"

text \<open>The job a worker or a thread belongs to is the one listened to.\<close>

fun worker_current :: "waker_app \<Rightarrow> worker \<Rightarrow> bool" where
  "worker_current a (WakeWorker job i n) \<longleftrightarrow> wa_state_rx a = Some n"
| "worker_current a (StatusWorker job n) \<longleftrightarrow> wa_status_rx a = Some n"
| "worker_current a (PingWorker job n) \<longleftrightarrow> wa_ping_rx a = Some n"

fun thread_current :: "waker_app \<Rightarrow> thread \<Rightarrow> bool" where
  "thread_current a (WakeThread n sts) \<longleftrightarrow> wa_state_rx a = Some n"
| "thread_current a (CheckThread n rs) \<longleftrightarrow> wa_status_rx a = Some n \<or> wa_ping_rx a = Some n"

definition results_ok :: "waker_app \<Rightarrow> bool" where
  "results_ok a \<longleftrightarrow>
     (wa_host_status_deadline a \<noteq> None \<longrightarrow> wa_host_status a \<noteq> None \<and> wa_status_rx a = None) \<and>
     (wa_ping_status_deadline a \<noteq> None \<longrightarrow> wa_ping_status a \<noteq> None \<and> wa_ping_rx a = None)"

definition jobs_ok :: "thread list \<Rightarrow> app_sys \<Rightarrow> bool" where
  "jobs_ok ths s \<longleftrightarrow> (case s of (a, m) \<Rightarrow>
     (\<forall>w \<in> set (mc_workers m). worker_current a w) \<and>
     (\<forall>n \<in> set (check_workers (mc_workers m)). ch_queue (mc_checks m n) = []) \<and>
     (\<forall>th \<in> set ths. unfinished th \<longrightarrow> thread_current a th) \<and>
     (\<forall>n rs. CheckThread n rs \<in> set ths \<longrightarrow> length (ch_queue (mc_checks m n)) + length rs \<le> 1) \<and>
     length (mc_workers m) + length (filter unfinished ths) \<le> 1 \<and> results_ok a)"

definition all_ok :: "thread list \<Rightarrow> app_sys \<Rightarrow> bool" where
  "all_ok ths s \<longleftrightarrow> sys_ok ths s \<and> jobs_ok ths s"

lemma check_workers_iff: "n \<in> set (check_workers ws) \<longleftrightarrow> (\<exists>job. StatusWorker job n \<in> set ws \<or> PingWorker job n \<in> set ws)"
  by (induction ws rule: check_workers.induct) auto

lemma check_threads_iff: "n \<in> set (check_threads ths) \<longleftrightarrow> (\<exists>rs. CheckThread n rs \<in> set ths)"
  by (induction ths rule: check_threads.induct) auto

text \<open>What is waited for decides whether there are jobs.\<close>

lemma current_cong:
  assumes "wa_state_rx b = wa_state_rx a" "wa_status_rx b = wa_status_rx a" "wa_ping_rx b = wa_ping_rx a"
  shows "worker_current b w = worker_current a w" "thread_current b th = thread_current a th"
  using assms by (cases w; cases th; simp)+

lemma quiet_jobs:
  assumes "jobs_ok ths (a, m)" "wa_state_rx a = None" "wa_status_rx a = None" "wa_ping_rx a = None"
  shows "mc_workers m = []" "filter unfinished ths = []"
proof -
  have "\<not> worker_current a w" "\<not> thread_current a th" for w th
    using assms(2-4) by (cases w; cases th; simp)+
  with assms(1) have "\<forall>w \<in> set (mc_workers m). False" "\<forall>th \<in> set ths. \<not> unfinished th"
    unfolding jobs_ok_def by simp_all
  then show "mc_workers m = []" "filter unfinished ths = []" by (simp_all add: filter_empty_conv)
qed

lemma alike_jobs: "alike s s' \<Longrightarrow> jobs_ok ths s \<Longrightarrow> jobs_ok ths s'"
proof -
  assume *: "alike s s'" and ok: "jobs_ok ths s"
  have "worker_current (fst s') w = worker_current (fst s) w" "thread_current (fst s') th = thread_current (fst s) th" for w th
    by (rule current_cong; use * in \<open>simp add: alike_def\<close>)+
  moreover have "results_ok (fst s') = results_ok (fst s)" using * by (simp add: alike_def results_ok_def)
  ultimately show ?thesis using ok * by (cases s; cases s') (simp add: jobs_ok_def alike_def)
qed

text \<open>When the last job is done, what is listened to does not matter.\<close>

lemma done_jobs:
  assumes "jobs_ok ths (a, m)" "mc_workers m = []" "filter unfinished ths = []"
    and "mc_workers m' = []" "results_ok a'"
    and "\<And>n. n \<in> set (check_threads ths) \<Longrightarrow> length (ch_queue (mc_checks m' n)) \<le> length (ch_queue (mc_checks m n))"
  shows "jobs_ok ths (a', m')"
proof -
  have "length (ch_queue (mc_checks m' n)) + length rs \<le> 1" if "CheckThread n rs \<in> set ths" for n rs
  proof -
    have "length (ch_queue (mc_checks m n)) + length rs \<le> 1" using assms(1) that by (simp add: jobs_ok_def)
    moreover have "n \<in> set (check_threads ths)" using that check_threads_iff by blast
    ultimately show ?thesis using assms(6) [of n] by simp
  qed
  with assms(2-5) show ?thesis by (auto simp: jobs_ok_def filter_empty_conv)
qed

text \<open>A drain ends a job only when its worker has nothing left to do.\<close>

lemma drain_state_jobs:
  assumes sys: "sys_ok ths (a, m)" and jobs: "jobs_ok ths (a, m)"
  shows "jobs_ok ths (drain_state_updates (a, m))"
proof (cases "wa_state_rx a")
  case None
  then show ?thesis using jobs by (simp add: drain_state_updates_def)
next
  case (Some n)
  let ?c = "mc_states m n"
  obtain ended st' c' where d: "drain_states (wa_busy a) ?c False (wa_state a) = (ended, st', c')" by (metis prod.collapse)
  have quiet: "wa_status_rx a = None" "wa_ping_rx a = None" using sys Some by (auto simp: sys_ok_def app_ok_def)
  show ?thesis
  proof (cases ended)
    case False
    have "drain_state_updates (a, m) = (a\<lparr>wa_state := st'\<rparr>, on_states (\<lambda>_. c') n m)"
      using Some d False by (simp add: drain_state_updates_def Let_def)
    moreover have "worker_current (a\<lparr>wa_state := st'\<rparr>) w = worker_current a w"
      "thread_current (a\<lparr>wa_state := st'\<rparr>) th = thread_current a th" for w th
      by (rule current_cong; simp)+
    ultimately show ?thesis using jobs by (simp add: jobs_ok_def on_states_def results_ok_def)
  next
    case True
    have st: "states_ok (mc_workers m) ths (mc_states m) (mc_fresh m) (Some n)" using sys Some by (simp add: sys_ok_def)
    have over: "list_ex is_terminal (ch_queue ?c) \<or> \<not> ch_senders ?c"
      using d True by (auto simp: drain_states_eq Let_def split: if_splits)
    have "mc_workers m = []"
    proof (rule ccontr)
      assume "mc_workers m \<noteq> []"
      then obtain w where w: "w \<in> set (mc_workers m)" by (cases "mc_workers m") auto
      then have "worker_current a w" using jobs by (simp add: jobs_ok_def)
      then obtain job i where "w = WakeWorker job i n" using Some quiet by (cases w) auto
      with w have "n \<in> set (wake_workers (mc_workers m))" "ch_queue ?c = []"
        using st wake_workers_iff by (fastforce simp: states_ok_def)+
      with over st show False by (simp add: states_ok_def)
    qed
    moreover have "filter unfinished ths = []"
    proof (rule ccontr)
      assume "filter unfinished ths \<noteq> []"
      then obtain th where th: "th \<in> set ths" "unfinished th" by (auto simp: filter_empty_conv)
      then have "thread_current a th" using jobs by (simp add: jobs_ok_def)
      then obtain sts where sts: "th = WakeThread n sts" "sts \<noteq> []" using Some quiet th(2) by (cases th) auto
      with th have "n \<in> set (wake_threads ths)" "orderly (ch_queue ?c @ sts)"
        using st wake_threads_iff by (fastforce simp: states_ok_def)+
      with over st sts(2) show False by (auto simp: states_ok_def orderly_def butlast_append list_ex_iff under_way_def)
    qed
    moreover have "results_ok (fst (drain_state_updates (a, m))) = results_ok a"
      "mc_workers (snd (drain_state_updates (a, m))) = mc_workers m"
      "mc_checks (snd (drain_state_updates (a, m))) = mc_checks m"
      using Some d True
      by (simp_all add: drain_state_updates_def set_state_rx_def finish_attempt_def now_def ask_def results_ok_def on_states_def Let_def
          split: option.split)
    ultimately show ?thesis
      using done_jobs [OF jobs, of "snd (drain_state_updates (a, m))" "fst (drain_state_updates (a, m))"] jobs
      by (simp add: jobs_ok_def)
  qed
qed

text \<open>The queue of a check with a worker or a thread that has still to answer is empty, and its sender is there.\<close>

lemma check_waits:
  assumes jobs: "jobs_ok ths (a, m)" and ok: "checks_ok (mc_workers m) ths (mc_checks m) fresh (Some n)"
    and cur: "\<And>w. worker_current a w \<Longrightarrow> check_workers [w] = [n]"
      "\<And>th. thread_current a th \<Longrightarrow> \<exists>rs. th = CheckThread n rs"
    and r: "try_recv (mc_checks m n) = (r, c)" "r \<noteq> Empty"
  shows "mc_workers m = []" "filter unfinished ths = []"
proof -
  have busy: False if "ch_queue (mc_checks m n) = []" "ch_senders (mc_checks m n)"
    using r that by (auto simp: try_recv_def)
  show "mc_workers m = []"
  proof (rule ccontr)
    assume "mc_workers m \<noteq> []"
    then obtain w where w: "w \<in> set (mc_workers m)" by (cases "mc_workers m") auto
    then have "check_workers [w] = [n]" using jobs cur(1) by (simp add: jobs_ok_def)
    then have "n \<in> set (check_workers (mc_workers m))" using w unfolding check_workers_iff by (cases w) auto
    then show False using busy jobs ok by (simp add: jobs_ok_def checks_ok_def)
  qed
  show "filter unfinished ths = []"
  proof (rule ccontr)
    assume "filter unfinished ths \<noteq> []"
    then obtain th where th: "th \<in> set ths" "unfinished th" by (auto simp: filter_empty_conv)
    then have "thread_current a th" using jobs by (simp add: jobs_ok_def)
    then obtain rs where rs: "th = CheckThread n rs" using cur(2) by blast
    then have "n \<in> set (check_threads ths)" using th(1) check_threads_iff by blast
    moreover have "length (ch_queue (mc_checks m n)) + length rs \<le> 1" using jobs th(1) rs by (simp add: jobs_ok_def)
    moreover have "rs \<noteq> []" using th(2) rs by simp
    ultimately show False using busy ok by (cases rs) (auto simp: checks_ok_def)
  qed
qed

lemma check_received:
  assumes "jobs_ok ths (a, m)" "try_recv (mc_checks m n) = (Empty, c)"
  shows "on_checks (\<lambda>_. c) n m = m"
  using assms by (auto simp: try_recv_def on_checks_def split: list.splits if_splits)

lemma drain_status_jobs:
  assumes sys: "sys_ok ths (a, m)" and jobs: "jobs_ok ths (a, m)"
  shows "jobs_ok ths (drain_host_status_update (a, m))"
proof (cases "wa_status_rx a")
  case (Some n)
  have quiet: "wa_state_rx a = None" "wa_ping_rx a = None" and ok: "checks_ok (mc_workers m) ths (mc_checks m) (mc_fresh m) (Some n)"
    using sys Some by (auto simp: sys_ok_def app_ok_def)
  obtain r c where r: "try_recv (mc_checks m n) = (r, c)" by force
  show ?thesis
  proof (cases "r = Empty")
    case True
    then show ?thesis using jobs r Some check_received [OF jobs, of n c] by (simp add: drain_host_status_update_def)
  next
    case False
    have cur: "worker_current a w \<Longrightarrow> check_workers [w] = [n]" "thread_current a th \<Longrightarrow> \<exists>rs. th = CheckThread n rs" for w th
      using quiet Some by (cases w; cases th; simp)+
    note none = check_waits [OF jobs ok cur r False]
    have "results_ok (fst (drain_host_status_update (a, m)))" "mc_workers (snd (drain_host_status_update (a, m))) = mc_workers m"
      "\<And>k. length (ch_queue (mc_checks (snd (drain_host_status_update (a, m))) k)) \<le> length (ch_queue (mc_checks m k))"
      using Some r False jobs
      by (auto simp: drain_host_status_update_def jobs_ok_def results_ok_def check_simps drop_receiver_def try_recv_def Let_def
          split: received.splits list.splits if_splits)
    then show ?thesis
      using done_jobs [OF jobs none, of "snd (drain_host_status_update (a, m))" "fst (drain_host_status_update (a, m))"] none by simp
  qed
qed (use jobs in \<open>simp add: drain_host_status_update_def\<close>)

lemma drain_ping_jobs:
  assumes sys: "sys_ok ths (a, m)" and jobs: "jobs_ok ths (a, m)"
  shows "jobs_ok ths (drain_ping_update (a, m))"
proof (cases "wa_ping_rx a")
  case (Some n)
  have quiet: "wa_state_rx a = None" "wa_status_rx a = None" and ok: "checks_ok (mc_workers m) ths (mc_checks m) (mc_fresh m) (Some n)"
    using sys Some by (auto simp: sys_ok_def app_ok_def)
  obtain r c where r: "try_recv (mc_checks m n) = (r, c)" by force
  show ?thesis
  proof (cases "r = Empty")
    case True
    then show ?thesis using jobs r Some check_received [OF jobs, of n c] by (simp add: drain_ping_update_def)
  next
    case False
    have cur: "worker_current a w \<Longrightarrow> check_workers [w] = [n]" "thread_current a th \<Longrightarrow> \<exists>rs. th = CheckThread n rs" for w th
      using quiet Some by (cases w; cases th; simp)+
    note none = check_waits [OF jobs ok cur r False]
    have "results_ok (fst (drain_ping_update (a, m)))" "mc_workers (snd (drain_ping_update (a, m))) = mc_workers m"
      "\<And>k. length (ch_queue (mc_checks (snd (drain_ping_update (a, m))) k)) \<le> length (ch_queue (mc_checks m k))"
      using Some r False jobs
      by (auto simp: drain_ping_update_def jobs_ok_def results_ok_def check_simps drop_receiver_def try_recv_def Let_def
          split: received.splits list.splits if_splits)
    then show ?thesis
      using done_jobs [OF jobs none, of "snd (drain_ping_update (a, m))" "fst (drain_ping_update (a, m))"] none by simp
  qed
qed (use jobs in \<open>simp add: drain_ping_update_def\<close>)

lemma update_jobs:
  assumes "jobs_ok ths (a, m)"
  shows "jobs_ok ths (snd (update_terminal_state_timeout t a), m)" "jobs_ok ths (snd (update_diagnostic_result_timeouts t a), m)"
proof -
  have same: "jobs_ok ths (b, m)" if "wa_state_rx b = wa_state_rx a" "wa_status_rx b = wa_status_rx a" "wa_ping_rx b = wa_ping_rx a"
    "results_ok b" for b
    using assms that(4) current_cong [OF that(1-3)] by (simp add: jobs_ok_def)
  show "jobs_ok ths (snd (update_terminal_state_timeout t a), m)"
    by (rule same; use assms in \<open>simp add: update_terminal_state_timeout_def jobs_ok_def results_ok_def split: option.split\<close>)
  show "jobs_ok ths (snd (update_diagnostic_result_timeouts t a), m)"
    by (rule same; use assms in \<open>auto simp: update_diagnostic_result_timeouts_def deadline_turn_def jobs_ok_def results_ok_def Let_def
      split: option.splits prod.splits if_splits\<close>)
qed

text \<open>A job is begun only when there is none.\<close>

lemma new_job:
  assumes sys: "sys_ok ths (a, m)" and jobs: "jobs_ok ths (a, m)" and free: "wa_state_rx a = None" "wa_status_rx a = None" "wa_ping_rx a = None"
    and new: "mc_workers m' = [] \<or> (\<exists>w. mc_workers m' = [w] \<and> worker_current a' w \<and> worker_channel w = mc_fresh m)"
    and ch: "\<forall>k. k \<noteq> mc_fresh m \<longrightarrow> mc_checks m' k = mc_checks m k"
    and kind: "\<forall>w \<in> set (mc_workers m'). check_workers [w] = [] \<or> ch_queue (mc_checks m' (mc_fresh m)) = []"
    and res: "results_ok a'"
  shows "jobs_ok ths (a', m')"
proof -
  note none = quiet_jobs [OF jobs free]
  have "n \<noteq> mc_fresh m" if "n \<in> set (check_threads ths)" for n
    using sys that by (auto simp: sys_ok_def checks_ok_def)
  then have "length (ch_queue (mc_checks m' n)) \<le> length (ch_queue (mc_checks m n))" if "n \<in> set (check_threads ths)" for n
    using ch that by fastforce
  from done_jobs [OF jobs none, of "m'\<lparr>mc_workers := []\<rparr>" a'] this res
  have "jobs_ok ths (a', m'\<lparr>mc_workers := []\<rparr>)" by simp
  moreover have "ch_queue (mc_checks m' n) = []" if n: "n \<in> set (check_workers (mc_workers m'))" for n
  proof -
    obtain w where w: "mc_workers m' = [w]" "worker_channel w = mc_fresh m" using new n by auto
    then have "n = mc_fresh m" "check_workers [w] \<noteq> []" using n by (cases w; auto)+
    with kind w(1) show ?thesis by auto
  qed
  ultimately show ?thesis using new none(2) by (auto simp: jobs_ok_def)
qed

lemma begin_wake_facts:
  assumes "begin_wake C (a, m) = (a', m')" "wa_state_rx a = None"
  shows "mc_checks m' = mc_checks m \<and> wa_status_rx a' = wa_status_rx a \<and> wa_ping_rx a' = wa_ping_rx a \<and>
    results_ok a' = results_ok a \<and>
    (mc_workers m' = mc_workers m \<or>
     (\<exists>job i. mc_workers m' = mc_workers m @ [WakeWorker job i (mc_fresh m)] \<and> wa_state_rx a' = Some (mc_fresh m)))"
proof -
  obtain i m0 t m2 where ask: "attempt_id m = (i, m0)" "now m0 = (t, m2)" by force
  then have m2: "mc_checks m2 = mc_checks m" "mc_workers m2 = mc_workers m" "mc_fresh m2 = mc_fresh m"
    by (auto simp: attempt_id_def now_def ask_def Let_def split: prod.splits)
  have fin: "mc_checks (snd (finish_attempt s)) = mc_checks (snd s) \<and> mc_workers (snd (finish_attempt s)) = mc_workers (snd s) \<and>
    wa_status_rx (fst (finish_attempt s)) = wa_status_rx (fst s) \<and> wa_ping_rx (fst (finish_attempt s)) = wa_ping_rx (fst s) \<and>
    results_ok (fst (finish_attempt s)) = results_ok (fst s)" for s
    by (cases s) (simp add: finish_attempt_def now_def ask_def results_ok_def Let_def split: option.split)
  let ?a = "a\<lparr>wa_terminal_deadline := None, wa_active := Some \<lparr>aa_id = i, aa_started = t\<rparr>\<rparr>"
  show ?thesis
  proof (cases "build_job C ?a m2")
    case (Inl why)
    let ?b = "?a\<lparr>wa_state := Core_Types.Failed (wake_failure_new Configuration why), wa_busy := False\<rparr>"
    have "(a', m') = finish_attempt (?b, m2)" "results_ok ?b = results_ok a" using assms(1) ask Inl
      by (simp_all add: begin_wake_def results_ok_def)
    then show ?thesis using fin [of "(?b, m2)"] m2 by (auto simp: prod_eq_iff)
  next
    case (Inr job)
    let ?m = "m2\<lparr>mc_states := (mc_states m2)(mc_fresh m := new_channel), mc_fresh := Suc (mc_fresh m)\<rparr>"
    let ?b = "?a\<lparr>wa_state_rx := Some (mc_fresh m), wa_state := Connecting, wa_busy := True\<rparr>"
    show ?thesis
    proof (rule spawn_worker_cases [of "WakeWorker job i (mc_fresh m)" ?m])
      assume "spawn_worker (WakeWorker job i (mc_fresh m)) ?m =
        (Ok (), ?m\<lparr>mc_asked := Suc (mc_asked ?m), mc_workers := mc_workers ?m @ [WakeWorker job i (mc_fresh m)]\<rparr>)"
      then show ?thesis using assms ask Inr m2
        by (auto simp: begin_wake_def new_state_channel_def set_state_rx_def results_ok_def)
    next
      fix e
      assume sp: "spawn_worker (WakeWorker job i (mc_fresh m)) ?m = (Err e, hang_up (WakeWorker job i (mc_fresh m)) (?m\<lparr>mc_asked := Suc (mc_asked ?m)\<rparr>))"
      let ?f = "?a\<lparr>wa_state := Core_Types.Failed (wake_failure_new Runtime (''could not create worker thread: '' @ e)), wa_state_rx := None, wa_busy := False\<rparr>"
      let ?k = "on_states drop_receiver (mc_fresh m) (hang_up (WakeWorker job i (mc_fresh m)) (?m\<lparr>mc_asked := Suc (mc_asked ?m)\<rparr>))"
      have "(a', m') = finish_attempt (?f, ?k)"
        using assms ask Inr m2 sp by (simp add: begin_wake_def new_state_channel_def set_state_rx_def)
      moreover have "results_ok ?f = results_ok a" by (simp add: results_ok_def)
      ultimately show ?thesis using fin [of "(?f, ?k)"] m2 by (simp add: prod_eq_iff hang_up_def on_states_def)
    qed
  qed
qed

lemma begin_wake_jobs:
  assumes sys: "sys_ok ths (a, m)" and jobs: "jobs_ok ths (a, m)" and enabled: "wake_enabled a"
  shows "jobs_ok ths (begin_wake C (a, m))"
proof -
  have free: "wa_state_rx a = None" "wa_status_rx a = None" "wa_ping_rx a = None"
    using sys enabled by (auto simp: wake_enabled_def sys_ok_def app_ok_def)
  obtain a' m' where b: "begin_wake C (a, m) = (a', m')" by force
  note f = begin_wake_facts [OF b free(1)]
  have "jobs_ok ths (a', m')"
    by (rule new_job [OF sys jobs free])
      (use f quiet_jobs(1) [OF jobs free] jobs in \<open>auto simp: jobs_ok_def\<close>)
  then show ?thesis by (simp add: b)
qed

lemma begin_checks_jobs:
  assumes sys: "sys_ok ths (a, m)" and jobs: "jobs_ok ths (a, m)"
  shows "jobs_ok ths (begin_host_status_check C (a, m))" "jobs_ok ths (begin_ping_check C (a, m))"
proof -
  have "jobs_ok ths (begin_host_status_check C (a, m)) \<and> jobs_ok ths (begin_ping_check C (a, m))"
  proof (cases "checks_blocked a")
    case False
    have free: "wa_state_rx a = None" "wa_status_rx a = None" "wa_ping_rx a = None"
      using not_blocked [OF _ False] sys by (simp_all add: sys_ok_def)
    note none = quiet_jobs [OF jobs free]
    have res: "results_ok a" using jobs by (simp add: jobs_ok_def)
    have "jobs_ok ths (fst (begin_host_status_check C (a, m)), snd (begin_host_status_check C (a, m)))"
      by (rule new_job [OF sys jobs free];
          cases "build_fritz_job C (a\<lparr>wa_host_status_deadline := None\<rparr>) m";
          cases "os_spawn (mc_answers m (mc_asked m))";
          use False none res free in \<open>simp add: begin_host_status_check_def new_check_channel_def spawn_worker_def hang_up_def check_simps
            results_ok_def drop_senders_def drop_receiver_def new_channel_def Let_def\<close>)
    moreover have "jobs_ok ths (fst (begin_ping_check C (a, m)), snd (begin_ping_check C (a, m)))"
      by (rule new_job [OF sys jobs free];
          cases "build_fritz_job C (a\<lparr>wa_ping_status_deadline := None\<rparr>) m";
          cases "os_spawn (mc_answers m (mc_asked m))";
          use False none res free in \<open>simp add: begin_ping_check_def new_check_channel_def spawn_worker_def hang_up_def check_simps
            results_ok_def drop_senders_def drop_receiver_def new_channel_def Let_def\<close>)
    ultimately show ?thesis by simp
  qed (use jobs in \<open>simp add: begin_host_status_check_def begin_ping_check_def\<close>)
  then show "jobs_ok ths (begin_host_status_check C (a, m))" "jobs_ok ths (begin_ping_check C (a, m))" by simp_all
qed

interpretation jobs: frame_invariant "all_ok ths" for ths
proof
  fix s s' :: app_sys and C
  obtain a m where s: "s = (a, m)" by force
  show "alike s s' \<Longrightarrow> all_ok ths s \<Longrightarrow> all_ok ths s'" by (simp add: all_ok_def sys.keeps alike_jobs)
  show "all_ok ths s \<Longrightarrow> all_ok ths (drain_state_updates s)" by (simp add: all_ok_def sys.drain_states drain_state_jobs s)
  show "all_ok ths s \<Longrightarrow> all_ok ths (drain_host_status_update s)" by (simp add: all_ok_def sys.drain_status drain_status_jobs s)
  show "all_ok ths s \<Longrightarrow> all_ok ths (drain_ping_update s)" by (simp add: all_ok_def sys.drain_ping drain_ping_jobs s)
  show "all_ok ths s \<Longrightarrow> all_ok ths (begin_host_status_check C s)" by (simp add: all_ok_def sys.begin_status begin_checks_jobs s)
  show "all_ok ths s \<Longrightarrow> all_ok ths (begin_ping_check C s)" by (simp add: all_ok_def sys.begin_ping begin_checks_jobs s)
next
  fix a m t C
  show "all_ok ths (a, m) \<Longrightarrow> all_ok ths (snd (update_terminal_state_timeout t a), m)" by (simp add: all_ok_def sys.terminal update_jobs)
  show "all_ok ths (a, m) \<Longrightarrow> all_ok ths (snd (update_diagnostic_result_timeouts t a), m)" by (simp add: all_ok_def sys.results update_jobs)
  show "all_ok ths (a, m) \<Longrightarrow> wake_enabled a \<Longrightarrow> all_ok ths (begin_wake C (a, m))" by (simp add: all_ok_def sys.begin_wake begin_wake_jobs)
qed

section \<open>Every step keeps the jobs\<close>

lemma jobs_start:
  assumes jobs: "jobs_ok ths (a, m)" and w: "mc_workers m = ws @ w # ws'" and start: "start_worker wide runtime v w = Some th"
  shows "jobs_ok (ths @ [th]) (a, m\<lparr>mc_workers := ws @ ws'\<rparr>)"
proof -
  have one: "ws = []" "ws' = []" "filter unfinished ths = []" using jobs w by (auto simp: jobs_ok_def)
  have cur: "worker_current a w" using jobs w by (simp add: jobs_ok_def)
  show ?thesis
  proof (cases w)
    case (WakeWorker job i n)
    then obtain sts where "th = WakeThread n sts" using start by (auto simp: start_worker_def)
    with jobs one cur WakeWorker show ?thesis by (auto simp: jobs_ok_def)
  next
    case (StatusWorker job n)
    then obtain r where "th = CheckThread n [r]" using start by (auto simp: start_worker_def)
    moreover have "ch_queue (mc_checks m n) = []" using jobs w one StatusWorker by (simp add: jobs_ok_def)
    ultimately show ?thesis using jobs one cur StatusWorker by (auto simp: jobs_ok_def)
  next
    case (PingWorker job n)
    then obtain r where "th = CheckThread n [r]" using start by (auto simp: start_worker_def)
    moreover have "ch_queue (mc_checks m n) = []" using jobs w one PingWorker by (simp add: jobs_ok_def)
    ultimately show ?thesis using jobs one cur PingWorker by (auto simp: jobs_ok_def)
  qed
qed

lemma jobs_send:
  assumes sys: "sys_ok (xs @ th # ys) (a, m)" and jobs: "jobs_ok (xs @ th # ys) (a, m)" and send: "thread_send th m = Some (th', m')"
  shows "jobs_ok (xs @ th' # ys) (a, m')"
proof (cases th)
  case (WakeThread n sts)
  then obtain st rest where "sts = st # rest" "th' = WakeThread n rest" "mc_checks m' = mc_checks m" "mc_workers m' = mc_workers m"
    using send by (cases sts) (auto simp: on_states_def request_repaint_after_def)
  with WakeThread jobs show ?thesis by (auto simp: jobs_ok_def)
next
  case (CheckThread n rs)
  then obtain r rest where r: "rs = r # rest" "th' = CheckThread n rest" "mc_checks m' = (mc_checks m)(n := snd (send r (mc_checks m n)))"
    "mc_workers m' = mc_workers m"
    using send by (cases rs) (auto simp: on_checks_def request_repaint_after_def)
  have "n \<notin> set (check_workers (mc_workers m))" "n \<notin> set (check_threads (xs @ ys))"
    using sys CheckThread by (auto simp: sys_ok_def checks_ok_def)
  moreover have "length (ch_queue (snd (send r (mc_checks m n)))) \<le> Suc (length (ch_queue (mc_checks m n)))" by (simp add: send_def)
  moreover have "length (ch_queue (mc_checks m n)) + length rs \<le> 1" using jobs CheckThread by (simp add: jobs_ok_def)
  ultimately show ?thesis using jobs CheckThread r unfolding check_threads_iff by (auto simp: jobs_ok_def)
qed

lemma jobs_stop: "jobs_ok (xs @ th # ys) (a, m) \<Longrightarrow> jobs_ok (xs @ ys) (a, thread_end th m)"
  by (cases th) (auto simp: jobs_ok_def on_states_def on_checks_def drop_senders_def split: if_splits)

lemma step_jobs:
  assumes "app_step P (a, m, ths) (a', m', ths')" "all_ok ths (a, m)"
  shows "all_ok ths' (a', m')"
proof -
  have sys: "sys_ok ths (a, m)" and jobs: "jobs_ok ths (a, m)" using assms(2) by (simp_all add: all_ok_def)
  from assms(1) have "jobs_ok ths' (a', m')"
  proof (cases rule: app_stepE [consumes 1, case_names frame starts sends stops world typed])
    case (frame i)
    then show ?thesis using jobs.frame [OF assms(2), of P i] by (simp add: all_ok_def)
  next
    case (starts ws w ws' runtime v th)
    with jobs_start [OF jobs _ starts(3)] show ?thesis by simp
  next
    case (sends th th' xs ys)
    with jobs_send sys jobs show ?thesis by blast
  next
    case (stops xs th ys)
    with jobs_stop jobs show ?thesis by blast
  next
    case (world l h r)
    then show ?thesis using jobs by (simp add: jobs_ok_def)
  next
    case (typed content i j)
    moreover have "alike (a, m) (apply_android_text_input_state content i j a, m)"
      by (cases "wa_text_input a")
        (auto simp: apply_android_text_input_state_def alike_def, (cases "ts_field (the (wa_text_input a))"; simp)+)
    ultimately show ?thesis using alike_jobs jobs by blast
  qed
  with step_ok [OF assms(1) sys] show ?thesis by (simp add: all_ok_def)
qed

lemma reachable_jobs: "reachable P (a, m, ths) \<Longrightarrow> all_ok ths (a, m)"
proof (induction "(a, m, ths)" arbitrary: a m ths rule: reachable.induct)
  case (initial m env info path)
  then show ?case
    by (simp add: app_new_def Let_def all_ok_def sys_ok_def app_ok_def states_ok_def checks_ok_def jobs_ok_def results_ok_def)
next
  case (further s)
  then show ?case by (metis prod.collapse step_jobs)
qed

section \<open>The result of a check\<close>

text \<open>What a list of widgets shows: the labels of its buttons and its errors.\<close>

fun view :: "widget list \<Rightarrow> string list \<times> string list" where
  "view [] = ([], [])"
| "view (Button l e # ws) = (l # fst (view ws), snd (view ws))"
| "view (ErrorLabel t # ws) = (fst (view ws), t # snd (view ws))"
| "view (_ # ws) = view ws"

text \<open>What the two diagnostics show in a frame in which they are not clicked.\<close>

definition status_view :: "app_params \<Rightarrow> ui_input \<Rightarrow> app_sys \<Rightarrow> string list \<times> string list" where
  "status_view P i s = view (fst (render_fritz_status_diagnostic P (i\<lparr>in_status := False\<rparr>) s))"

definition ping_view :: "app_params \<Rightarrow> ui_input \<Rightarrow> app_sys \<Rightarrow> string list \<times> string list" where
  "ping_view P i s = view (fst (render_ping_diagnostic P (i\<lparr>in_ping := False\<rparr>) s))"

definition status_answer :: "check_result \<Rightarrow> string list \<times> string list" where
  "status_answer r = (case r of Ok True \<Rightarrow> ([''PC online''], []) | Ok False \<Rightarrow> ([''PC offline''], [])
     | Err e \<Rightarrow> ([''Check PC via FRITZ!Box API''], [''Status check failed: '' @ e]))"

definition ping_answer :: "check_result \<Rightarrow> string list \<times> string list" where
  "ping_answer r = (case r of Ok True \<Rightarrow> ([''PC replied''], []) | Ok False \<Rightarrow> ([''No ICMP reply''], [])
     | Err e \<Rightarrow> ([''Ping PC through tunnel''], [''Ping failed: '' @ e]))"

lemma status_view_eq:
  "wa_status_rx a = Some n \<Longrightarrow> wa_host_status_deadline a = None \<Longrightarrow> status_view P i (a, m) = ([''Checking FRITZ!Box'' @ ellipsis], [])"
  "wa_status_rx a = None \<Longrightarrow> wa_host_status_deadline a = Some d \<Longrightarrow> wa_host_status a = Some r \<Longrightarrow>
     status_view P i (a, m) = status_answer r"
  "wa_status_rx a = None \<Longrightarrow> wa_host_status_deadline a = None \<Longrightarrow> status_view P i (a, m) = ([''Check PC via FRITZ!Box API''], [])"
  by (auto simp: status_view_def status_answer_def render_fritz_status_diagnostic_def host_status_button_label_def Let_def
      split: sum.split bool.split)

lemma ping_view_eq:
  "wa_ping_rx a = Some n \<Longrightarrow> wa_ping_status_deadline a = None \<Longrightarrow> ping_view P i (a, m) = ([''Pinging PC'' @ ellipsis], [])"
  "wa_ping_rx a = None \<Longrightarrow> wa_ping_status_deadline a = Some d \<Longrightarrow> wa_ping_status a = Some r \<Longrightarrow>
     ping_view P i (a, m) = ping_answer r"
  "wa_ping_rx a = None \<Longrightarrow> wa_ping_status_deadline a = None \<Longrightarrow> ping_view P i (a, m) = ([''Ping PC through tunnel''], [])"
  by (auto simp: ping_view_def ping_answer_def render_ping_diagnostic_def ping_button_label_def Let_def
      split: sum.split bool.split)

text \<open>One pass over the deadlines: a result stays until its own, and a repaint is due by then.\<close>

lemma results_timeout:
  assumes "update_diagnostic_result_timeouts t a = (next, b)"
  shows "wa_host_status_deadline a = Some d \<Longrightarrow> t < d \<Longrightarrow> wa_host_status_deadline b = Some d \<and> (\<exists>x. next = Some x \<and> x \<le> d - t)"
    and "wa_ping_status_deadline a = Some d \<Longrightarrow> t < d \<Longrightarrow> wa_ping_status_deadline b = Some d \<and> (\<exists>x. next = Some x \<and> x \<le> d - t)"
    and "wa_host_status_deadline a = Some d \<Longrightarrow> d \<le> t \<Longrightarrow> wa_host_status_deadline b = None"
    and "wa_ping_status_deadline a = Some d \<Longrightarrow> d \<le> t \<Longrightarrow> wa_ping_status_deadline b = None"
    and "wa_host_status b = wa_host_status a" "wa_status_rx b = wa_status_rx a" "wa_ping_status b = wa_ping_status a" "wa_ping_rx b = wa_ping_rx a"
  using assms by (auto simp: update_diagnostic_result_timeouts_def deadline_turn_def Let_def split: prod.splits option.splits if_splits)

text \<open>A thread's answer finds the queue of its check empty.\<close>

lemma answer_arrives:
  assumes all: "all_ok ths (a, m)" and th: "CheckThread n (r # rs) \<in> set ths"
    and rx: "wa_status_rx a = Some n \<or> wa_ping_rx a = Some n"
    and send: "thread_send (CheckThread n (r # rs)) m = Some (th', m')"
  shows "\<exists>c. try_recv (mc_checks m' n) = (Received r, c)" "mc_answers m' = mc_answers m" "mc_asked m' = mc_asked m"
proof -
  have "length (ch_queue (mc_checks m n)) + length (r # rs) \<le> 1" using all th by (simp only: all_ok_def jobs_ok_def) blast
  then have "ch_queue (mc_checks m n) = []" by simp
  moreover have "ch_receiver (mc_checks m n)" using all rx by (auto simp: all_ok_def sys_ok_def checks_ok_def)
  moreover have "m' = request_repaint_after 0 (on_checks (\<lambda>c. snd (send r c)) n m)" using send by simp
  ultimately show "\<exists>c. try_recv (mc_checks m' n) = (Received r, c)" "mc_answers m' = mc_answers m" "mc_asked m' = mc_asked m"
    by (simp_all add: request_repaint_after_def on_checks_def send_def try_recv_def)
qed

end
