(* ===== verification/App_Progress.thy ===== *)
theory App_Progress
  imports App_Jobs
begin

text \<open>
  What users of the application may rely on: the invariant of every reachable state, that attempts and
  checks end, that the result shown is the worker's, and that what leaves the application is redacted.
\<close>

section \<open>One thing at a time\<close>

text \<open>C9: \<^bold>\<open>one thing at a time\<close>. In every reachable state at most one job is under way: of the workers
  not yet started and the threads with something left to report there is at most one, and it is the one the
  application listens to. An attempt is in progress exactly while the application listens to its worker and
  counts it as active, exactly then a state of progress is shown, and no check is listened to beside it; nor are
  the two checks together. Every terminal state has a deadline, and the channel listened to is open exactly while
  a worker still holds it. A thread left from an earlier job has nothing more to report; it may still be on its
  way out, as \<open>run_wake\<close> reports \<open>Awake\<close> before it disconnects.\<close>

theorem one_thing_at_a_time:
  assumes "reachable P (a, m, ths)"
  shows "length (mc_workers m) + length (filter unfinished ths) \<le> 1 \<and>
    (\<forall>w \<in> set (mc_workers m). worker_current a w) \<and>
    (\<forall>th \<in> set ths. unfinished th \<longrightarrow> thread_current a th) \<and>
    (wa_busy a \<longleftrightarrow> wa_state_rx a \<noteq> None) \<and> (wa_busy a \<longleftrightarrow> wa_active a \<noteq> None) \<and>
    (wa_busy a \<longleftrightarrow> under_way (wa_state a)) \<and>
    \<not> (wa_busy a \<and> (wa_status_rx a \<noteq> None \<or> wa_ping_rx a \<noteq> None)) \<and>
    \<not> (wa_status_rx a \<noteq> None \<and> wa_ping_rx a \<noteq> None) \<and>
    (is_terminal (wa_state a) \<longleftrightarrow> wa_terminal_deadline a \<noteq> None) \<and>
    (\<forall>n. wa_state_rx a = Some n \<longrightarrow>
       (ch_senders (mc_states m n) \<longleftrightarrow> n \<in> set (wake_workers (mc_workers m) @ wake_threads ths)))"
proof -
  have "sys_ok ths (a, m)" "jobs_ok ths (a, m)" using reachable_jobs [OF assms] by (simp_all add: all_ok_def)
  then show ?thesis by (auto simp: sys_ok_def app_ok_def states_ok_def jobs_ok_def)
qed

section \<open>Attempts end\<close>

lemma drain_ended:
  assumes ok: "app_ok a" "orderly (ch_queue (mc_states m n))" and rx: "wa_state_rx a = Some n"
    and d: "drain_states (wa_busy a) (mc_states m n) False (wa_state a) = (True, st, c)"
    and drain: "drain_state_updates (a, m) = (a', m')"
  shows "\<not> wa_busy a' \<and> wa_state_rx a' = None \<and> wa_active a' = None \<and> wa_state a' = st \<and>
    (\<exists>t. wa_last a' = Some \<lparr>as_elapsed = t, as_failure = (case st of Core_Types.Failed f \<Rightarrow> Some f | _ \<Rightarrow> None)\<rparr>)"
proof -
  let ?a = "a\<lparr>wa_state := st, wa_busy := False, wa_state_rx := None\<rparr>"
  let ?m = "on_states drop_receiver n (on_states (\<lambda>_. c) n m)"
  obtain x where x: "wa_active a = Some x" "is_terminal st"
    using ok d rx orderly_last(1) by (auto simp: app_ok_def drain_states_eq Let_def split: if_splits)
  have "drain_state_updates (a, m) = finish_attempt (?a, ?m)"
    using rx d by (simp add: drain_state_updates_def set_state_rx_def Let_def)
  then show ?thesis using drain finish_attempt_eq [of ?a x ?m] x by auto
qed

text \<open>C10: \<^bold>\<open>no attempt hangs\<close>. When the worker of the attempt in progress is gone, however it
  ended, the next frame's drain ends the attempt: it shows the terminal state the worker reported last,
  or a runtime failure if it reported none, records that outcome, and frees the application for the next
  attempt.\<close>

theorem no_attempt_hangs:
  assumes "reachable P (a, m, ths)" and rx: "wa_state_rx a = Some n"
    and gone: "n \<notin> set (wake_workers (mc_workers m) @ wake_threads ths)"
    and drain: "drain_state_updates (a, m) = (a', m')"
  shows "\<not> wa_busy a' \<and> wa_state_rx a' = None \<and> wa_active a' = None \<and>
    wa_state a' = (let q = ch_queue (mc_states m n)
      in if q \<noteq> [] \<and> is_terminal (last q) then last q else Core_Types.Failed worker_stopped) \<and>
    (\<exists>t. wa_last a' = Some \<lparr>as_elapsed = t,
       as_failure = (case wa_state a' of Core_Types.Failed f \<Rightarrow> Some f | _ \<Rightarrow> None)\<rparr>)"
proof -
  have ok: "sys_ok ths (a, m)" using assms(1) by (rule reachable_ok)
  let ?q = "ch_queue (mc_states m n)"
  let ?st = "if ?q \<noteq> [] \<and> is_terminal (last ?q) then last ?q else Core_Types.Failed worker_stopped"
  have app: "app_ok a" using ok by (simp add: sys_ok_def)
  have *: "\<not> ch_senders (mc_states m n)" "orderly ?q" "wa_busy a"
    using ok rx gone by (auto simp: sys_ok_def states_ok_def app_ok_def)
  have "list_ex is_terminal ?q \<longleftrightarrow> ?q \<noteq> [] \<and> is_terminal (last ?q)"
    using orderly_last(1) [OF *(2)] last_in_set by (cases "?q = []") (auto simp: list_ex_iff)
  then have "drain_states (wa_busy a) (mc_states m n) False (wa_state a) =
      (True, ?st, (mc_states m n)\<lparr>ch_queue := []\<rparr>)"
    using * by (auto simp: drain_states_eq Let_def)
  from drain_ended [OF app *(2) rx this drain] show ?thesis by (auto simp: Let_def)
qed

section \<open>The result shown is the worker's\<close>

text \<open>The worker sends its reports in batches, and a frame drains the channel after each.\<close>

definition send_all :: "nat \<Rightarrow> wake_state list \<Rightarrow> machine \<Rightarrow> machine" where
  "send_all n sts m = fold (\<lambda>st. request_repaint_after 0 \<circ> on_states (\<lambda>c. snd (send st c)) n) sts m"

fun frames_between :: "nat \<Rightarrow> wake_state list list \<Rightarrow> app_sys \<Rightarrow> app_sys" where
  "frames_between n [] s = s"
| "frames_between n (sts # rest) (a, m) = frames_between n rest (drain_state_updates (a, send_all n sts m))"

lemma send_all_eq:
  "mc_states (send_all n sts m) = (mc_states m)(n := (if ch_receiver (mc_states m n)
     then (mc_states m n)\<lparr>ch_queue := ch_queue (mc_states m n) @ sts\<rparr> else mc_states m n))"
  by (induction sts arbitrary: m)
    (auto simp: send_all_def request_repaint_after_def on_states_def send_def)

definition listening :: "nat \<Rightarrow> app_sys \<Rightarrow> bool" where
  "listening n s \<longleftrightarrow> app_ok (fst s) \<and> wa_state_rx (fst s) = Some n \<and> ch_queue (mc_states (snd s) n) = [] \<and>
     ch_receiver (mc_states (snd s) n) \<and> ch_senders (mc_states (snd s) n)"

definition concluded :: "wake_state \<Rightarrow> app_sys \<Rightarrow> bool" where
  "concluded st s \<longleftrightarrow> \<not> wa_busy (fst s) \<and> wa_state_rx (fst s) = None \<and> wa_state (fst s) = st \<and>
     (\<exists>t. wa_last (fst s) = Some \<lparr>as_elapsed = t, as_failure = (case st of Core_Types.Failed f \<Rightarrow> Some f | _ \<Rightarrow> None)\<rparr>)"

lemma frames_concluded: "wa_state_rx (fst s) = None \<Longrightarrow> concat rest = [] \<Longrightarrow> frames_between n rest s = s"
proof (induction rest arbitrary: s)
  case (Cons b rest)
  then show ?case by (cases s) (simp add: send_all_def drain_state_updates_def)
qed simp

lemma orderly_terminal_last: "orderly (b @ rest) \<Longrightarrow> list_ex is_terminal b \<Longrightarrow> rest = []"
  by (cases rest) (auto simp: orderly_def butlast_append list_ex_iff under_way_def)

lemma last_append_ex: "list_ex p ys \<Longrightarrow> last (xs @ ys) = last ys"
  by (cases ys) auto

lemma list_ex_last: "ys \<noteq> [] \<Longrightarrow> p (last ys) \<Longrightarrow> list_ex p ys"
  by (metis last_in_set list_ex_iff)

lemma frames_between_result:
  "listening n s \<Longrightarrow> orderly (concat bs) \<Longrightarrow>
     (if list_ex is_terminal (concat bs) then concluded (last (concat bs)) (frames_between n bs s)
      else listening n (frames_between n bs s))"
proof (induction bs arbitrary: s)
  case (Cons b bs)
  obtain a m where s: "s = (a, m)" by force
  let ?m = "send_all n b m"
  let ?c = "mc_states ?m n"
  have l: "app_ok a" "wa_state_rx a = Some n" "ch_queue ?c = b" "ch_receiver ?c" "ch_senders ?c" "wa_busy a"
    using Cons.prems(1) by (auto simp: listening_def s send_all_eq app_ok_def)
  have ord: "orderly b" "orderly (concat bs)"
    using Cons.prems(2) orderly_prefix [of b "concat bs"] orderly_suffix [of b "concat bs"] by simp_all
  obtain a1 m1 where drain: "drain_state_updates (a, ?m) = (a1, m1)" by force
  show ?case
  proof (cases "list_ex is_terminal b")
    case True
    then have rest: "concat bs = []" using orderly_terminal_last [of b "concat bs"] Cons.prems(2) by simp
    have "b \<noteq> []" using True by auto
    then have "drain_states (wa_busy a) ?c False (wa_state a) = (True, last b, ?c\<lparr>ch_queue := []\<rparr>)"
      using True l by (simp add: drain_states_eq)
    from drain_ended [OF l(1) _ l(2) this drain] ord(1) have "concluded (last b) (a1, m1)"
      by (simp add: concluded_def l(3))
    moreover have "frames_between n bs (a1, m1) = (a1, m1)"
      by (rule frames_concluded) (use calculation rest in \<open>simp_all add: concluded_def\<close>)
    ultimately show ?thesis using True rest by (simp add: s drain)
  next
    case False
    let ?st = "if b = [] then wa_state a else last b"
    have d: "drain_states (wa_busy a) ?c False (wa_state a) = (False, ?st, ?c\<lparr>ch_queue := []\<rparr>)"
      using False l by (simp add: drain_states_eq)
    have "under_way ?st" using l(1,6) orderly_last(2) [OF ord(1) False] by (auto simp: app_ok_def)
    then have "listening n (a1, m1)"
      using l drain d by (auto simp: drain_state_updates_def listening_def app_ok_def on_states_def under_way_def)
    from Cons.IH [OF this ord(2)] show ?thesis
      using False last_append_ex [of is_terminal "concat bs" b] by (auto simp: s drain split: if_splits)
  qed
qed simp

lemma build_job_same:
  assumes "mc_read m' = mc_read m" "mc_home m' = mc_home m"
  shows "build_job C (a\<lparr>wa_terminal_deadline := d, wa_active := x\<rparr>) m' = build_job C a m"
  using assms by (simp add: build_job_def build_fritz_job_def)

text \<open>An attempt that starts listens to the fresh channel of the worker started last.\<close>

lemma begin_wake_started:
  assumes ok: "sys_ok ths (a, m)" and enabled: "wake_enabled a"
    and begins: "begin_wake C (a, m) = (a1, m1)" "wa_busy a1"
  shows "\<exists>job i n. build_job C a m = Ok job \<and> last (mc_workers m1) = WakeWorker job i n \<and> listening n (a1, m1)"
proof -
  have quiet: "\<not> wa_busy a" "wa_state_rx a = None"
    using ok enabled by (auto simp: wake_enabled_def sys_ok_def app_ok_def)
  obtain i m0 t m2 where ask: "attempt_id m = (i, m0)" "now m0 = (t, m2)" by force
  then have "mc_read m2 = mc_read m" "mc_home m2 = mc_home m"
    by (auto simp: attempt_id_def now_def ask_def Let_def split: prod.splits)
  note same = build_job_same [OF this]
  let ?a = "a\<lparr>wa_terminal_deadline := None, wa_active := Some \<lparr>aa_id = i, aa_started = t\<rparr>\<rparr>"
  have begun: "sys_ok ths (a1, m1)" using begin_wake_ok [OF ok enabled, of C] begins(1) by simp
  have not_finished: "\<not> wa_busy b" if "finish_attempt (a', m') = (b, m'')" "\<not> wa_busy a'" for a' m' b m''
    using that by (auto simp: finish_attempt_def Let_def now_def ask_def split: option.splits if_splits)
  obtain job where job: "build_job C a m = Ok job"
    using begins ask same not_finished by (cases "build_job C a m") (auto simp: begin_wake_def)
  let ?n = "mc_fresh m2"
  let ?m = "m2\<lparr>mc_states := (mc_states m2)(?n := new_channel), mc_fresh := Suc ?n\<rparr>"
  let ?w = "WakeWorker job i ?n"
  have "spawn_worker ?w ?m = (Ok (), ?m\<lparr>mc_asked := Suc (mc_asked ?m), mc_workers := mc_workers ?m @ [?w]\<rparr>)"
  proof (rule spawn_worker_cases [of ?w ?m])
    fix e
    assume "spawn_worker ?w ?m = (Err e, hang_up ?w (?m\<lparr>mc_asked := Suc (mc_asked ?m)\<rparr>))"
    then have False
      using begins ask same job quiet not_finished
      by (auto simp: begin_wake_def new_state_channel_def set_state_rx_def Let_def)
    then show ?thesis ..
  qed
  then have b: "a1 = ?a\<lparr>wa_state_rx := Some ?n, wa_state := Connecting, wa_busy := True\<rparr>"
    "m1 = ?m\<lparr>mc_asked := Suc (mc_asked ?m), mc_workers := mc_workers ?m @ [?w]\<rparr>"
    using begins(1) ask same job quiet by (simp_all add: begin_wake_def new_state_channel_def set_state_rx_def)
  then have "listening ?n (a1, m1)"
    using begun by (simp add: listening_def sys_ok_def new_channel_def)
  with job b show ?thesis by simp
qed

lemma attempt_concludes:
  assumes "reachable P (a, m, ths)" "wake_enabled a"
    and begins: "begin_wake (ap_codecs P) (a, m) = (a1, m1)" "wa_busy a1"
    and runs: "start_worker (ap_wide P) (Ok ()) v (last (mc_workers m1)) = Some (WakeThread n (concat batches))"
    and frames: "frames_between n batches (a1, m1) = (a2, m2)"
  shows "\<exists>job r s t. build_job (ap_codecs P) a m = Ok job \<and>
    run_wake (backend_env (ap_wide P)) (wj_target job)
      ((backend_new (fj_profile (wj_fritz job)) (fj_fritz_ip (wj_fritz job)), v), []) = Some (r, s, concat batches) \<and>
    \<not> wa_busy a2 \<and> wa_state a2 = final_state r \<and>
    wa_last a2 = Some \<lparr>as_elapsed = t, as_failure = (case r of Err f \<Rightarrow> Some f | Ok _ \<Rightarrow> None)\<rparr>"
proof -
  obtain job i n' where b: "build_job (ap_codecs P) a m = Ok job" "last (mc_workers m1) = WakeWorker job i n'"
    "listening n' (a1, m1)"
    using begin_wake_started [OF reachable_ok [OF assms(1)] assms(2) begins] by blast
  obtain v' where w: "n' = n" "wake_worker (ap_wide P) (Ok ()) job v = Some (concat batches, v')"
    using runs b(2) by (auto simp: start_worker_def)
  then obtain r s where run: "run_wake (backend_env (ap_wide P)) (wj_target job)
      ((backend_new (fj_profile (wj_fritz job)) (fj_fritz_ip (wj_fritz job)), v), []) = Some (r, s, concat batches)"
    by (auto simp: wake_worker_def Let_def)
  have last: "last (concat batches) = final_state r" using run_collects [OF run] by simp
  have ne: "concat batches \<noteq> []" "is_terminal (last (concat batches))" using wake_worker_orderly(2,3) [OF w(2)] by simp_all
  then have "list_ex is_terminal (concat batches)" by (rule list_ex_last)
  then have "concluded (final_state r) (a2, m2)"
    using frames_between_result [OF b(3) wake_worker_orderly(1) [OF w(2)]] frames w(1) last by simp
  then show ?thesis using b(1) run by (cases r) (auto simp: concluded_def)
qed

text \<open>C4: \<^bold>\<open>the result shown is the worker's\<close>. When a click starts an attempt in any reachable
  state, its worker runs \<open>run_wake\<close> over WireGuard with the settings of that moment; however the frames
  fall between its reports, in the end the application shows \<open>Awake\<close> if that run succeeded and exactly
  its failure if it failed, records the same outcome, and is free again.\<close>

theorem result_shown_is_the_workers:
  assumes "reachable P (a, m, ths)" "wake_enabled a"
    and begins: "begin_wake (ap_codecs P) (a, m) = (a1, m1)" "wa_busy a1"
    and runs: "start_worker (ap_wide P) (Ok ()) v (last (mc_workers m1)) = Some (WakeThread n (concat batches))"
    and frames: "frames_between n batches (a1, m1) = (a2, m2)"
  shows "\<exists>job r s t. build_job (ap_codecs P) a m = Ok job \<and>
    run_wake (backend_env (ap_wide P)) (wj_target job)
      ((backend_new (fj_profile (wj_fritz job)) (fj_fritz_ip (wj_fritz job)), v), []) = Some (r, s, concat batches) \<and>
    \<not> wa_busy a2 \<and> wa_state a2 = final_state r \<and>
    wa_last a2 = Some \<lparr>as_elapsed = t, as_failure = (case r of Err f \<Rightarrow> Some f | Ok _ \<Rightarrow> None)\<rparr>"
  using attempt_concludes [OF assms] .

section \<open>A running example\<close>

definition test_params :: app_params where
  "test_params = \<lparr>ap_codecs = plain_codecs, ap_wide = id, ap_secs1 = (\<lambda>_. ''1.0''), ap_two = (\<lambda>i j. (j, i))\<rparr>"

definition test_env :: "string \<Rightarrow> string option" where
  "test_env v = (if v = ''WAKER_FRITZ_IP'' then Some ''192.168.178.1''
     else if v = ''WAKER_PC_MAC'' then Some '' 01:02:03:04:05:06'' else None)"

definition test_machine :: machine where
  "test_machine = \<lparr>mc_answers = (\<lambda>k. \<lparr>os_now = from_secs k, os_unix_ms = 7, os_spawn = Ok ()\<rparr>), mc_asked = 0,
     mc_last_id = 0, mc_read = (\<lambda>_. Ok (unlines sample_lines)), mc_home = None,
     mc_logs = \<lparr>lf_read_dir = (\<lambda>_. Err ''none''), lf_read = (\<lambda>_. Err ''none'')\<rparr>,
     mc_states = (\<lambda>_. new_channel), mc_checks = (\<lambda>_. new_channel), mc_fresh = 0, mc_workers = [],
     mc_repaints = [], mc_platform = Desktop, mc_commands = []\<rparr>"

definition test_app :: waker_app where
  "test_app = app_new test_env \<lparr>di_log_dir = None, di_warning = None\<rparr> None test_machine"

definition test_job :: wake_job where
  "test_job = \<lparr>wj_fritz = \<lparr>fj_profile = sample_profile, fj_fritz_ip = Ipv4 192 168 178 1, fj_mac = test_mac\<rparr>,
     wj_target = wake_target_new test_mac\<rparr>"

definition untouched :: field_output where
  "untouched = \<lparr>fo_edit = id, fo_focus = False, fo_cursor = None, fo_clicked = False\<rparr>"

definition wake_click :: ui_input where
  "wake_click = \<lparr>in_wake = True, in_status = False, in_ping = False, in_open_log = False, in_copy = False,
     in_settings_open = False, in_diagnostics_open = False, in_config_path = untouched, in_fritz_ip = untouched,
     in_pc_mac = untouched\<rparr>"

lemma test_app_fields:
  "wa_fritz_ip test_app = ''192.168.178.1''" "wa_pc_mac test_app = '' 01:02:03:04:05:06''" "wa_state test_app = Idle"
  "wa_state_rx test_app = None" "\<not> wa_busy test_app" "wa_status_rx test_app = None" "wa_ping_rx test_app = None"
  "wa_terminal_deadline test_app = None" "wa_host_status_deadline test_app = None" "wa_ping_status_deadline test_app = None"
  "\<not> wa_confetti_pending test_app" "wa_confetti test_app = None"
  by (simp_all add: test_app_def app_new_def Let_def test_env_def)

lemma test_reachable: "reachable test_params (test_app, test_machine, [])"
  unfolding test_app_def by (rule reachable.initial) (simp_all add: test_machine_def)

lemma test_build:
  assumes "wa_fritz_ip a = ''192.168.178.1''" "wa_pc_mac a = '' 01:02:03:04:05:06''"
    "mc_read m = mc_read test_machine"
  shows "build_job plain_codecs a m = Ok test_job"
proof -
  have "trim ''192.168.178.1'' = show_ipv4 (Ipv4 192 168 178 1)" "mac_from_str (trim '' 01:02:03:04:05:06'') = Ok test_mac"
    by code_simp+
  then show ?thesis
    using assms by (simp add: build_job_def build_fritz_job_def test_machine_def sample_parses test_job_def parse_show_ipv4
        del: show_ipv4.simps)
qed

lemma test_begin:
  assumes "wa_fritz_ip a = ''192.168.178.1''" "wa_pc_mac a = '' 01:02:03:04:05:06''" "wa_state_rx a = None"
    "mc_read m = mc_read test_machine" "mc_answers m = mc_answers test_machine"
  shows "\<exists>a' m' i. begin_wake plain_codecs (a, m) = (a', m') \<and> wa_busy a' \<and> wa_state_rx a' = Some (mc_fresh m) \<and>
    mc_workers m' = mc_workers m @ [WakeWorker test_job i (mc_fresh m)] \<and> wa_confetti_pending a' = wa_confetti_pending a \<and>
    wa_confetti a' = wa_confetti a"
proof -
  have b: "build_job plain_codecs (a\<lparr>wa_terminal_deadline := None, wa_active := x\<rparr>) (m\<lparr>mc_asked := k, mc_last_id := i\<rparr>) = Ok test_job"
    "build_job plain_codecs (a\<lparr>wa_terminal_deadline := None, wa_active := x\<rparr>) (m\<lparr>mc_last_id := i, mc_asked := k\<rparr>) = Ok test_job"
    for x k i using assms by (simp_all add: test_build)
  have "os_spawn (mc_answers m k) = Ok ()" for k using assms(5) by (simp add: test_machine_def)
  then show ?thesis
    by (simp add: begin_wake_def attempt_id_def now_def ask_def b new_state_channel_def set_state_rx_def spawn_worker_def
        assms(3) case_prod_beta Let_def)
qed

lemma test_updates:
  "mc_platform m = Desktop \<Longrightarrow> frame_updates (test_app, m) = (test_app, m\<lparr>mc_asked := Suc (Suc (mc_asked m))\<rparr>)"
  by (simp add: frame_updates_def drain_state_updates_def drain_host_status_update_def drain_ping_update_def test_app_fields
      now_def ask_def update_terminal_state_timeout_def update_diagnostic_result_timeouts_def deadline_turn_def repaint_in_def
      Let_def)

lemma test_enabled: "wake_enabled test_app" "\<not> checks_blocked test_app"
  by (simp_all add: wake_enabled_def checks_blocked_def test_app_fields)

lemma test_frame:
  "\<exists>a m i. snd (show_ui test_params wake_click (test_app, test_machine)) = (a, m) \<and> wa_busy a \<and>
     wa_state_rx a = Some 0 \<and> mc_workers m = [WakeWorker test_job i 0]"
proof -
  obtain m where u: "frame_updates (test_app, test_machine) = (test_app, m)" and
    m: "mc_read m = mc_read test_machine" "mc_answers m = mc_answers test_machine" "mc_fresh m = 0" "mc_workers m = []"
    by (simp add: test_updates test_machine_def)
  from test_begin [of test_app m] obtain a' m' i where b: "begin_wake plain_codecs (test_app, m) = (a', m')" "wa_busy a'"
    "wa_state_rx a' = Some 0" "mc_workers m' = [WakeWorker test_job i 0]" "\<not> wa_confetti_pending a'" "wa_confetti a' = None"
    using m by (auto simp: test_app_fields)
  show ?thesis
    using b by (simp add: test_enabled show_ui_def u render_wake_button_def wake_click_def test_params_def render_settings_def
        render_diagnostics_def paint_confetti_def Let_def)
qed

theorem one_thing_at_a_time_witness:
  "\<exists>a m. reachable test_params (a, m, []) \<and> wa_busy a \<and> wa_active a \<noteq> None \<and> under_way (wa_state a)"
proof -
  obtain a m i where f: "snd (show_ui test_params wake_click (test_app, test_machine)) = (a, m)" "wa_busy a"
    using test_frame by blast
  from reachable.further [OF test_reachable app_step.frame [OF f(1)]]
  have "reachable test_params (a, m, [])" .
  with one_thing_at_a_time [OF this] f(2) show ?thesis by metis
qed

theorem no_attempt_hangs_witness:
  "\<exists>a m. reachable test_params (a, m, []) \<and> wa_busy a \<and>
     wa_state (fst (drain_state_updates (a, m))) = Core_Types.Failed worker_stopped"
proof -
  obtain a m i where f: "snd (show_ui test_params wake_click (test_app, test_machine)) = (a, m)" "wa_busy a"
    "wa_state_rx a = Some 0" "mc_workers m = [WakeWorker test_job i 0]"
    using test_frame by blast
  have 1: "reachable test_params (a, m, [])" using reachable.further [OF test_reachable app_step.frame [OF f(1)]] .
  let ?m = "m\<lparr>mc_workers := [] @ []\<rparr>"
  let ?th = "WakeThread 0 [Core_Types.Failed (wake_failure_new Runtime (no_runtime ''x''))]"
  have "start_worker (ap_wide test_params) (Err ''x'') (playing []) (WakeWorker test_job i 0) = Some ?th"
    by (simp add: start_worker_def wake_worker_def)
  then have "app_step test_params (a, m, []) (a, ?m, [] @ [?th])"
    by (rule app_step.starts [rotated]) (simp add: f(4))
  from reachable.further [OF 1 this] have 2: "reachable test_params (a, ?m, [] @ ?th # [])" by simp
  from reachable.further [OF this app_step.stops] have 3: "reachable test_params (a, thread_end ?th ?m, [])" by simp
  have "ch_queue (mc_states m 0) = []"
    using reachable_ok [OF 1] f(4) by (simp add: sys_ok_def states_ok_def)
  then have "ch_queue (mc_states (thread_end ?th ?m) 0) = []" by (simp add: on_states_def drop_senders_def)
  moreover obtain a' m' where d: "drain_state_updates (a, thread_end ?th ?m) = (a', m')" by force
  moreover have "0 \<notin> set (wake_workers (mc_workers (thread_end ?th ?m)) @ wake_threads [])" by (simp add: on_states_def)
  ultimately have "wa_state a' = Core_Types.Failed worker_stopped"
    using no_attempt_hangs [OF 3 f(3) _ d] by (simp del: thread_end.simps)
  with 3 f(2) d show ?thesis by (metis fst_conv)
qed

theorem result_shown_is_the_workers_witness:
  "\<exists>a1 m1 n sts a2 m2 r. begin_wake plain_codecs (test_app, test_machine) = (a1, m1) \<and>
     frames_between n [sts] (a1, m1) = (a2, m2) \<and> wa_state a2 = final_state r \<and> \<not> wa_busy a2"
proof -
  obtain a1 m1 i where b: "begin_wake plain_codecs (test_app, test_machine) = (a1, m1)" "wa_busy a1"
    "mc_workers m1 = mc_workers test_machine @ [WakeWorker test_job i (mc_fresh test_machine)]"
    using test_begin [of test_app test_machine] by (auto simp: test_app_fields)
  have target: "wj_target test_job = wake_target_new test_mac" by (simp add: test_job_def)
  obtain sts v' where w: "wake_worker id (Ok ()) test_job (playing []) = Some (sts, v')"
    by (rule wake_worker_returns [OF target])
  have runs: "start_worker (ap_wide test_params) (Ok ()) (playing []) (last (mc_workers m1)) =
      Some (WakeThread (mc_fresh test_machine) (concat [sts]))"
    using w by (simp add: b(3) start_worker_def test_params_def)
  obtain a2 m2 where fr: "frames_between (mc_fresh test_machine) [sts] (a1, m1) = (a2, m2)" by (metis prod.collapse)
  have codecs: "ap_codecs test_params = plain_codecs" by (simp add: test_params_def)
  from result_shown_is_the_workers [OF test_reachable test_enabled(1) _ b(2) runs fr] b(1) codecs
  show ?thesis using fr by metis
qed

section \<open>Terminal states and checks\<close>

text \<open>C37: \<^bold>\<open>a result is shown for its time\<close>. In every reachable state that shows a result there
  is a deadline: before it the result stays and a repaint is asked for at just the deadline; from then on
  the next frame shows the idle state, in which the button is offered again unless a check runs.\<close>

theorem result_expires:
  assumes "reachable P (a, m, ths)" "is_terminal (wa_state a)"
  shows "\<exists>d. wa_terminal_deadline a = Some d \<and>
    (\<forall>t < d. update_terminal_state_timeout t a = (Some (d - t), a)) \<and>
    (\<forall>t \<ge> d. \<exists>a'. update_terminal_state_timeout t a = (None, a') \<and> wa_state a' = Idle \<and>
       wake_button_label a' = ''Wake'' \<and> (wake_enabled a' \<longleftrightarrow> diagnostic_action_enabled a))"
proof -
  have ok: "app_ok a" using reachable_ok [OF assms(1)] by (simp add: sys_ok_def)
  then obtain d where d: "wa_terminal_deadline a = Some d" using assms(2) by (auto simp: app_ok_def)
  have "\<not> wa_busy a" using ok assms(2) by (auto simp: app_ok_def under_way_def)
  then show ?thesis
    using d assms(2) by (auto simp: update_terminal_state_timeout_def wake_button_label_def wake_enabled_def diagnostic_action_enabled_def)
qed

theorem result_expires_witness:
  "\<exists>a m d a'. reachable test_params (a, m, []) \<and> is_terminal (wa_state a) \<and> wa_terminal_deadline a = Some d \<and>
     update_terminal_state_timeout d a = (None, a') \<and> wa_state a' = Idle"
proof -
  define m0 where "m0 = test_machine\<lparr>mc_read := \<lambda>_. Err ''gone'', mc_home := None, mc_logs := mc_logs test_machine\<rparr>"
  have 1: "reachable test_params (test_app, m0, [])"
    unfolding m0_def by (rule reachable.further [OF test_reachable app_step.world])
  have "mc_platform m0 = Desktop" "mc_read m0 = (\<lambda>_. Err ''gone'')" by (simp_all add: m0_def test_machine_def)
  note u = test_updates [OF this(1)] and this(2)
  have err: "build_job C b n = Err (''could not read WireGuard profile '' @ from_utf8_lossy (expand_home (mc_home n) (wa_config_path b)) @ '': gone'')"
    if "mc_read n = (\<lambda>_. Err ''gone'')" for C b n
    using that by (simp add: build_job_def build_fritz_job_def)
  let ?s = "begin_wake plain_codecs (test_app, m0\<lparr>mc_asked := Suc (Suc (mc_asked m0))\<rparr>)"
  have s: "is_terminal (wa_state (fst ?s))" "\<not> wa_confetti_pending (fst ?s)" "wa_confetti (fst ?s) = None"
    by (simp_all add: begin_wake_def attempt_id_def now_def ask_def err \<open>mc_read m0 = (\<lambda>_. Err ''gone'')\<close> finish_attempt_def
        test_app_fields case_prod_beta Let_def)
  have "snd (show_ui test_params wake_click (test_app, m0)) = ?s"
    using s(2,3) by (simp add: show_ui_def u render_wake_button_def wake_click_def test_params_def test_enabled render_settings_def
        render_diagnostics_def paint_confetti_def case_prod_beta Let_def)
  then obtain a m where f: "snd (show_ui test_params wake_click (test_app, m0)) = (a, m)" "is_terminal (wa_state a)"
    using s(1) by (metis prod.collapse fst_conv)
  have r: "reachable test_params (a, m, [])" by (rule reachable.further [OF 1 app_step.frame [OF f(1)]])
  from result_expires [OF r f(2)] obtain d where "wa_terminal_deadline a = Some d"
    "\<exists>a'. update_terminal_state_timeout d a = (None, a') \<and> wa_state a' = Idle" by blast
  with r f(2) show ?thesis by blast
qed

text \<open>C36: \<^bold>\<open>a check shows its answer, for its time\<close>. When a status check is begun and gets a worker, the old
  result is gone and the button says that the check runs. Whatever a thread listened to answers is what the next
  drain stores, with a deadline just the display time of five seconds later, and the receiver is gone, so that the
  next check may begin. In every reachable state with such a deadline the diagnostics show that answer, on the
  button or as an error: before the deadline a pass over the deadlines keeps it on show and asks for a repaint no
  later than the deadline; from the deadline on it takes it off, and the button is back. All the same for a ping.\<close>

theorem check_shows_its_answer:
  assumes "reachable P (a, m, ths)"
  shows "(\<forall>C a1 m1 n. \<not> checks_blocked a \<and> begin_host_status_check C (a, m) = (a1, m1) \<and> wa_status_rx a1 = Some n \<longrightarrow>
        wa_host_status a1 = None \<and> status_view P i (a1, m1) = ([''Checking FRITZ!Box'' @ ellipsis], []))
    \<and> (\<forall>n r rs th m1 a2 m2. wa_status_rx a = Some n \<and> CheckThread n (r # rs) \<in> set ths \<and>
          thread_send (CheckThread n (r # rs)) m = Some (th, m1) \<and> drain_host_status_update (a, m1) = (a2, m2) \<longrightarrow>
        wa_status_rx a2 = None \<and> wa_host_status a2 = Some r \<and>
        wa_host_status_deadline a2 = Some (os_now (mc_answers m (mc_asked m)) + from_secs 5))
    \<and> (\<forall>d. wa_host_status_deadline a = Some d \<longrightarrow> (\<exists>r. wa_host_status a = Some r \<and>
        status_view P i (a, m) = status_answer r \<and>
        (\<forall>t due b k. update_diagnostic_result_timeouts t a = (due, b) \<longrightarrow>
           (if t < d then wa_host_status_deadline b = Some d \<and> status_view P i (b, k) = status_answer r \<and>
              (\<exists>x. due = Some x \<and> x \<le> d - t)
            else wa_host_status_deadline b = None \<and> status_view P i (b, k) = ([''Check PC via FRITZ!Box API''], [])))))
    \<and> (\<forall>C a1 m1 n. \<not> checks_blocked a \<and> begin_ping_check C (a, m) = (a1, m1) \<and> wa_ping_rx a1 = Some n \<longrightarrow>
        wa_ping_status a1 = None \<and> ping_view P i (a1, m1) = ([''Pinging PC'' @ ellipsis], []))
    \<and> (\<forall>n r rs th m1 a2 m2. wa_ping_rx a = Some n \<and> CheckThread n (r # rs) \<in> set ths \<and>
          thread_send (CheckThread n (r # rs)) m = Some (th, m1) \<and> drain_ping_update (a, m1) = (a2, m2) \<longrightarrow>
        wa_ping_rx a2 = None \<and> wa_ping_status a2 = Some r \<and>
        wa_ping_status_deadline a2 = Some (os_now (mc_answers m (mc_asked m)) + from_secs 5))
    \<and> (\<forall>d. wa_ping_status_deadline a = Some d \<longrightarrow> (\<exists>r. wa_ping_status a = Some r \<and>
        ping_view P i (a, m) = ping_answer r \<and>
        (\<forall>t due b k. update_diagnostic_result_timeouts t a = (due, b) \<longrightarrow>
           (if t < d then wa_ping_status_deadline b = Some d \<and> ping_view P i (b, k) = ping_answer r \<and>
              (\<exists>x. due = Some x \<and> x \<le> d - t)
            else wa_ping_status_deadline b = None \<and> ping_view P i (b, k) = ([''Ping PC through tunnel''], [])))))"
proof -
  have all: "all_ok ths (a, m)" using assms by (rule reachable_jobs)
  then have res: "results_ok a" by (simp add: all_ok_def jobs_ok_def)
  have 1: "wa_host_status a1 = None \<and> status_view P i (a1, m1) = ([''Checking FRITZ!Box'' @ ellipsis], [])"
    if "\<not> checks_blocked a" "begin_host_status_check C (a, m) = (a1, m1)" "wa_status_rx a1 = Some n" for C a1 m1 n
  proof -
    have "wa_host_status a1 = None" "wa_host_status_deadline a1 = None" using status.begun [OF that(1,2)] that(3) by auto
    then show ?thesis using status_view_eq(1) [OF that(3)] by simp
  qed
  have 2: "wa_status_rx a2 = None \<and> wa_host_status a2 = Some r \<and>
      wa_host_status_deadline a2 = Some (os_now (mc_answers m (mc_asked m)) + from_secs 5)"
    if "wa_status_rx a = Some n" "CheckThread n (r # rs) \<in> set ths" "thread_send (CheckThread n (r # rs)) m = Some (th, m1)"
      "drain_host_status_update (a, m1) = (a2, m2)" for n r rs th m1 a2 m2
    using status.drain_some [OF that(1) _ _ that(4)] answer_arrives [OF all that(2) _ that(3)] that(1)
    by (auto simp: terminal_state_display_duration_def)
  have 3: "\<exists>r. wa_host_status a = Some r \<and> status_view P i (a, m) = status_answer r \<and>
      (\<forall>t due b k. update_diagnostic_result_timeouts t a = (due, b) \<longrightarrow>
         (if t < d then wa_host_status_deadline b = Some d \<and> status_view P i (b, k) = status_answer r \<and>
            (\<exists>x. due = Some x \<and> x \<le> d - t)
          else wa_host_status_deadline b = None \<and> status_view P i (b, k) = ([''Check PC via FRITZ!Box API''], [])))"
    if d: "wa_host_status_deadline a = Some d" for d
  proof -
    obtain r where r: "wa_host_status a = Some r" "wa_status_rx a = None" using res d by (auto simp: results_ok_def)
    have "if t < d then wa_host_status_deadline b = Some d \<and> status_view P i (b, k) = status_answer r \<and> (\<exists>x. due = Some x \<and> x \<le> d - t)
        else wa_host_status_deadline b = None \<and> status_view P i (b, k) = ([''Check PC via FRITZ!Box API''], [])"
      if up: "update_diagnostic_result_timeouts t a = (due, b)" for t due b k
    proof (cases "t < d")
      case True
      with results_timeout(1) [OF up d True] results_timeout(5,6) [OF up] r status_view_eq(2) [of b d r P i k] show ?thesis by simp
    next
      case False
      with results_timeout(3) [OF up d] results_timeout(5,6) [OF up] r status_view_eq(3) [of b P i k] show ?thesis by simp
    qed
    with status_view_eq(2) [OF r(2) d r(1)] r(1) show ?thesis by blast
  qed
  have 4: "wa_ping_status a1 = None \<and> ping_view P i (a1, m1) = ([''Pinging PC'' @ ellipsis], [])"
    if "\<not> checks_blocked a" "begin_ping_check C (a, m) = (a1, m1)" "wa_ping_rx a1 = Some n" for C a1 m1 n
  proof -
    have "wa_ping_status a1 = None" "wa_ping_status_deadline a1 = None" using pinging.begun [OF that(1,2)] that(3) by auto
    then show ?thesis using ping_view_eq(1) [OF that(3)] by simp
  qed
  have 5: "wa_ping_rx a2 = None \<and> wa_ping_status a2 = Some r \<and>
      wa_ping_status_deadline a2 = Some (os_now (mc_answers m (mc_asked m)) + from_secs 5)"
    if "wa_ping_rx a = Some n" "CheckThread n (r # rs) \<in> set ths" "thread_send (CheckThread n (r # rs)) m = Some (th, m1)"
      "drain_ping_update (a, m1) = (a2, m2)" for n r rs th m1 a2 m2
    using pinging.drain_some [OF that(1) _ _ that(4)] answer_arrives [OF all that(2) _ that(3)] that(1)
    by (auto simp: terminal_state_display_duration_def)
  have 6: "\<exists>r. wa_ping_status a = Some r \<and> ping_view P i (a, m) = ping_answer r \<and>
      (\<forall>t due b k. update_diagnostic_result_timeouts t a = (due, b) \<longrightarrow>
         (if t < d then wa_ping_status_deadline b = Some d \<and> ping_view P i (b, k) = ping_answer r \<and>
            (\<exists>x. due = Some x \<and> x \<le> d - t)
          else wa_ping_status_deadline b = None \<and> ping_view P i (b, k) = ([''Ping PC through tunnel''], [])))"
    if d: "wa_ping_status_deadline a = Some d" for d
  proof -
    obtain r where r: "wa_ping_status a = Some r" "wa_ping_rx a = None" using res d by (auto simp: results_ok_def)
    have "if t < d then wa_ping_status_deadline b = Some d \<and> ping_view P i (b, k) = ping_answer r \<and> (\<exists>x. due = Some x \<and> x \<le> d - t)
        else wa_ping_status_deadline b = None \<and> ping_view P i (b, k) = ([''Ping PC through tunnel''], [])"
      if up: "update_diagnostic_result_timeouts t a = (due, b)" for t due b k
    proof (cases "t < d")
      case True
      with results_timeout(2) [OF up d True] results_timeout(7,8) [OF up] r ping_view_eq(2) [of b d r P i k] show ?thesis by simp
    next
      case False
      with results_timeout(4) [OF up d] results_timeout(7,8) [OF up] r ping_view_eq(3) [of b P i k] show ?thesis by simp
    qed
    with ping_view_eq(2) [OF r(2) d r(1)] r(1) show ?thesis by blast
  qed
  show ?thesis
    by (rule conjI, use 1 in blast, rule conjI, use 2 in blast, rule conjI, use 3 in blast, rule conjI, use 4 in blast,
        rule conjI, use 5 in blast, use 6 in blast)
qed

definition status_click :: ui_input where
  "status_click = wake_click\<lparr>in_wake := False, in_status := True, in_diagnostics_open := True\<rparr>"

lemma test_status_begin:
  assumes "mc_read m = mc_read test_machine" "mc_answers m = mc_answers test_machine"
  shows "\<exists>a1 m1 job. begin_host_status_check plain_codecs (test_app, m) = (a1, m1) \<and> wa_status_rx a1 = Some (mc_fresh m) \<and>
    mc_workers m1 = mc_workers m @ [StatusWorker job (mc_fresh m)] \<and> mc_answers m1 = mc_answers m \<and> wa_confetti a1 = None"
proof -
  have "build_job plain_codecs (test_app\<lparr>wa_host_status_deadline := None\<rparr>) m = Ok test_job"
    by (rule test_build) (simp_all add: test_app_fields assms)
  then have job: "build_fritz_job plain_codecs (test_app\<lparr>wa_host_status_deadline := None\<rparr>) m = Ok (wj_fritz test_job)"
    by (auto simp: build_job_def result_simps test_job_def)
  have "os_spawn (mc_answers m k) = Ok ()" for k using assms(2) by (simp add: test_machine_def)
  then show ?thesis
    using job test_enabled(2) by (simp add: begin_host_status_check_def new_check_channel_def set_status_rx_def spawn_worker_def
        ask_def test_app_fields Let_def)
qed

lemma test_status_frame:
  "\<exists>a m job. snd (show_ui test_params status_click (test_app, test_machine)) = (a, m) \<and> wa_status_rx a = Some 0 \<and>
     mc_workers m = [StatusWorker job 0]"
proof -
  obtain m where u: "frame_updates (test_app, test_machine) = (test_app, m)" and
    m: "mc_read m = mc_read test_machine" "mc_answers m = mc_answers test_machine" "mc_fresh m = 0" "mc_workers m = []"
    by (simp add: test_updates test_machine_def)
  obtain a1 m1 job where b: "begin_host_status_check plain_codecs (test_app, m) = (a1, m1)" "wa_status_rx a1 = Some 0"
    "mc_workers m1 = [StatusWorker job 0]" "wa_confetti a1 = None"
    using test_status_begin [OF m(1,2)] m(3,4) by auto
  have e: "diagnostic_action_enabled test_app" by (simp add: diagnostic_action_enabled_def test_app_fields)
  show ?thesis
    using b by (simp add: e show_ui_def u render_wake_button_def status_click_def wake_click_def test_params_def test_app_fields
        render_settings_def render_diagnostics_def render_fritz_status_diagnostic_def render_ping_diagnostic_def
        paint_confetti_def case_prod_beta Let_def)
qed

theorem check_shows_its_answer_witness:
  "\<exists>a m n r th m1 a2 m2. reachable test_params (a, m, [CheckThread n [r]]) \<and>
     thread_send (CheckThread n [r]) m = Some (th, m1) \<and> drain_host_status_update (a, m1) = (a2, m2) \<and>
     wa_host_status a2 = Some r \<and> wa_host_status_deadline a2 \<noteq> None"
proof -
  obtain a m job where f: "snd (show_ui test_params status_click (test_app, test_machine)) = (a, m)" "wa_status_rx a = Some 0"
    "mc_workers m = [StatusWorker job 0]"
    using test_status_frame by blast
  have 1: "reachable test_params (a, m, [])" using reachable.further [OF test_reachable app_step.frame [OF f(1)]] .
  let ?r = "Err (no_runtime ''x'') :: check_result"
  let ?th = "CheckThread 0 [?r]" and ?m = "m\<lparr>mc_workers := [] @ []\<rparr>"
  have "start_worker (ap_wide test_params) (Err ''x'') (playing []) (StatusWorker job 0) = Some ?th"
    by (simp add: start_worker_def status_worker_def check_worker_def)
  then have "app_step test_params (a, m, []) (a, ?m, [] @ [?th])"
    by (rule app_step.starts [rotated]) (simp add: f(3))
  from reachable.further [OF 1 this] have 2: "reachable test_params (a, ?m, [?th])" by simp
  obtain th m1 where s: "thread_send ?th ?m = Some (th, m1)" by simp
  obtain a2 m2 where d: "drain_host_status_update (a, m1) = (a2, m2)" by force
  have "?th \<in> set [?th]" by simp
  with check_shows_its_answer [OF 2, THEN conjunct2, THEN conjunct1] f(2) s d
  have "wa_host_status a2 = Some ?r \<and> wa_host_status_deadline a2 \<noteq> None" by blast
  with 2 s d show ?thesis by blast
qed

section \<open>What leaves the application\<close>

fun command_text :: "ui_command \<Rightarrow> string" where
  "command_text (OpenUrl u) = uri_decode (drop (length uri_prefix) u)"
| "command_text (CopyText t) = t"
| "command_text (AndroidOpenLog t) = t"
| "command_text (AndroidCopyText t) = t"

definition redacted_text :: "string \<Rightarrow> bool" where
  "redacted_text t \<longleftrightarrow> list_all (\<lambda>l. \<not> credential_line l) (lines t)"

definition clean :: "app_sys \<Rightarrow> bool" where
  "clean s \<longleftrightarrow> (\<forall>c \<in> set (mc_commands (snd s)). redacted_text (command_text c))"

lemma redacted_logs: "redacted_text (current_log_text s)" "redacted_text (diagnostics_bundle secs1 a t)"
  by (simp_all add: redacted_text_def current_log_text_def diagnostics_bundle_def Let_def sanitized_lines)

lemma logs_clean: "clean s \<Longrightarrow> clean (open_log s)" "clean s \<Longrightarrow> clean (copy_diagnostics_to_clipboard secs1 s)"
  by (cases s; simp add: clean_def open_log_def copy_diagnostics_to_clipboard_def issue_def Let_def redacted_logs uri_holds_text
      split: platform.splits option.splits prod.splits)+

lemma simple_commands [simp]:
  "mc_commands (on_states f n m) = mc_commands m" "mc_commands (on_checks g n m) = mc_commands m"
  "mc_commands (hang_up w m) = mc_commands m" "mc_commands (snd (now m)) = mc_commands m"
  "mc_commands (request_repaint_after d m) = mc_commands m" "mc_commands (repaint_in r m) = mc_commands m"
  "mc_commands (snd (attempt_id m)) = mc_commands m" "mc_commands (snd (spawn_worker w m)) = mc_commands m"
  "mc_commands (snd (new_state_channel m)) = mc_commands m" "mc_commands (snd (new_check_channel m)) = mc_commands m"
  "mc_commands (snd (set_state_rx rx s)) = mc_commands (snd s)" "mc_commands (snd (set_status_rx rx s)) = mc_commands (snd s)"
  "mc_commands (snd (set_ping_rx rx s)) = mc_commands (snd s)"
  by (cases w; cases s; simp add: on_states_def on_checks_def hang_up_def now_def ask_def request_repaint_after_def repaint_in_def
      attempt_id_def spawn_worker_def new_state_channel_def new_check_channel_def set_state_rx_def set_status_rx_def
      set_ping_rx_def Let_def case_prod_beta split: option.splits sum.splits worker.splits)+

lemma finish_commands [simp]: "mc_commands (snd (finish_attempt s)) = mc_commands (snd s)"
  by (cases s) (simp add: finish_attempt_def now_def ask_def Let_def split: option.splits)

lemma show_commands [simp]:
  "mc_commands (snd (show_host_status r s)) = mc_commands (snd s)" "mc_commands (snd (show_ping_status r s)) = mc_commands (snd s)"
  "mc_commands (snd (repaint_at_deadline s)) = mc_commands (snd s)" "mc_commands (snd (start_confetti s)) = mc_commands (snd s)"
  "mc_commands (snd (paint_confetti s)) = mc_commands (snd s)"
  by (cases s; simp add: show_host_status_def show_ping_status_def repaint_at_deadline_def start_confetti_def paint_confetti_def
      now_def ask_def Let_def split: option.splits)+

lemma begin_commands [simp]:
  "mc_commands (snd (begin_wake C s)) = mc_commands (snd s)"
  "mc_commands (snd (begin_host_status_check C s)) = mc_commands (snd s)"
  "mc_commands (snd (begin_ping_check C s)) = mc_commands (snd s)"
  by (cases s; simp add: begin_wake_def begin_host_status_check_def begin_ping_check_def case_prod_beta Let_def split: sum.split)+

lemma drain_commands [simp]:
  "mc_commands (snd (drain_state_updates s)) = mc_commands (snd s)"
  "mc_commands (snd (drain_host_status_update s)) = mc_commands (snd s)"
  "mc_commands (snd (drain_ping_update s)) = mc_commands (snd s)"
  by (cases s; simp add: drain_state_updates_def drain_host_status_update_def drain_ping_update_def case_prod_beta Let_def
      split: option.split received.split)+


lemma frame_commands [simp]:
  "mc_commands (snd (frame_updates s)) = mc_commands (snd s)"
  "mc_commands (snd (snd (render_wake_button P i s))) = mc_commands (snd s)"
  "mc_commands (snd (snd (edit_field P f out s))) = mc_commands (snd s)"
  "mc_commands (snd (snd (render_fritz_status_diagnostic P i s))) = mc_commands (snd s)"
  "mc_commands (snd (snd (render_ping_diagnostic P i s))) = mc_commands (snd s)"
  by (simp_all add: frame_updates_def render_wake_button_def edit_field_def render_fritz_status_diagnostic_def
      render_ping_diagnostic_def case_prod_beta Let_def)

lemma render_settings_commands [simp]: "mc_commands (snd (snd (render_settings P i s))) = mc_commands (snd s)"
  by (simp add: render_settings_def case_prod_beta Let_def)

lemma render_diagnostics_clean: "clean s \<Longrightarrow> clean (snd (render_diagnostics P i s))"
proof -
  assume c: "clean s"
  then have "clean (snd (render_ping_diagnostic P i (snd (render_fritz_status_diagnostic P i s))))"
    by (simp add: clean_def)
  then show ?thesis using c by (auto simp: render_diagnostics_def case_prod_beta Let_def intro: logs_clean)
qed

lemma step_clean:
  assumes "app_step P (a, m, ths) (a', m', ths')" "clean (a, m)"
  shows "clean (a', m')"
  using assms(1)
proof (cases rule: app_stepE [consumes 1, case_names frame starts sends stops world typed])
  case (frame i)
  have "clean (snd (render_settings P i (snd (render_wake_button P i (frame_updates (a, m))))))"
    using assms(2) by (simp add: clean_def)
  from render_diagnostics_clean [OF this, of P i]
  have "clean (paint_confetti (snd (render_diagnostics P i (snd (render_settings P i
      (snd (render_wake_button P i (frame_updates (a, m)))))))))"
    by (simp add: clean_def)
  then show ?thesis using frame by (simp add: show_ui_def case_prod_beta Let_def)
next
  case (sends th th' xs ys)
  then show ?thesis using assms(2) by (cases "(th, m)" rule: thread_send.cases) (auto simp: clean_def)
next
  case (stops xs th ys)
  then show ?thesis using assms(2) by (cases th) (auto simp: clean_def)
qed (use assms(2) in \<open>simp_all add: clean_def\<close>)

lemma reachable_clean: "reachable P (a, m, ths) \<Longrightarrow> clean (a, m)"
proof (induction "(a, m, ths)" arbitrary: a m ths rule: reachable.induct)
  case (initial m env info path)
  then show ?case by (simp add: clean_def)
next
  case (further s)
  then show ?case by (metis prod.collapse step_clean)
qed

text \<open>C12: \<^bold>\<open>nothing secret leaves\<close>. In every reachable state, each text the application has ever
  handed out, to the browser, to the log viewer or to the clipboard, is redacted: none of its lines is a
  credential line.\<close>

theorem nothing_secret_leaves:
  assumes "reachable P (a, m, ths)" "c \<in> set (mc_commands m)"
  shows "list_all (\<lambda>l. \<not> credential_line l) (lines (command_text c))"
  using reachable_clean [OF assms(1)] assms(2) by (simp add: clean_def redacted_text_def)

definition log_click :: ui_input where
  "log_click = wake_click\<lparr>in_wake := False, in_open_log := True, in_diagnostics_open := True\<rparr>"

theorem nothing_secret_leaves_witness:
  "\<exists>a m u. reachable test_params (a, m, []) \<and> mc_commands m = [OpenUrl u] \<and>
     list_all (\<lambda>l. \<not> credential_line l) (lines (command_text (OpenUrl u)))"
proof -
  have d: "mc_platform test_machine = Desktop" "mc_commands test_machine = []" by (simp_all add: test_machine_def)
  let ?s = "(test_app, test_machine\<lparr>mc_asked := Suc (Suc (mc_asked test_machine))\<rparr>)"
  let ?u = "text_data_uri (current_log_text (test_app\<lparr>wa_clipboard_status := None\<rparr>, snd ?s))"
  have c: "wa_confetti (fst (open_log ?s)) = None" by (simp add: open_log_def d test_app_fields Let_def)
  have "snd (show_ui test_params log_click (test_app, test_machine)) = open_log ?s"
    using c by (simp add: show_ui_def test_updates [OF d(1)] render_wake_button_def log_click_def wake_click_def test_app_fields
        render_settings_def render_diagnostics_def render_fritz_status_diagnostic_def render_ping_diagnostic_def
        paint_confetti_def case_prod_beta Let_def)
  moreover have "mc_commands (snd (open_log ?s)) = [OpenUrl ?u]" by (simp add: open_log_def d issue_def Let_def)
  ultimately obtain a m where f: "snd (show_ui test_params log_click (test_app, test_machine)) = (a, m)" "mc_commands m = [OpenUrl ?u]"
    by (metis prod.collapse)
  have r: "reachable test_params (a, m, [])" by (rule reachable.further [OF test_reachable app_step.frame [OF f(1)]])
  from nothing_secret_leaves [OF r, of "OpenUrl ?u"] f(2) r show ?thesis by auto
qed

end
