(* ===== verification/Lab_App.thy ===== *)
theory Lab_App
  imports App_Progress Lab_Wake
begin

text \<open>
  The whole program against the lab: from the click on the button, over the worker, the backend, the lab's
  FRITZ!Box and the PC, back to what the window shows.
\<close>

text \<open>The network of a job: the lab as the router of the settings, and a PC that misses \<open>k\<close> pings.\<close>

definition job_network :: "wake_job \<Rightarrow> ipv4 \<Rightarrow> nat \<Rightarrow> outside" where
  "job_network job pc k = lab_network (fj_fritz_ip (wj_fritz job)) (fj_mac (wj_fritz job)) pc k"

lemma job_runs:
  assumes "build_job C a m = Ok job" "parse_socket_addr (wg_endpoint (fj_profile (wj_fritz job))) = Some endpoint"
  shows "\<exists>v'. wake_worker wide (Ok ()) job (job_network job pc k) =
    Some ([Connecting, ResolvingPc, Waking] @ rounds 0 (min k 60) @ [final_state (lab_result (wj_target job) k)], v')"
proof -
  have target: "wj_target job = wake_target_new (fj_mac (wj_fritz job))"
    using assms(1) by (auto simp: build_job_def result_simps)
  then have mac: "target_mac (wj_target job) = fj_mac (wj_fritz job)" by (simp add: wake_target_new_def)
  have n: "patience (wj_target job) = 60" by (simp add: target default_patience)
  from lab_wake_runs [OF assms(2), of wide "wj_target job" "fj_fritz_ip (wj_fritz job)" pc k] obtain s where
    "run_wake (backend_env wide) (wj_target job)
      ((backend_new (fj_profile (wj_fritz job)) (fj_fritz_ip (wj_fritz job)), job_network job pc k), []) =
     Some (lab_result (wj_target job) k, s, [Connecting, ResolvingPc, Waking] @ rounds 0 (min k 60) @
       [final_state (lab_result (wj_target job) k)])"
    unfolding mac n job_network_def by blast
  then show ?thesis by (cases s) (simp add: wake_worker_def Let_def)
qed

text \<open>C6: \<^bold>\<open>a click wakes the PC\<close>. In any reachable state, a click that starts an attempt for a profile with a
  literal endpoint, on the lab's network with a PC that misses \<open>k\<close> pings while it starts: the worker starts
  and reports its steps and at most 61 rounds; however the frames fall between the reports, in the end the
  window shows \<open>Awake\<close> if the PC missed at most sixty pings and the timeout otherwise, and it is free again.\<close>

theorem click_wakes_pc:
  assumes "reachable P (a, m, ths)" "wake_enabled a"
    and "begin_wake (ap_codecs P) (a, m) = (a1, m1)" "wa_busy a1"
    and "build_job (ap_codecs P) a m = Ok job"
    and "parse_socket_addr (wg_endpoint (fj_profile (wj_fritz job))) = Some endpoint"
  shows "\<exists>n reports. start_worker (ap_wide P) (Ok ()) (job_network job pc k) (last (mc_workers m1)) = Some (WakeThread n reports) \<and>
    length reports = min k 60 + 5 \<and>
    (\<forall>batches. concat batches = reports \<longrightarrow>
       (let (a2, m2) = frames_between n batches (a1, m1)
        in \<not> wa_busy a2 \<and>
           wa_state a2 = (if k \<le> 60 then Awake else Core_Types.Failed (timeout_failure (wj_target job)))))"
proof -
  have n: "patience (wj_target job) = 60"
    using assms(5) by (auto simp: build_job_def result_simps default_patience)
  obtain i n' where w: "last (mc_workers m1) = WakeWorker job i n'"
    using begin_wake_started [OF reachable_ok [OF assms(1)] assms(2-4)] assms(5) by auto
  let ?reports = "[Connecting, ResolvingPc, Waking] @ rounds 0 (min k 60) @ [final_state (lab_result (wj_target job) k)]"
  obtain v' where v': "wake_worker (ap_wide P) (Ok ()) job (job_network job pc k) = Some (?reports, v')"
    using job_runs [OF assms(5,6)] by blast
  then have starts: "start_worker (ap_wide P) (Ok ()) (job_network job pc k) (last (mc_workers m1)) = Some (WakeThread n' ?reports)"
    by (simp add: start_worker_def w)
  have "\<not> wa_busy a2 \<and> wa_state a2 = (if k \<le> 60 then Awake else Core_Types.Failed (timeout_failure (wj_target job)))"
    if b: "concat batches = ?reports" and f: "frames_between n' batches (a1, m1) = (a2, m2)" for batches a2 m2
  proof -
    obtain r s t where r: "run_wake (backend_env (ap_wide P)) (wj_target job)
        ((backend_new (fj_profile (wj_fritz job)) (fj_fritz_ip (wj_fritz job)), job_network job pc k), []) = Some (r, s, concat batches)"
      "\<not> wa_busy a2" "wa_state a2 = final_state r"
      using attempt_concludes [OF assms(1-4) _ f, of "job_network job pc k"] starts b assms(5) by auto
    have "final_state r = last (concat batches)" using run_collects [OF r(1)] by simp
    then show ?thesis using r(2,3) b by (simp add: lab_result_def n)
  qed
  moreover have "length ?reports = min k 60 + 5" by (simp add: rounds_def)
  ultimately show ?thesis using starts by (intro exI [of _ n'] exI [of _ ?reports]) (auto simp del: append.simps)
qed

theorem click_wakes_pc_witness:
  "\<exists>a1 m1 n reports. begin_wake plain_codecs (test_app, test_machine) = (a1, m1) \<and>
     start_worker id (Ok ()) (job_network test_job (Ipv4 10 231 0 1) 2) (last (mc_workers m1)) = Some (WakeThread n reports) \<and>
     length reports = 7 \<and> wa_state (fst (frames_between n [take 4 reports, drop 4 reports] (a1, m1))) = Awake"
proof -
  obtain a1 m1 where b: "begin_wake plain_codecs (test_app, test_machine) = (a1, m1)" "wa_busy a1"
    using test_begin [of test_app test_machine] by (auto simp: test_app_fields test_machine_def)
  have P: "ap_codecs test_params = plain_codecs" "ap_wide test_params = id" by (simp_all add: test_params_def)
  have b': "begin_wake (ap_codecs test_params) (test_app, test_machine) = (a1, m1)" using b(1) by (simp add: P)
  have job: "build_job (ap_codecs test_params) test_app test_machine = Ok test_job"
    by (simp add: P test_build test_app_fields)
  have e: "parse_socket_addr (wg_endpoint (fj_profile (wj_fritz test_job))) = Some (SocketV4 (Ipv4 127 0 0 1) 51820)"
    by (simp add: test_job_def sample_profile_def test_endpoint)
  from click_wakes_pc [OF test_reachable test_enabled(1) b' b(2) job e, of "Ipv4 10 231 0 1" 2] obtain n reports where
    r: "start_worker id (Ok ()) (job_network test_job (Ipv4 10 231 0 1) 2) (last (mc_workers m1)) = Some (WakeThread n reports)"
      "length reports = 7" and
    shown: "\<And>batches. concat batches = reports \<Longrightarrow> wa_state (fst (frames_between n batches (a1, m1))) = Awake"
    by (auto simp: P Let_def case_prod_beta)
  from shown [of "[take 4 reports, drop 4 reports]"] b(1) r show ?thesis by auto
qed

end
