(* ===== verification/Tests_Net.thy ===== *)
theory Tests_Net
  imports Run_Wake Profile Dns_Guard Lab
begin

text \<open>
  The unit tests of \<open>waker-core/src/lib.rs\<close> and \<open>waker-net/src/lib.rs\<close>, each as a predicate that
  holds when the test passes, over whatever the test leaves open: the clock, the \<open>Debug\<close> format.
\<close>

section \<open>The tests of \<open>waker-core\<close>\<close>

fun unwraps :: "'e + 'a \<Rightarrow> ('a \<Rightarrow> bool) \<Rightarrow> bool" where
  "unwraps (Ok x) p = p x"
| "unwraps (Err e) p = False"

fun unwraps_err :: "'e + 'a \<Rightarrow> ('e \<Rightarrow> bool) \<Rightarrow> bool" where
  "unwraps_err (Err e) p = p e"
| "unwraps_err (Ok x) p = False"

text \<open>The backends of the tests; \<open>clock\<close> counts its own readings.\<close>

record backend_of_tests =
  bt_probes :: "bool list"
  bt_disconnected :: bool
  bt_wake_sent :: bool
  bt_states :: "wake_state list"

definition tests_env :: "instant \<Rightarrow> wake_backend_error + ipv4 \<Rightarrow> backend_of_tests wake_env" where
  "tests_env t lookup = \<lparr>
     env_connect = (\<lambda>s. (Ok (), s)),
     env_resolve = (\<lambda>m s. (lookup, s)),
     env_send_wake = (\<lambda>m s. (Ok (), s\<lparr>bt_wake_sent := True\<rparr>)),
     env_probe = (\<lambda>a s. case bt_probes s of [] \<Rightarrow> (Ok False, s) | p # ps \<Rightarrow> (Ok p, s\<lparr>bt_probes := ps\<rparr>)),
     env_disconnect = (\<lambda>s. s\<lparr>bt_disconnected := True\<rparr>),
     env_report = (\<lambda>st s. s\<lparr>bt_states := bt_states s @ [st]\<rparr>),
     env_now = (\<lambda>s. t),
     env_sleep = (\<lambda>d s. s)\<rparr>"

definition tests_start :: "bool list \<Rightarrow> backend_of_tests" where
  "tests_start answers = \<lparr>bt_probes = answers, bt_disconnected = False, bt_wake_sent = False, bt_states = []\<rparr>"

text \<open>The reports a run of a test leaves, its first and its last.\<close>

definition first_report :: "backend_of_tests \<Rightarrow> wake_state option" where
  "first_report s = (case bt_states s of [] \<Rightarrow> None | x # xs \<Rightarrow> Some x)"

definition last_report :: "backend_of_tests \<Rightarrow> wake_state option" where
  "last_report s = (if bt_states s = [] then None else Some (last (bt_states s)))"

definition last_failed_at :: "wake_failure_stage \<Rightarrow> backend_of_tests \<Rightarrow> bool" where
  "last_failed_at k s = (case last_report s of Some (Failed f) \<Rightarrow> stage f = k | _ \<Rightarrow> False)"

definition parses_common_mac_formats :: bool where
  "parses_common_mac_formats \<longleftrightarrow>
     unwraps (mac_from_str ''AA:BB:CC:DD:EE:FF'') (\<lambda>colon.
     unwraps (mac_from_str ''aa-bb-cc-dd-ee-ff'') (\<lambda>dash.
       colon = dash \<and> mac_display colon = ''AA:BB:CC:DD:EE:FF''))"

definition wake_sequence_disconnects_after_success :: "instant \<Rightarrow> bool" where
  "wake_sequence_disconnects_after_success t \<longleftrightarrow>
     unwraps (mac_from_str ''AA:BB:CC:DD:EE:FF'') (\<lambda>mac.
       let target = (wake_target_new mac)\<lparr>probe_interval := 0\<rparr>
       in case run_wake (tests_env t (Ok (Ipv4 127 0 0 1))) target (tests_start [False, True]) of
            Some (r, s) \<Rightarrow> unwraps r (\<lambda>_. bt_disconnected s \<and> first_report s = Some Connecting \<and>
              ResolvingPc \<in> set (bt_states s) \<and> last_report s = Some Awake)
          | None \<Rightarrow> False)"

definition target_resolution_failure_stops_before_wol :: "instant \<Rightarrow> bool" where
  "target_resolution_failure_stops_before_wol t \<longleftrightarrow>
     unwraps (mac_from_str ''AA:BB:CC:DD:EE:FF'') (\<lambda>mac.
       case run_wake (tests_env t (Err (WakeBackendError ''host lookup failed''))) (wake_target_new mac) (tests_start []) of
         Some (r, s) \<Rightarrow> unwraps_err r (\<lambda>failure. bt_disconnected s \<and> \<not> bt_wake_sent s \<and> stage failure = ResolveTarget \<and>
           ResolvingPc \<in> set (bt_states s) \<and>
           last_failed_at ResolveTarget s)
       | None \<Rightarrow> False)"

definition timeout_failure_reports_timeout_stage :: "instant \<Rightarrow> bool" where
  "timeout_failure_reports_timeout_stage t \<longleftrightarrow>
     unwraps (mac_from_str ''AA:BB:CC:DD:EE:FF'') (\<lambda>mac.
       let target = (wake_target_new mac)\<lparr>probe_interval := 0, probe_timeout := 0\<rparr>
       in case run_wake (tests_env t (Ok (Ipv4 127 0 0 1))) target (tests_start [False]) of
            Some (r, s) \<Rightarrow> unwraps_err r (\<lambda>failure. bt_disconnected s \<and> stage failure = Timeout \<and>
              last_failed_at Timeout s)
          | None \<Rightarrow> False)"

section \<open>The tests of \<open>waker-net\<close>\<close>

definition tests_profile :: string where
  "tests_profile = concat (map (\<lambda>l. l @ [nl])
     [[], ''[Interface]'', ''PrivateKey = AAAAAAAAAAAAAAAAAAAAAAAAAAAAAAAAAAAAAAAAAAA='', ''Address = 10.231.0.2/24'',
      ''DNS = 1.1.1.1'', [], ''[Peer]'', ''PublicKey = AQEBAQEBAQEBAQEBAQEBAQEBAQEBAQEBAQEBAQEBAQE='',
      ''PresharedKey = AgICAgICAgICAgICAgICAgICAgICAgICAgICAgICAgI='', ''AllowedIPs = 10.231.0.0/24, 192.0.2.0/24'',
      ''Endpoint = 127.0.0.1:51820'', ''PersistentKeepalive = 25''])"

definition parses_fritz_style_wireguard_profile :: "codecs \<Rightarrow> bool" where
  "parses_fritz_style_wireguard_profile C \<longleftrightarrow>
     unwraps (parse_profile C tests_profile) (\<lambda>profile.
       fst (wg_address profile) = Ipv4 10 231 0 2 \<and> snd (wg_address profile) = 24 \<and>
       wg_endpoint profile = ''127.0.0.1:51820'' \<and> length (wg_allowed_ips profile) = 2 \<and>
       wg_persistent_keepalive profile = Some 25 \<and> wg_preshared_key profile \<noteq> None)"

definition wol_request_is_targeted_at_hosts_service :: bool where
  "wol_request_is_targeted_at_hosts_service \<longleftrightarrow>
     unwraps (mac_from_str ''AA:BB:CC:DD:EE:FF'') (\<lambda>mac.
       let text = fritz_wol_request (Ipv4 192 168 178 1) mac
       in utf8_valid text \<and> starts_with text (''POST /upnp/control/hosts HTTP/1.1'' @ crlf) \<and>
          contains text ''X_AVM-DE_WakeOnLANByMACAddress'' \<and> contains text ''AA:BB:CC:DD:EE:FF'')"

definition parses_http_status :: bool where
  "parses_http_status \<longleftrightarrow> unwraps (http_status (''HTTP/1.1 200 OK'' @ crlf @ crlf)) (\<lambda>status. status = 200)"

definition host_status_request_is_targeted_at_hosts_service :: bool where
  "host_status_request_is_targeted_at_hosts_service \<longleftrightarrow>
     (let text = fritz_hosts_request (Ipv4 192 168 178 1) ''GetSpecificHostEntry''
            ''<NewMACAddress>AA:BB:CC:DD:EE:FF</NewMACAddress>''
      in utf8_valid text \<and> starts_with text (''POST /upnp/control/hosts HTTP/1.1'' @ crlf) \<and>
         contains text ''GetSpecificHostEntry'' \<and> contains text ''AA:BB:CC:DD:EE:FF'')"

definition response_of :: "string \<Rightarrow> string" where
  "response_of body = ''HTTP/1.1 200 OK'' @ crlf @ crlf @ body"

definition parses_fritz_host_active_values :: "(string \<Rightarrow> string) \<Rightarrow> bool" where
  "parses_fritz_host_active_values wide \<longleftrightarrow>
     unwraps (fritz_host_active wide (response_of ''<NewActive>1</NewActive>'')) (\<lambda>active. active) \<and>
     unwraps (fritz_host_active wide (response_of ''<NewActive>0</NewActive>'')) (\<lambda>active. \<not> active)"

definition rejects_missing_fritz_host_active_value :: "(string \<Rightarrow> string) \<Rightarrow> bool" where
  "rejects_missing_fritz_host_active_value wide \<longleftrightarrow>
     unwraps_err (fritz_host_active wide (response_of ''<NewHostName>Example-PC</NewHostName>'')) (\<lambda>_. True)"

definition parses_fritz_host_ipv4_address :: "(string \<Rightarrow> string) \<Rightarrow> bool" where
  "parses_fritz_host_ipv4_address wide \<longleftrightarrow>
     unwraps (fritz_host_ip wide (response_of ''<NewIPAddress>192.0.2.42</NewIPAddress>'')) (\<lambda>ip. ip = Ipv4 192 0 2 42)"

definition rejects_missing_fritz_host_ipv4_address :: "(string \<Rightarrow> string) \<Rightarrow> bool" where
  "rejects_missing_fritz_host_ipv4_address wide \<longleftrightarrow>
     unwraps_err (fritz_host_ip wide (response_of ''<NewActive>1</NewActive>'')) (\<lambda>_. True)"

definition recognises_cisco_umbrella_block_page_addresses :: bool where
  "recognises_cisco_umbrella_block_page_addresses \<longleftrightarrow>
     list_all (\<lambda>last. suspicious_dns_result (V4 (Ipv4 146 112 61 last)) =
       Some ''is a Cisco Umbrella/OpenDNS block-page address'') [104, 105, 106, 107, 108, 110]"

definition accepts_normal_public_dns_results :: bool where
  "accepts_normal_public_dns_results \<longleftrightarrow> suspicious_dns_result (V4 (Ipv4 1 1 1 1)) = None"

text \<open>What the crates \<open>base64\<close> and \<open>ipnetwork\<close> answer to the texts of the profile.\<close>

definition decodes_tests_profile :: "codecs \<Rightarrow> bool" where
  "decodes_tests_profile C \<longleftrightarrow>
     b64_decode C ''AAAAAAAAAAAAAAAAAAAAAAAAAAAAAAAAAAAAAAAAAAA='' = Ok (replicate 32 0) \<and>
     b64_decode C ''AQEBAQEBAQEBAQEBAQEBAQEBAQEBAQEBAQEBAQEBAQE='' = Ok (replicate 32 1) \<and>
     b64_decode C ''AgICAgICAgICAgICAgICAgICAgICAgICAgICAgICAgI='' = Ok (replicate 32 2) \<and>
     parse_ipnet C ''10.231.0.2/24'' = Ok (NetV4 (Ipv4 10 231 0 2) 24) \<and>
     parse_ipnet C ''10.231.0.0/24'' = Ok (NetV4 (Ipv4 10 231 0 0) 24) \<and>
     parse_ipnet C ''192.0.2.0/24'' = Ok (NetV4 (Ipv4 192 0 2 0) 24)"

lemma tests_profile_lines: "lines tests_profile =
  [[],
   ''[Interface]'',
   ''PrivateKey = AAAAAAAAAAAAAAAAAAAAAAAAAAAAAAAAAAAAAAAAAAA='',
   ''Address = 10.231.0.2/24'',
   ''DNS = 1.1.1.1'',
   [],
   ''[Peer]'',
   ''PublicKey = AQEBAQEBAQEBAQEBAQEBAQEBAQEBAQEBAQEBAQEBAQE='',
   ''PresharedKey = AgICAgICAgICAgICAgICAgICAgICAgICAgICAgICAgI='',
   ''AllowedIPs = 10.231.0.0/24, 192.0.2.0/24'',
   ''Endpoint = 127.0.0.1:51820'',
   ''PersistentKeepalive = 25'']"
  by code_simp

lemma tests_profile_contents:
  "line_content [] = []"
  "line_content ''[Interface]'' = ''[Interface]''"
  "line_content ''[Peer]'' = ''[Peer]''"
  "line_content ''PrivateKey = AAAAAAAAAAAAAAAAAAAAAAAAAAAAAAAAAAAAAAAAAAA='' = ''PrivateKey = AAAAAAAAAAAAAAAAAAAAAAAAAAAAAAAAAAAAAAAAAAA=''"
  "line_content ''Address = 10.231.0.2/24'' = ''Address = 10.231.0.2/24''"
  "line_content ''DNS = 1.1.1.1'' = ''DNS = 1.1.1.1''"
  "line_content ''PublicKey = AQEBAQEBAQEBAQEBAQEBAQEBAQEBAQEBAQEBAQEBAQE='' = ''PublicKey = AQEBAQEBAQEBAQEBAQEBAQEBAQEBAQEBAQEBAQEBAQE=''"
  "line_content ''PresharedKey = AgICAgICAgICAgICAgICAgICAgICAgICAgICAgICAgI='' = ''PresharedKey = AgICAgICAgICAgICAgICAgICAgICAgICAgICAgICAgI=''"
  "line_content ''AllowedIPs = 10.231.0.0/24, 192.0.2.0/24'' = ''AllowedIPs = 10.231.0.0/24, 192.0.2.0/24''"
  "line_content ''Endpoint = 127.0.0.1:51820'' = ''Endpoint = 127.0.0.1:51820''"
  "line_content ''PersistentKeepalive = 25'' = ''PersistentKeepalive = 25''"
  by code_simp+

lemma tests_profile_fields:
  "split_once CHR ''='' ''PrivateKey = AAAAAAAAAAAAAAAAAAAAAAAAAAAAAAAAAAAAAAAAAAA='' = Some (''PrivateKey '', '' AAAAAAAAAAAAAAAAAAAAAAAAAAAAAAAAAAAAAAAAAAA='')"
  "split_once CHR ''='' ''Address = 10.231.0.2/24'' = Some (''Address '', '' 10.231.0.2/24'')"
  "split_once CHR ''='' ''DNS = 1.1.1.1'' = Some (''DNS '', '' 1.1.1.1'')"
  "split_once CHR ''='' ''PublicKey = AQEBAQEBAQEBAQEBAQEBAQEBAQEBAQEBAQEBAQEBAQE='' = Some (''PublicKey '', '' AQEBAQEBAQEBAQEBAQEBAQEBAQEBAQEBAQEBAQEBAQE='')"
  "split_once CHR ''='' ''PresharedKey = AgICAgICAgICAgICAgICAgICAgICAgICAgICAgICAgI='' = Some (''PresharedKey '', '' AgICAgICAgICAgICAgICAgICAgICAgICAgICAgICAgI='')"
  "split_once CHR ''='' ''AllowedIPs = 10.231.0.0/24, 192.0.2.0/24'' = Some (''AllowedIPs '', '' 10.231.0.0/24, 192.0.2.0/24'')"
  "split_once CHR ''='' ''Endpoint = 127.0.0.1:51820'' = Some (''Endpoint '', '' 127.0.0.1:51820'')"
  "split_once CHR ''='' ''PersistentKeepalive = 25'' = Some (''PersistentKeepalive '', '' 25'')"
  by code_simp+

lemma tests_profile_values:
  "trim ''PrivateKey '' = ''PrivateKey''"
  "trim '' AAAAAAAAAAAAAAAAAAAAAAAAAAAAAAAAAAAAAAAAAAA='' = ''AAAAAAAAAAAAAAAAAAAAAAAAAAAAAAAAAAAAAAAAAAA=''"
  "trim ''Address '' = ''Address''"
  "trim '' 10.231.0.2/24'' = ''10.231.0.2/24''"
  "trim ''DNS '' = ''DNS''"
  "trim '' 1.1.1.1'' = ''1.1.1.1''"
  "trim ''PublicKey '' = ''PublicKey''"
  "trim '' AQEBAQEBAQEBAQEBAQEBAQEBAQEBAQEBAQEBAQEBAQE='' = ''AQEBAQEBAQEBAQEBAQEBAQEBAQEBAQEBAQEBAQEBAQE=''"
  "trim ''PresharedKey '' = ''PresharedKey''"
  "trim '' AgICAgICAgICAgICAgICAgICAgICAgICAgICAgICAgI='' = ''AgICAgICAgICAgICAgICAgICAgICAgICAgICAgICAgI=''"
  "trim ''AllowedIPs '' = ''AllowedIPs''"
  "trim '' 10.231.0.0/24, 192.0.2.0/24'' = ''10.231.0.0/24, 192.0.2.0/24''"
  "trim ''Endpoint '' = ''Endpoint''"
  "trim '' 127.0.0.1:51820'' = ''127.0.0.1:51820''"
  "trim ''PersistentKeepalive '' = ''PersistentKeepalive''"
  "trim '' 25'' = ''25''"
  "split_on CHR '','' ''10.231.0.2/24'' = [''10.231.0.2/24'']"
  "split_on CHR '','' ''10.231.0.0/24, 192.0.2.0/24'' = [''10.231.0.0/24'', '' 192.0.2.0/24'']"
  "trim ''10.231.0.2/24'' = ''10.231.0.2/24''" "trim ''10.231.0.0/24'' = ''10.231.0.0/24''"
  "trim '' 192.0.2.0/24'' = ''192.0.2.0/24''"
  by code_simp+

lemma keepalive_25: "parse_u16 ''25'' = Ok 25"
proof -
  have "show_nat (unat (25 :: u16)) = ''25''" by code_simp
  then show ?thesis using parse_u16_show_nat [of 25] by simp
qed

lemma profile_test: "decodes_tests_profile C \<Longrightarrow> parses_fritz_style_wireguard_profile C"
  unfolding parses_fritz_style_wireguard_profile_def parse_profile_def tests_profile_lines decodes_tests_profile_def
  by (simp add: parse_line_def tests_profile_contents tests_profile_fields tests_profile_values
    keepalive_25 assign_def parse_init_def parse_key_def parse_finish_def)

section \<open>They pass\<close>

lemma status_200: "http_status (''HTTP/1.1 200 OK'' @ crlf @ crlf) = Ok 200"
proof -
  have "show_nat (unat (200 :: u16)) = ''200''" by code_simp
  then show ?thesis
    using status_line_code [of "''HTTP/1.1''" "'' OK''" "[cr]" 200 crlf] by (simp add: graph_char_def)
qed
lemma tests_mac: "mac_from_str ''AA:BB:CC:DD:EE:FF'' = Ok (MacAddress [0xAA, 0xBB, 0xCC, 0xDD, 0xEE, 0xFF])"
  by code_simp
lemma request_starts: "starts_with (fritz_hosts_request ip action args) (''POST /upnp/control/hosts HTTP/1.1'' @ crlf)"
  by (simp add: starts_with_def fritz_hosts_request_def Let_def)

lemma request_contents:
  "list_all graph_char ''X_AVM-DE_WakeOnLANByMACAddress''" "list_all graph_char ''GetSpecificHostEntry''"
  "list_all ascii ''<NewMACAddress>AA:BB:CC:DD:EE:FF</NewMACAddress>''"
  by code_simp+

lemma requests_ascii:
  "list_all ascii (fritz_hosts_request (Ipv4 192 168 178 1) ''GetSpecificHostEntry''
     ''<NewMACAddress>AA:BB:CC:DD:EE:FF</NewMACAddress>'')"
  "list_all ascii (fritz_hosts_request (Ipv4 192 168 178 1) ''X_AVM-DE_WakeOnLANByMACAddress''
     ''<NewMACAddress>AA:BB:CC:DD:EE:FF</NewMACAddress>'')"
  by code_simp+

lemma request_test:
  fixes ip action args
  defines "text \<equiv> fritz_hosts_request ip action args"
  assumes "list_all ascii text" "list_all graph_char action" "list_all ascii args"
  shows "utf8_valid text" "starts_with text (''POST /upnp/control/hosts HTTP/1.1'' @ crlf)"
    "contains text action" "contains args p \<Longrightarrow> contains text p"
  using assms request_starts [of ip action args] request_text(2) [of action args ip]
    request_text(3) [of action args p ip]
  by (simp_all add: list_all_iff utf8_valid_ascii)

lemma requests_contain:
  "mac_arguments (MacAddress [0xAA, 0xBB, 0xCC, 0xDD, 0xEE, 0xFF]) = ''<NewMACAddress>AA:BB:CC:DD:EE:FF</NewMACAddress>''"
  "contains ''<NewMACAddress>AA:BB:CC:DD:EE:FF</NewMACAddress>'' ''AA:BB:CC:DD:EE:FF''"
  by code_simp+

lemma wol_request_test: "wol_request_is_targeted_at_hosts_service"
  unfolding wol_request_is_targeted_at_hosts_service_def tests_mac unwraps.simps Let_def
    fritz_wol_request_def requests_contain(1)
  by (intro conjI request_test requests_ascii request_contents requests_contain)

lemma host_request_test: "host_status_request_is_targeted_at_hosts_service"
  unfolding host_status_request_is_targeted_at_hosts_service_def Let_def
  by (intro conjI request_test requests_ascii request_contents requests_contain)




lemma host_response_tests:
  "parses_fritz_host_active_values wide" "rejects_missing_fritz_host_active_value wide"
  "parses_fritz_host_ipv4_address wide" "rejects_missing_fritz_host_ipv4_address wide"
  by code_simp+

lemmas wake_tests_eval = wake_sequence_disconnects_after_success_def
  target_resolution_failure_stops_before_wol_def timeout_failure_reports_timeout_stage_def
  tests_env_def tests_start_def run_wake_def wake_attempt_def wake_loop_unfold
  wake_round_def wake_target_new_def tests_mac last_failed_at_def last_report_def first_report_def
  from_mins_def from_secs_def stage_error_def timeout_failure_def wake_failure_new_def

lemma wake_tests:
  "wake_sequence_disconnects_after_success t" "target_resolution_failure_stops_before_wol t"
  "timeout_failure_reports_timeout_stage t"
  by (simp_all add: wake_tests_eval)

text \<open>\<^bold>\<open>the wake tests\<close>. At whatever time they run, the unit tests of \<open>run_wake\<close> and of the MAC
  address pass: the tunnel comes down after success, a failed lookup sends no wake request, and
  a spent budget fails at \<open>Timeout\<close>.\<close>

theorem core_tests_pass:
  "parses_common_mac_formats \<and> wake_sequence_disconnects_after_success t \<and>
   target_resolution_failure_stops_before_wol t \<and> timeout_failure_reports_timeout_stage t"
proof -
  have "parses_common_mac_formats" by code_simp
  then show ?thesis using wake_tests by blast
qed

text \<open>\<^bold>\<open>the router's tests\<close>. The unit tests of the profile parser, of the requests to the router, of
  its answers and of the DNS guard pass, given what the crates answer to the texts of the profile, and
  whatever the \<open>Debug\<close> format makes of the characters outside ASCII.\<close>

theorem net_tests_pass:
  assumes "decodes_tests_profile C"
  shows "parses_fritz_style_wireguard_profile C \<and> wol_request_is_targeted_at_hosts_service \<and>
    parses_http_status \<and> host_status_request_is_targeted_at_hosts_service \<and>
    parses_fritz_host_active_values wide \<and> rejects_missing_fritz_host_active_value wide \<and>
    parses_fritz_host_ipv4_address wide \<and> rejects_missing_fritz_host_ipv4_address wide \<and>
    recognises_cisco_umbrella_block_page_addresses \<and> accepts_normal_public_dns_results"
proof -
  have "parses_http_status" by (simp only: parses_http_status_def status_200 unwraps.simps)
  moreover have "recognises_cisco_umbrella_block_page_addresses" by code_simp
  moreover have "accepts_normal_public_dns_results" by code_simp
  ultimately show ?thesis
    using profile_test [OF assms] wol_request_test host_request_test host_response_tests by blast
qed

definition tests_codecs :: codecs where
  "tests_codecs = \<lparr>
     parse_ipnet = (\<lambda>s. if s = ''10.231.0.2/24'' then Ok (NetV4 (Ipv4 10 231 0 2) 24)
       else if s = ''10.231.0.0/24'' then Ok (NetV4 (Ipv4 10 231 0 0) 24)
       else if s = ''192.0.2.0/24'' then Ok (NetV4 (Ipv4 192 0 2 0) 24) else Err ''invalid address''),
     b64_decode = (\<lambda>s. if s = ''AAAAAAAAAAAAAAAAAAAAAAAAAAAAAAAAAAAAAAAAAAA='' then Ok (replicate 32 0)
       else if s = ''AQEBAQEBAQEBAQEBAQEBAQEBAQEBAQEBAQEBAQEBAQE='' then Ok (replicate 32 1)
       else if s = ''AgICAgICAgICAgICAgICAgICAgICAgICAgICAgICAgI='' then Ok (replicate 32 2)
       else Err ''Invalid padding'')\<rparr>"

theorem net_tests_pass_witness:
  "decodes_tests_profile tests_codecs \<and> parses_fritz_style_wireguard_profile tests_codecs \<and>
   wol_request_is_targeted_at_hosts_service \<and> parses_fritz_host_active_values (\<lambda>s. s)"
proof -
  have C: "decodes_tests_profile tests_codecs" by (simp add: decodes_tests_profile_def tests_codecs_def)
  then show ?thesis using net_tests_pass [OF C, of "\<lambda>s. s"] by blast
qed

end
