(* ===== verification/Lab_Test.thy ===== *)
theory Lab_Test
  imports Lab_Wake Tests_Net
begin

text \<open>
  The test of \<open>waker-net/tests/local_lab.rs\<close>, from the profile of the environment to the states that were
  reported, on any network, and the lab's network as one on which it passes.
\<close>

definition wakes_through_real_wireguard_peer ::
  "codecs \<Rightarrow> (string \<Rightarrow> string) \<Rightarrow> (string \<Rightarrow> string option) \<Rightarrow> (string \<Rightarrow> string + string) \<Rightarrow> outside \<Rightarrow> bool" where
  "wakes_through_real_wireguard_peer C wide env read v \<longleftrightarrow>
     (case env ''WAKER_LAB_PROFILE'' of
        None \<Rightarrow> False
      | Some profile_path \<Rightarrow>
        unwraps (read profile_path) (\<lambda>profile_text.
        unwraps (parse_profile C profile_text) (\<lambda>profile.
        unwraps (mac_from_str ''AA:BB:CC:DD:EE:FF'') (\<lambda>mac.
          let fritz_ip = Ipv4 10 231 0 1; target = wake_target_new mac; b = backend_new profile fritz_ip
          in case run_wake (backend_env wide) target ((b, v), []) of
               None \<Rightarrow> False
             | Some (r, s, states) \<Rightarrow>
                 unwraps r (\<lambda>_. states \<noteq> [] \<and> hd states = Connecting \<and> ResolvingPc \<in> set states \<and>
                   Waking \<in> set states \<and> list_ex (\<lambda>st. case st of WaitingForPc _ \<Rightarrow> True | _ \<Rightarrow> False) states \<and>
                   last states = Awake)))))"

text \<open>The test passes on the lab's network for every PC that misses at most sixty pings.\<close>

theorem lab_test_passes:
  assumes "env ''WAKER_LAB_PROFILE'' = Some path" "read path = Ok text" "parse_profile C text = Ok profile"
    and "parse_socket_addr (wg_endpoint profile) = Some endpoint" "k \<le> 60"
    and "v = lab_network (Ipv4 10 231 0 1) (MacAddress [0xAA, 0xBB, 0xCC, 0xDD, 0xEE, 0xFF]) pc k"
  shows "wakes_through_real_wireguard_peer C wide env read v"
proof -
  let ?mac = "MacAddress [0xAA, 0xBB, 0xCC, 0xDD, 0xEE, 0xFF]"
  have "target_mac (wake_target_new ?mac) = ?mac" by (simp add: wake_target_new_def)
  moreover have "lab_result (wake_target_new ?mac) k = Ok ()" using assms(5) by (simp add: lab_result_def default_patience)
  moreover have "rounds 0 n = WaitingForPc (numbered 1) # map (\<lambda>i. WaitingForPc (numbered (Suc i))) [1..<Suc n]" for n
    by (simp add: rounds_def upt_conv_Cons del: upt_Suc)
  ultimately obtain s ws where
    "run_wake (backend_env wide) (wake_target_new ?mac) ((backend_new profile (Ipv4 10 231 0 1), v), []) =
      Some (Ok (), s, [Connecting, ResolvingPc, Waking, WaitingForPc (numbered 1)] @ ws @ [Awake])"
    using lab_wake_runs [OF assms(4), of wide "wake_target_new ?mac" "Ipv4 10 231 0 1" pc k] assms(6) by auto
  then show ?thesis
    using assms(1-3) by (cases s) (simp add: wakes_through_real_wireguard_peer_def tests_mac Let_def)
qed

theorem lab_test_passes_witness:
  "wakes_through_real_wireguard_peer tests_codecs id (\<lambda>_. Some ''lab.conf'') (\<lambda>_. Ok tests_profile)
     (lab_network (Ipv4 10 231 0 1) (MacAddress [0xAA, 0xBB, 0xCC, 0xDD, 0xEE, 0xFF]) (Ipv4 10 231 0 1) 3)"
proof -
  have "decodes_tests_profile tests_codecs" by (simp add: decodes_tests_profile_def tests_codecs_def)
  from profile_test [OF this] obtain profile
    where p: "parse_profile tests_codecs tests_profile = Ok profile" "wg_endpoint profile = ''127.0.0.1:51820''"
    unfolding parses_fritz_style_wireguard_profile_def by (cases "parse_profile tests_codecs tests_profile") auto
  have e: "parse_socket_addr (wg_endpoint profile) = Some (SocketV4 (Ipv4 127 0 0 1) 51820)" by (simp add: p(2) test_endpoint)
  show ?thesis by (rule lab_test_passes [OF _ _ p(1) e, where k = 3]) simp_all
qed

end
