(* ===== verification/Packet_Path.thy ===== *)
theory Packet_Path
  imports Channel
begin

text \<open>
  The adapters between \<open>gotatun\<close> and \<open>smoltcp\<close> in \<open>crates/waker-net/src/lib.rs\<close>:
  \<open>GotaIpSend\<close>, \<open>GotaIpRecv\<close> and \<open>PacketDevice\<close> with its tokens, over the two unbounded
  channels of a tunnel. The checks of \<open>gotatun\<close>'s packet type are the parameter \<open>valid_ip\<close>.
\<close>

section \<open>The model\<close>

type_synonym packet = string

datatype io_error = BrokenPipe string | UnexpectedEof string | InvalidData string

record tunnel_channels =
  wg_to_smol :: "packet channel"
  smol_to_wg :: "packet channel"

definition tunnel_mtu :: nat where "tunnel_mtu = 1420"

definition gota_ip_send :: "packet \<Rightarrow> tunnel_channels \<Rightarrow> (io_error + unit) \<times> tunnel_channels" where
  "gota_ip_send raw t =
     (let (r, c) = send raw (wg_to_smol t)
      in (map_err (\<lambda>_. BrokenPipe ''smoltcp channel closed'') r, t\<lparr>wg_to_smol := c\<rparr>))"

text \<open>\<open>None\<close> is a call that waits for a packet.\<close>

definition gota_ip_recv ::
  "(packet \<Rightarrow> string + unit) \<Rightarrow> tunnel_channels \<Rightarrow> (io_error + packet) option \<times> tunnel_channels" where
  "gota_ip_recv valid_ip t =
     (let (r, c) = try_recv (smol_to_wg t); t = t\<lparr>smol_to_wg := c\<rparr>
      in case r of
           Empty \<Rightarrow> (None, t)
         | Disconnected \<Rightarrow> (Some (Err (UnexpectedEof ''smoltcp channel closed'')), t)
         | Received bytes \<Rightarrow>
             (Some (case valid_ip bytes of
                Err e \<Rightarrow> Err (InvalidData (''invalid IP packet: '' @ e))
              | Ok _ \<Rightarrow> Ok bytes), t))"

text \<open>The receive token hands out the packet it was made with; a transmit token is always given.\<close>

definition device_receive :: "tunnel_channels \<Rightarrow> packet option \<times> tunnel_channels" where
  "device_receive t =
     (let (r, c) = try_recv (wg_to_smol t)
      in (case r of Received buffer \<Rightarrow> Some buffer | _ \<Rightarrow> None, t\<lparr>wg_to_smol := c\<rparr>))"

text \<open>A transmit token of length \<open>n\<close> lets \<open>fill\<close> write into a zeroed buffer and sends that.\<close>

definition tx_consume :: "nat \<Rightarrow> (packet \<Rightarrow> packet) \<Rightarrow> tunnel_channels \<Rightarrow> tunnel_channels" where
  "tx_consume n fill t =
     (let buffer = fill (replicate n (CHR 0x00))
      in t\<lparr>smol_to_wg := snd (send buffer (smol_to_wg t))\<rparr>)"

definition device_capabilities :: nat where "device_capabilities = tunnel_mtu"

section \<open>Both directions keep the order\<close>

definition put_out :: "packet \<Rightarrow> tunnel_channels \<Rightarrow> tunnel_channels" where
  "put_out p = tx_consume (length p) (\<lambda>_. p)"

definition get_out :: "(packet \<Rightarrow> string + unit) \<Rightarrow> tunnel_channels \<Rightarrow> packet option \<times> tunnel_channels" where
  "get_out valid_ip t =
     (let (r, t) = gota_ip_recv valid_ip t in (case r of Some (Ok p) \<Rightarrow> Some p | _ \<Rightarrow> None, t))"

interpretation inward: message_path "\<lambda>p t. snd (gota_ip_send p t)" device_receive
    "\<lambda>t. ch_queue (wg_to_smol t)" "\<lambda>t. ch_receiver (wg_to_smol t)"
  by unfold_locales (auto simp: gota_ip_send_def device_receive_def send_def try_recv_def split: list.splits)

interpretation outward: message_path put_out "get_out (\<lambda>_. Ok ())"
    "\<lambda>t. ch_queue (smol_to_wg t)" "\<lambda>t. ch_receiver (smol_to_wg t)"
  by unfold_locales
    (auto simp: put_out_def tx_consume_def get_out_def gota_ip_recv_def send_def try_recv_def Let_def split: list.splits)

text \<open>C35: \<^bold>\<open>packets cross the tunnel in order\<close>. However the deliveries of the WireGuard device
  and the polls of the interface interleave, the interface receives exactly the decrypted packets,
  each once, in order, the rest still waiting.\<close>

theorem packets_in_order:
  assumes "ch_receiver (wg_to_smol t)"
    and "run_path (\<lambda>p t. snd (gota_ip_send p t)) device_receive ops t = (got, t')"
  shows "ch_queue (wg_to_smol t) @ puts ops = got @ ch_queue (wg_to_smol t')"
  using inward.in_order [OF assms] .

theorem packets_in_order_witness:
  "fst (run_path (\<lambda>p t. snd (gota_ip_send p t)) device_receive [Put ''a'', Get, Get, Put ''b'', Put ''c'', Get]
      \<lparr>wg_to_smol = new_channel, smol_to_wg = new_channel\<rparr>) = [''a'', ''b'']"
proof -
  let ?t = "\<lparr>wg_to_smol = new_channel, smol_to_wg = new_channel\<rparr> :: tunnel_channels"
  obtain got t' where r: "run_path (\<lambda>p t. snd (gota_ip_send p t)) device_receive
      [Put ''a'', Get, Get, Put ''b'', Put ''c'', Get] ?t = (got, t')" by force
  have "ch_queue (wg_to_smol t') = [''c'']"
    using r by (auto simp: gota_ip_send_def device_receive_def send_def try_recv_def new_channel_def)
  moreover have "ch_queue (wg_to_smol ?t) @ puts [Put ''a'', Get, Get, Put ''b'', Put ''c'', Get] = got @ ch_queue (wg_to_smol t')"
    by (rule packets_in_order [OF _ r]) (simp add: new_channel_def)
  ultimately have "got = [''a'', ''b'']" by (simp add: new_channel_def)
  then show ?thesis by (simp only: r fst_conv)
qed

text \<open>The same for the packets the interface emits.\<close>

lemma emitted_in_order:
  "ch_receiver (smol_to_wg t) \<Longrightarrow> run_path put_out (get_out (\<lambda>_. Ok ())) ops t = (got, t') \<Longrightarrow>
     ch_queue (smol_to_wg t) @ puts ops = got @ ch_queue (smol_to_wg t')"
  by (rule outward.in_order)

end
