(* ===== verification/Desktop_Main.thy ===== *)
theory Desktop_Main
  imports App_Progress
begin

text \<open>
  The desktop program: \<open>main\<close> of \<open>crates/waker-app/src/main.rs\<close> and \<open>run_desktop\<close> of
  \<open>crates/waker-app/src/lib.rs\<close>, from the log to the window and back. \<open>eframe\<close> decides whether there is a
  window, when it draws a frame and when the window closes; the \<open>image\<close> crate decodes the pictures.
\<close>

section \<open>Pictures\<close>

record picture =
  pc_width :: nat
  pc_height :: nat
  pc_rgba :: "u8 list"

record texture =
  te_name :: string
  te_size :: "nat \<times> nat"
  te_rgba :: "u8 list"

record branding_textures =
  bt_logo :: texture
  bt_background :: texture

text \<open>\<open>decode\<close> gives the RGBA picture in the bytes of a file, or the text of the error.\<close>

definition load_texture :: "('b \<Rightarrow> string + picture) \<Rightarrow> string \<Rightarrow> 'b \<Rightarrow> string + texture" where
  "load_texture decode name png =
     and_then (decode png) (\<lambda>rgba. Ok \<lparr>te_name = name, te_size = (pc_width rgba, pc_height rgba), te_rgba = pc_rgba rgba\<rparr>)"

definition load_branding :: "('b \<Rightarrow> string + picture) \<Rightarrow> 'b \<Rightarrow> 'b \<Rightarrow> string + branding_textures" where
  "load_branding decode big_logo_png background_png =
     and_then (load_texture decode ''waker-big-logo'' big_logo_png) (\<lambda>logo.
     and_then (load_texture decode ''waker-background'' background_png) (\<lambda>background.
     Ok \<lparr>bt_logo = logo, bt_background = background\<rparr>))"

text \<open>Without its pictures the application goes on.\<close>

definition install_branding ::
  "('b \<Rightarrow> string + picture) \<Rightarrow> 'b \<Rightarrow> 'b \<Rightarrow> branding_textures option \<Rightarrow> branding_textures option" where
  "install_branding decode big_logo_png background_png branding =
     (case load_branding decode big_logo_png background_png of Ok b \<Rightarrow> Some b | Err _ \<Rightarrow> branding)"

section \<open>The program\<close>

record 'b desktop_host =
  dh_waker_log :: "string option"
  dh_state_home :: "string option"
  dh_home :: "string option"
  dh_env :: "string \<Rightarrow> string option"
  dh_decode :: "'b \<Rightarrow> string + picture"
  dh_big_logo :: 'b
  dh_background :: 'b
  dh_icon :: 'b

record viewport =
  vp_title :: string
  vp_inner_size :: "nat \<times> nat"
  vp_min_inner_size :: "nat \<times> nat"
  vp_icon :: "picture option"

definition desktop_viewport :: "'b desktop_host \<Rightarrow> viewport" where
  "desktop_viewport H = \<lparr>vp_title = ''Waker'', vp_inner_size = (460, 460), vp_min_inner_size = (360, 320),
     vp_icon = (case dh_decode H (dh_icon H) of Ok icon \<Rightarrow> Some icon | Err _ \<Rightarrow> None)\<rparr>"

text \<open>The program asks for its window, has it, or has ended with a result; the log of the host is beside it.\<close>

datatype desktop =
  Asking diagnostics_runtime viewport machine
| Showing diagnostics_runtime "branding_textures option" app_system
| Ended "string + unit"

definition desktop_start :: "'b desktop_host \<Rightarrow> machine \<Rightarrow> log_host \<Rightarrow> desktop \<times> log_host" where
  "desktop_start H m h =
     (let (runtime, h) = init_desktop (dh_waker_log H) (dh_state_home H) (dh_home H) h
      in (Asking runtime (desktop_viewport H) m, h))"

text \<open>The closure that \<open>eframe::run_native\<close> calls once there is a window.\<close>

definition desktop_create :: "'b desktop_host \<Rightarrow> diagnostics_runtime \<Rightarrow> machine \<Rightarrow> desktop" where
  "desktop_create H runtime m =
     Showing runtime (install_branding (dh_decode H) (dh_big_logo H) (dh_background H) None)
       (app_new (dh_env H) (dr_info runtime) None m, m, [])"

text \<open>What follows the event loop: the runtime is dropped, and with it the guard that keeps the log.\<close>

definition desktop_end :: "diagnostics_runtime \<Rightarrow> string + unit \<Rightarrow> log_host \<Rightarrow> desktop \<times> log_host" where
  "desktop_end runtime result h = (Ended result, if dr_guard runtime then note_event LogClosed h else h)"

inductive desktop_step :: "app_params \<Rightarrow> 'b desktop_host \<Rightarrow> desktop \<times> log_host \<Rightarrow> desktop \<times> log_host \<Rightarrow> bool" for P H where
  window: "desktop_step P H (Asking runtime vp m, h) (desktop_create H runtime m, h)"
| no_window: "desktop_step P H (Asking runtime vp m, h) (desktop_end runtime (Err e) h)"
| works: "app_step P s s' \<Longrightarrow> desktop_step P H (Showing runtime b s, h) (Showing runtime b s', h)"
| closes: "desktop_step P H (Showing runtime b s, h) (desktop_end runtime result h)"

inductive_cases desktop_stepE: "desktop_step P H (d, h) d'"

inductive desktop_runs :: "app_params \<Rightarrow> 'b desktop_host \<Rightarrow> log_host \<Rightarrow> desktop \<times> log_host \<Rightarrow> bool" for P H h0 where
  starts: "mc_workers m = [] \<Longrightarrow> mc_commands m = [] \<Longrightarrow> desktop_runs P H h0 (desktop_start H m h0)"
| goes_on: "desktop_runs P H h0 d \<Longrightarrow> desktop_step P H d d' \<Longrightarrow> desktop_runs P H h0 d'"

section \<open>The log and the window\<close>

fun log_balance :: "log_event list \<Rightarrow> int" where
  "log_balance [] = 0"
| "log_balance (LogOpened d p k # evs) = log_balance evs + 1"
| "log_balance (LogClosed # evs) = log_balance evs - 1"
| "log_balance (_ # evs) = log_balance evs"

lemma log_balance_append [simp]: "log_balance (a @ b) = log_balance a + log_balance b"
  by (induction a rule: log_balance.induct) auto

text \<open>The log of a runtime is open, and it is the one the runtime names.\<close>

definition keeps_log :: "log_host \<Rightarrow> diagnostics_runtime \<Rightarrow> log_host \<Rightarrow> bool" where
  "keeps_log h0 runtime h \<longleftrightarrow> runtime_sound runtime h0 h \<and>
     log_balance (lh_events h) = log_balance (lh_events h0) + (if is_persistent runtime then 1 else 0)"

definition desktop_ok :: "app_params \<Rightarrow> log_host \<Rightarrow> desktop \<times> log_host \<Rightarrow> bool" where
  "desktop_ok P h0 d \<longleftrightarrow>
     (case d of
        (Asking runtime vp m, h) \<Rightarrow> keeps_log h0 runtime h \<and> mc_workers m = [] \<and> mc_commands m = []
      | (Showing runtime b s, h) \<Rightarrow> keeps_log h0 runtime h \<and> reachable P s
      | (Ended result, h) \<Rightarrow> log_balance (lh_events h) = log_balance (lh_events h0))"

lemma open_persistent_log_balance:
  "open_persistent_log dir h = (r, h') \<Longrightarrow>
    log_balance (lh_events h') = log_balance (lh_events h) + (case r of Ok _ \<Rightarrow> 1 | Err _ \<Rightarrow> 0)"
  by (auto simp: open_persistent_log_def note_event_def Let_def split: sum.splits)

lemma try_init_balance [simp]: "log_balance (lh_events (snd (try_init layers h))) = log_balance (lh_events h)"
  by (auto simp: try_init_def note_event_def split: sum.splits)

lemma init_desktop_keeps:
  assumes "init_desktop waker_log xdg home h0 = (runtime, h)"
  shows "keeps_log h0 runtime h"
proof -
  let ?targets = "safe_targets (log_level waker_log)"
  have "log_balance (lh_events h) = log_balance (lh_events h0) + (if is_persistent runtime then 1 else 0)"
  proof (cases "desktop_log_dir xdg home")
    case None
    then show ?thesis
      using assms by (auto simp: init_desktop_def without_log_def is_persistent_def Let_def case_prod_beta split: sum.splits)
  next
    case (Some dir)
    obtain r1 h1 where o: "open_persistent_log dir h0 = (r1, h1)" by force
    obtain r2 h2 where i: "try_init [FileLayer ?targets, StderrLayer ?targets] h1 = (r2, h2)" by force
    have "log_balance (lh_events h2) = log_balance (lh_events h1)" using try_init_balance i by (metis snd_conv)
    with Some o i assms open_persistent_log_balance [OF o] show ?thesis
      by (cases r1; cases r2)
        (auto simp: init_desktop_def without_log_def is_persistent_def note_event_def Let_def case_prod_beta split: sum.splits)
  qed
  then show ?thesis using init_desktop_sound [OF assms] by (simp add: keeps_log_def)
qed

lemma desktop_start_ok: "mc_workers m = [] \<Longrightarrow> mc_commands m = [] \<Longrightarrow> desktop_ok P h0 (desktop_start H m h0)"
  by (auto simp: desktop_ok_def desktop_start_def Let_def intro: init_desktop_keeps split: prod.split)

lemma desktop_end_ok: "keeps_log h0 runtime h \<Longrightarrow> desktop_ok P h0 (desktop_end runtime result h)"
  by (simp add: desktop_ok_def desktop_end_def keeps_log_def is_persistent_def note_event_def)

lemma desktop_step_ok:
  assumes "desktop_step P H d d'" "desktop_ok P h0 d"
  shows "desktop_ok P h0 d'"
  using assms
proof cases
  case (window runtime vp m h)
  with assms(2) show ?thesis by (auto simp: desktop_ok_def desktop_create_def intro: reachable.initial)
next
  case (works s s' runtime b h)
  with assms(2) show ?thesis by (auto simp: desktop_ok_def intro: reachable.further)
next
  case (no_window runtime vp m h e)
  then have "keeps_log h0 runtime h" using assms(2) by (simp add: desktop_ok_def)
  with no_window show ?thesis using desktop_end_ok by simp
next
  case (closes runtime b s h result)
  then have "keeps_log h0 runtime h" using assms(2) by (auto simp: desktop_ok_def)
  with closes show ?thesis using desktop_end_ok by simp
qed

lemma desktop_runs_ok: "desktop_runs P H h0 d \<Longrightarrow> desktop_ok P h0 d"
  by (induction rule: desktop_runs.induct) (auto intro: desktop_start_ok desktop_step_ok)

text \<open>C33: \<^bold>\<open>the log outlives the window\<close>. However the files, the decoder and \<open>eframe\<close> answer: while the
  desktop program waits for its window and while it shows it, the log that its runtime names is open; the
  application behind the window is in a reachable state of the application's own system; and when the
  program has ended, with or without ever having had a window, every log it opened is closed.\<close>

theorem desktop_keeps_log:
  assumes "desktop_runs P H h0 (d, h)"
  shows "case d of
      Asking runtime vp m \<Rightarrow> keeps_log h0 runtime h
    | Showing runtime b s \<Rightarrow> keeps_log h0 runtime h \<and> reachable P s
    | Ended result \<Rightarrow> log_balance (lh_events h) = log_balance (lh_events h0)"
  using desktop_runs_ok [OF assms] by (auto simp: desktop_ok_def split: desktop.splits)

text \<open>A run in a home directory, through a frame in which the log is opened, to the end.\<close>

definition desk_host :: "nat desktop_host" where
  "desk_host = \<lparr>dh_waker_log = None, dh_state_home = None, dh_home = Some ''/home/me'', dh_env = test_env,
     dh_decode = (\<lambda>n. if n = 0 then Err ''no picture'' else Ok \<lparr>pc_width = 1, pc_height = 1, pc_rgba = [1, 2, 3, 4]\<rparr>),
     dh_big_logo = 1, dh_background = 2, dh_icon = 0\<rparr>"

definition desk_log :: log_host where
  "desk_log = \<lparr>lh_create_dir = (\<lambda>_. Ok ()), lh_set_mode = (\<lambda>_ _. Ok ()), lh_open_log = (\<lambda>_ _ _. Ok ()),
     lh_try_init = (\<lambda>_ _. Ok ()), lh_events = []\<rparr>"

theorem desktop_keeps_log_witness:
  "\<exists>runtime b s h. desktop_runs test_params desk_host desk_log (Showing runtime b s, h) \<and>
     is_persistent runtime \<and> b \<noteq> None \<and> log_balance (lh_events h) = 1 \<and> reachable test_params s \<and>
     desktop_runs test_params desk_host desk_log (desktop_end runtime (Ok ()) h)"
proof -
  obtain runtime h where i: "init_desktop None None (Some ''/home/me'') desk_log = (runtime, h)" by force
  have p: "is_persistent runtime"
    using i by (auto simp: init_desktop_def desk_log_def desktop_log_dir_def open_persistent_log_def try_init_def
      note_event_def is_persistent_def Let_def)
  have "desktop_start desk_host test_machine desk_log = (Asking runtime (desktop_viewport desk_host) test_machine, h)"
    using i by (simp add: desktop_start_def desk_host_def)
  moreover have "desktop_runs test_params desk_host desk_log (desktop_start desk_host test_machine desk_log)"
    by (rule desktop_runs.starts) (simp_all add: test_machine_def)
  ultimately have "desktop_runs test_params desk_host desk_log (Asking runtime (desktop_viewport desk_host) test_machine, h)"
    by simp
  then have w: "desktop_runs test_params desk_host desk_log (desktop_create desk_host runtime test_machine, h)"
    by (rule desktop_runs.goes_on) (rule desktop_step.window)
  obtain b s where c: "desktop_create desk_host runtime test_machine = Showing runtime b s" "b \<noteq> None"
    by (simp add: desktop_create_def desk_host_def install_branding_def load_branding_def load_texture_def)
  have r: "desktop_runs test_params desk_host desk_log (Showing runtime b s, h)" using w c by simp
  from desktop_keeps_log [OF r] p have "log_balance (lh_events h) = 1" "reachable test_params s"
    by (simp_all add: keeps_log_def desk_log_def)
  moreover have "desktop_runs test_params desk_host desk_log (desktop_end runtime (Ok ()) h)"
    using r by (rule desktop_runs.goes_on) (rule desktop_step.closes)
  ultimately show ?thesis using r p c(2) by blast
qed

end
