(* ===== verification/Android_Input.thy ===== *)
theory Android_Input
  imports App_Progress
begin

text \<open>
  Input on Android, of \<open>crates/waker-app/src/android.rs\<close>: the repaint signal, touches and keys as
  egui events, and the dialogue with Android's text input. Positions are an arbitrary type \<open>'p\<close>, scaled
  by the parameter \<open>scale\<close>; the key maps of the devices and egui's key names are parameters.
\<close>

section \<open>The repaint signal\<close>

text \<open>The deadline under its mutex; each call reads the clock once and is atomic.\<close>

definition repaint_new :: "instant \<Rightarrow> instant option" where
  "repaint_new t = Some t"

definition repaint_request :: "instant \<Rightarrow> duration \<Rightarrow> instant option \<Rightarrow> instant option" where
  "repaint_request t delay current =
     (let deadline = t + delay
      in if (case current of None \<Rightarrow> True | Some value \<Rightarrow> deadline < value) then Some deadline else current)"

definition repaint_timeout :: "instant \<Rightarrow> instant option \<Rightarrow> duration option" where
  "repaint_timeout t current = map_option (\<lambda>value. value - t) current"

definition repaint_take_if_due :: "instant \<Rightarrow> instant option \<Rightarrow> bool \<times> instant option" where
  "repaint_take_if_due t current =
     (if (case current of None \<Rightarrow> False | Some value \<Rightarrow> value \<le> t) then (True, None) else (False, current))"

section \<open>Touches\<close>

record modifiers =
  md_alt :: bool
  md_ctrl :: bool
  md_shift :: bool
  md_mac_cmd :: bool
  md_command :: bool

definition no_modifiers :: modifiers where
  "no_modifiers = \<lparr>md_alt = False, md_ctrl = False, md_shift = False, md_mac_cmd = False, md_command = False\<rparr>"

datatype touch_phase = TouchStart | TouchMove | TouchEnd | TouchCancel

datatype egui_key =
  ArrowUp | ArrowDown | ArrowLeft | ArrowRight | Escape | Tab | Enter | Space | Backspace | Delete
| Home | End | PageUp | PageDown | NamedKey string

datatype 'p egui_event =
  Touch nat nat touch_phase 'p
| PointerMoved 'p
| PointerButton 'p bool modifiers
| PointerGone
| ModifiersChanged modifiers
| KeyChange egui_key bool bool modifiers
| TextTyped string

record 'p android_input =
  ai_events :: "'p egui_event list"
  ai_primary :: "int option"
  ai_modifiers :: modifiers
  ai_accent :: "string option"
  ai_pressed :: bool

definition android_input_default :: "'p android_input" where
  "android_input_default =
     \<lparr>ai_events = [], ai_primary = None, ai_modifiers = no_modifiers, ai_accent = None, ai_pressed = False\<rparr>"

definition push_event :: "'p egui_event \<Rightarrow> 'p android_input \<Rightarrow> 'p android_input" where
  "push_event ev s = s\<lparr>ai_events := ai_events s @ [ev]\<rparr>"

definition push_touch :: "int \<Rightarrow> int \<Rightarrow> touch_phase \<Rightarrow> 'p \<Rightarrow> 'p android_input \<Rightarrow> 'p android_input" where
  "push_touch device_id pointer_id ph pos s = push_event (Touch (nat device_id) (nat pointer_id) ph pos) s"

definition press_primary :: "int \<Rightarrow> 'p \<Rightarrow> 'p android_input \<Rightarrow> 'p android_input" where
  "press_primary pointer_id pos s =
     (let s = s\<lparr>ai_pressed := True, ai_primary := Some pointer_id\<rparr>;
          s = push_event (PointerMoved pos) s
      in push_event (PointerButton pos True (ai_modifiers s)) s)"

definition move_primary :: "int \<Rightarrow> 'p \<Rightarrow> 'p android_input \<Rightarrow> 'p android_input" where
  "move_primary pointer_id pos s =
     (if ai_primary s = Some pointer_id then push_event (PointerMoved pos) s else s)"

definition release_primary :: "int \<Rightarrow> 'p \<Rightarrow> 'p android_input \<Rightarrow> 'p android_input" where
  "release_primary pointer_id pos s =
     (if ai_primary s = Some pointer_id
      then (push_event PointerGone (push_event (PointerButton pos False (ai_modifiers s)) s))\<lparr>ai_primary := None\<rparr>
      else s)"

definition cancel_primary :: "'p android_input \<Rightarrow> 'p android_input" where
  "cancel_primary s =
     (if ai_primary s \<noteq> None then push_event PointerGone (s\<lparr>ai_primary := None\<rparr>) else s)"

section \<open>Keys\<close>

datatype keycode =
  DpadUp | DpadDown | DpadLeft | DpadRight | KEscape | KTab | KEnter | NumpadEnter | KSpace | KDel | ForwardDel
| MoveHome | MoveEnd | KPageUp | KPageDown | KBack | OtherKey nat

fun egui_key_of :: "keycode \<Rightarrow> egui_key option" where
  "egui_key_of DpadUp = Some ArrowUp"
| "egui_key_of DpadDown = Some ArrowDown"
| "egui_key_of DpadLeft = Some ArrowLeft"
| "egui_key_of DpadRight = Some ArrowRight"
| "egui_key_of KEscape = Some Escape"
| "egui_key_of KTab = Some Tab"
| "egui_key_of KEnter = Some Enter"
| "egui_key_of NumpadEnter = Some Enter"
| "egui_key_of KSpace = Some Space"
| "egui_key_of KDel = Some Backspace"
| "egui_key_of ForwardDel = Some Delete"
| "egui_key_of MoveHome = Some Home"
| "egui_key_of MoveEnd = Some End"
| "egui_key_of KPageUp = Some PageUp"
| "egui_key_of KPageDown = Some PageDown"
| "egui_key_of _ = None"

record meta_state =
  mt_alt :: bool
  mt_ctrl :: bool
  mt_shift :: bool

definition modifiers_of :: "meta_state \<Rightarrow> modifiers" where
  "modifiers_of meta = \<lparr>md_alt = mt_alt meta, md_ctrl = mt_ctrl meta, md_shift = mt_shift meta,
     md_mac_cmd = False, md_command = mt_ctrl meta\<rparr>"

record key_event =
  ke_device :: int
  ke_code :: keycode
  ke_meta :: meta_state
  ke_down :: bool
  ke_repeat :: int

datatype key_map_char = Unicode string | CombiningAccent string | NoChar

text \<open>
  \<open>kp_map\<close> is a device's map with its functions \<open>get\<close> and \<open>get_dead_char\<close>; characters are texts of one
  character.
\<close>

record key_params =
  kp_map :: "int \<Rightarrow> string + ((keycode \<Rightarrow> meta_state \<Rightarrow> string + key_map_char) \<times> (string \<Rightarrow> string \<Rightarrow> string + string option))"
  kp_from_name :: "string \<Rightarrow> egui_key option"
  kp_is_control :: "string \<Rightarrow> bool"

definition key_map_character :: "key_params \<Rightarrow> key_event \<Rightarrow> string option \<Rightarrow> string option \<times> string option" where
  "key_map_character K ev accent =
     (if ke_device ev = 0 then (None, accent)
      else case kp_map K (ke_device ev) of
             Err _ \<Rightarrow> (None, accent)
           | Ok (get_char, get_dead_char) \<Rightarrow>
               (case get_char (ke_code ev) (ke_meta ev) of
                  Ok (Unicode ch) \<Rightarrow>
                    if \<not> ke_down ev then (Some ch, accent)
                    else (case accent of
                            Some acc \<Rightarrow>
                              (case get_dead_char acc ch of
                                 Ok (Some combined) \<Rightarrow> (Some combined, None)
                               | Ok None \<Rightarrow> (Some ch, None)
                               | Err _ \<Rightarrow> (Some ch, None))
                          | None \<Rightarrow> (Some ch, None))
                | Ok (CombiningAccent acc) \<Rightarrow> (None, if ke_down ev then Some acc else accent)
                | Ok NoChar \<Rightarrow> (None, accent)
                | Err _ \<Rightarrow> (None, None)))"

section \<open>Android's text input\<close>

record text_state =
  tx_text :: string
  tx_selection :: "nat \<times> nat"
  tx_compose :: "(nat \<times> nat) option"

datatype ime_command =
  HideSoftInput | SetTextInputState text_state | SetImeEditorInfo | ShowSoftInput bool

record android_ime =
  im_field :: "android_text_field option"
  im_text :: "string option"
  im_selection :: "(nat \<times> nat) option"
  im_compose :: "(nat \<times> nat) option"

definition android_ime_default :: android_ime where
  "android_ime_default = \<lparr>im_field = None, im_text = None, im_selection = None, im_compose = None\<rparr>"

definition ime_update ::
  "text_snapshot option \<Rightarrow> bool \<Rightarrow> android_ime \<Rightarrow> ime_command list \<times> android_ime" where
  "ime_update snapshot user_tapped ime =
     (case snapshot of
        None \<Rightarrow>
          if user_tapped
          then (if im_field ime \<noteq> None
                then ([HideSoftInput], ime\<lparr>im_field := None, im_text := None, im_selection := None, im_compose := None\<rparr>)
                else ([], ime\<lparr>im_field := None\<rparr>))
          else ([], ime)
      | Some snap \<Rightarrow>
          (let selection = (char_index_to_utf16 (ts_text snap) (ts_selection_start snap),
                 char_index_to_utf16 (ts_text snap) (ts_selection_end snap));
               changed_field = (im_field ime \<noteq> Some (ts_field snap));
               changed_state = (changed_field \<or> im_text ime \<noteq> Some (ts_text snap) \<or> im_selection ime \<noteq> Some selection);
               (c1, ime) = (if changed_state
                  then ([SetTextInputState \<lparr>tx_text = ts_text snap, tx_selection = selection, tx_compose = None\<rparr>],
                    ime\<lparr>im_compose := None, im_text := Some (ts_text snap), im_selection := Some selection\<rparr>)
                  else ([], ime));
               c2 = (if changed_field then [SetImeEditorInfo, ShowSoftInput True]
                     else if ts_clicked snap then [ShowSoftInput False] else [])
           in (c1 @ c2, ime\<lparr>im_field := Some (ts_field snap)\<rparr>)))"

definition accept_text_state :: "text_state \<Rightarrow> android_ime \<Rightarrow> android_ime" where
  "accept_text_state st ime =
     ime\<lparr>im_text := Some (tx_text st), im_selection := Some (tx_selection st), im_compose := tx_compose st\<rparr>"

section \<open>Draining the input\<close>

record 'p pointer =
  po_id :: int
  po_pos :: 'p

datatype motion_action = Down | PointerDown | Move | Up | PointerUp | Cancel | OtherMotion

text \<open>A motion event carries its device, the pointer its action is about, and all its pointers.\<close>

datatype 'p input_event =
  MotionEvent int motion_action "'p pointer" "'p pointer list"
| KeyEvent key_event
| TextEvent text_state
| TextAction
| OtherInput

type_synonym 'p input_sys = "'p android_input \<times> android_ime \<times> waker_app"

definition motion_event ::
  "('p \<Rightarrow> 'p) \<Rightarrow> int \<Rightarrow> motion_action \<Rightarrow> 'p pointer \<Rightarrow> 'p pointer list \<Rightarrow> 'p android_input \<Rightarrow> 'p android_input" where
  "motion_event scale device action p ps s =
     (case action of
        Down \<Rightarrow>
          (let s = push_touch device (po_id p) TouchStart (scale (po_pos p)) s
           in if ai_primary s = None then press_primary (po_id p) (scale (po_pos p)) s else s)
      | PointerDown \<Rightarrow>
          (let s = push_touch device (po_id p) TouchStart (scale (po_pos p)) s
           in if ai_primary s = None then press_primary (po_id p) (scale (po_pos p)) s else s)
      | Move \<Rightarrow>
          fold (\<lambda>q s. move_primary (po_id q) (scale (po_pos q))
            (push_touch device (po_id q) TouchMove (scale (po_pos q)) s)) ps s
      | Up \<Rightarrow>
          release_primary (po_id p) (scale (po_pos p)) (push_touch device (po_id p) TouchEnd (scale (po_pos p)) s)
      | PointerUp \<Rightarrow>
          release_primary (po_id p) (scale (po_pos p)) (push_touch device (po_id p) TouchEnd (scale (po_pos p)) s)
      | Cancel \<Rightarrow>
          cancel_primary (fold (\<lambda>q. push_touch device (po_id q) TouchCancel (scale (po_pos q))) ps s)
      | OtherMotion \<Rightarrow> s)"

text \<open>The result tells whether the event was handled.\<close>

definition key_event_input :: "key_params \<Rightarrow> key_event \<Rightarrow> 'p android_input \<Rightarrow> bool \<times> 'p android_input" where
  "key_event_input K ev s =
     (if ke_code ev = KBack then (False, s)
      else (let s = s\<lparr>ai_modifiers := modifiers_of (ke_meta ev)\<rparr>;
                s = push_event (ModifiersChanged (ai_modifiers s)) s;
                (mapped_character, accent) = key_map_character K ev (ai_accent s);
                s = s\<lparr>ai_accent := accent\<rparr>;
                key = (case egui_key_of (ke_code ev) of
                    Some k \<Rightarrow> Some k
                  | None \<Rightarrow> Option.bind mapped_character (kp_from_name K));
                pressed = ke_down ev;
                s = (case key of
                    Some k \<Rightarrow> push_event (KeyChange k pressed (pressed \<and> ke_repeat ev > 0) (ai_modifiers s)) s
                  | None \<Rightarrow> s);
                s = (case mapped_character of
                    Some ch \<Rightarrow>
                      if pressed \<and> \<not> md_ctrl (ai_modifiers s) \<and> \<not> md_command (ai_modifiers s) \<and>
                         \<not> md_mac_cmd (ai_modifiers s) \<and> \<not> kp_is_control K ch
                      then push_event (TextTyped ch) s else s
                  | None \<Rightarrow> s)
            in (key \<noteq> None \<or> mapped_character \<noteq> None, s)))"

definition input_event :: "key_params \<Rightarrow> ('p \<Rightarrow> 'p) \<Rightarrow> 'p input_event \<Rightarrow> 'p input_sys \<Rightarrow> bool \<times> 'p input_sys" where
  "input_event K scale ev s =
     (let (inp, ime, a) = s
      in case ev of
           MotionEvent device action p ps \<Rightarrow> (True, motion_event scale device action p ps inp, ime, a)
         | KeyEvent k \<Rightarrow> (let (handled, inp) = key_event_input K k inp in (handled, inp, ime, a))
         | TextEvent st \<Rightarrow>
             (let selection_start = utf16_index_to_char (tx_text st) (fst (tx_selection st));
                  selection_end = utf16_index_to_char (tx_text st) (snd (tx_selection st))
              in (True, inp, accept_text_state st ime,
                    apply_android_text_input_state (tx_text st) selection_start selection_end a))
         | TextAction \<Rightarrow>
             (True, push_event (KeyChange Enter False False (ai_modifiers inp))
                (push_event (KeyChange Enter True False (ai_modifiers inp)) inp), ime, a)
         | OtherInput \<Rightarrow> (False, inp, ime, a))"

text \<open>\<open>None\<close> when the events cannot be had.\<close>

definition drain_input :: "key_params \<Rightarrow> ('p \<Rightarrow> 'p) \<Rightarrow> 'p input_event list option \<Rightarrow> 'p input_sys \<Rightarrow> 'p input_sys" where
  "drain_input K scale evs s =
     (case evs of None \<Rightarrow> s | Some evs \<Rightarrow> fold (\<lambda>ev s. snd (input_event K scale ev s)) evs s)"

section \<open>One pointer at a time\<close>

text \<open>What egui may rely on: a pointer appears, is pressed, moves, and is released or gone.\<close>

datatype pointer_phase = Away | Hovering | Pressed | Released

fun next_pointer :: "pointer_phase \<Rightarrow> 'p egui_event \<Rightarrow> pointer_phase option" where
  "next_pointer Away (PointerMoved p) = Some Hovering"
| "next_pointer Hovering (PointerButton p True md) = Some Pressed"
| "next_pointer Pressed (PointerMoved p) = Some Pressed"
| "next_pointer Pressed (PointerButton p False md) = Some Released"
| "next_pointer Pressed PointerGone = Some Away"
| "next_pointer Released PointerGone = Some Away"
| "next_pointer ph (PointerMoved p) = None"
| "next_pointer ph (PointerButton p b md) = None"
| "next_pointer ph PointerGone = None"
| "next_pointer ph ev = Some ph"

fun pointer_run :: "pointer_phase \<Rightarrow> 'p egui_event list \<Rightarrow> pointer_phase option" where
  "pointer_run ph [] = Some ph"
| "pointer_run ph (ev # evs) = Option.bind (next_pointer ph ev) (\<lambda>ph. pointer_run ph evs)"

lemma pointer_run_append: "pointer_run ph (xs @ ys) = Option.bind (pointer_run ph xs) (\<lambda>ph. pointer_run ph ys)"
  by (induction xs arbitrary: ph) (auto split: bind_splits)

definition phase_of :: "'p android_input \<Rightarrow> pointer_phase" where
  "phase_of s = (if ai_primary s = None then Away else Pressed)"

text \<open>\<open>follows s s'\<close>: the events added lead from the phase of \<open>s\<close> to that of \<open>s'\<close>.\<close>

definition follows :: "'p android_input \<Rightarrow> 'p android_input \<Rightarrow> bool" where
  "follows s s' \<longleftrightarrow> (\<exists>evs. ai_events s' = ai_events s @ evs \<and> pointer_run (phase_of s) evs = Some (phase_of s'))"

lemma follows_refl [simp]: "follows s s"
  by (simp add: follows_def)

lemma follows_trans [trans]: "follows s t \<Longrightarrow> follows t u \<Longrightarrow> follows s u"
  by (auto simp: follows_def pointer_run_append)

lemma follows_events:
  "follows s (push_touch d i ph p s)" "follows s (move_primary i p s)" "follows s (release_primary i p s)"
  "follows s (cancel_primary s)" "ai_primary s = None \<Longrightarrow> follows s (press_primary i p s)"
  "follows s (push_event (KeyChange k b r md) s)" "follows s (push_event (ModifiersChanged md) s)"
  "follows s (push_event (TextTyped t) s)"
  by (auto simp: follows_def push_touch_def move_primary_def release_primary_def cancel_primary_def press_primary_def
      push_event_def phase_of_def Let_def)

lemma follows_fold_of: "(\<And>q s. follows (h s) (h (f q s))) \<Longrightarrow> follows (h s) (h (fold f qs s))"
proof (induction qs arbitrary: s)
  case (Cons q qs)
  have "follows (h s) (h (f q s))" by (rule Cons.prems)
  also have "follows (h (f q s)) (h (fold f qs (f q s)))" by (rule Cons.IH) (rule Cons.prems)
  finally show ?case by simp
qed simp

lemmas follows_fold = follows_fold_of [where h = "\<lambda>s. s"]

lemma follows_motion: "follows s (motion_event scale d action p ps s)"
proof -
  have down: "follows s (let s = push_touch d i TouchStart q s in if ai_primary s = None then press_primary i q s else s)" for i q
    by (auto simp: Let_def intro: follows_events follows_trans)
  have moves: "follows s (move_primary i q (push_touch d j ph q' s))" for i j q q' ph and s :: "'a android_input"
    by (rule follows_trans [OF follows_events(1) follows_events(2)])
  have "follows s (fold (\<lambda>q s. move_primary (po_id q) (scale (po_pos q))
      (push_touch d (po_id q) TouchMove (scale (po_pos q)) s)) ps s)"
    by (rule follows_fold) (rule moves)
  moreover have "follows s (cancel_primary (fold (\<lambda>q. push_touch d (po_id q) TouchCancel (scale (po_pos q))) ps s))"
    by (rule follows_trans [OF follows_fold follows_events(4)]) (rule follows_events(1))
  moreover have "follows s (release_primary i q (push_touch d j ph q' s))" for i j q q' ph
    by (rule follows_trans [OF follows_events(1) follows_events(3)])
  ultimately show ?thesis using down by (auto simp: motion_event_def split: motion_action.splits)
qed


lemma follows_key: "follows s (snd (key_event_input K ev s))"
  by (simp add: key_event_input_def follows_def phase_of_def push_event_def Let_def case_prod_beta
      split: option.splits)

lemma follows_input: "follows (fst s) (fst (snd (input_event K scale ev s)))"
proof -
  obtain inp ime a where s: "s = (inp, ime, a)" by (cases s) auto
  show ?thesis
  proof (cases ev)
    case (KeyEvent k)
    then show ?thesis using follows_key [of inp K k] by (simp add: s input_event_def case_prod_beta Let_def)
  next
    case TextAction
    have "follows inp (push_event (KeyChange Enter False False (ai_modifiers inp))
        (push_event (KeyChange Enter True False (ai_modifiers inp)) inp))"
      by (rule follows_trans [OF follows_events(6) follows_events(6)])
    then show ?thesis using TextAction by (simp add: s input_event_def)
  qed (simp_all add: s input_event_def follows_motion Let_def)
qed

lemma follows_drain: "follows (fst s) (fst (drain_input K scale evs s))"
  by (cases evs) (simp_all add: drain_input_def follows_fold_of [where h = fst] follows_input)

section \<open>Android's own text does not come back\<close>

definition is_text :: "'p input_event \<Rightarrow> bool" where
  "is_text ev \<longleftrightarrow> (case ev of TextEvent _ \<Rightarrow> True | _ \<Rightarrow> False)"

definition on_boundary :: "string \<Rightarrow> nat \<Rightarrow> bool" where
  "on_boundary s u \<longleftrightarrow> u \<in> set (map (char_index_to_utf16 s) [0..<Suc (length (chars s))])"

lemma on_boundary_back: "on_boundary s u \<Longrightarrow> char_index_to_utf16 s (utf16_index_to_char s u) = u"
  by (auto simp: on_boundary_def utf16_of_char_index simp del: upt_Suc)

text \<open>What Android last sent is what the input method and the application hold.\<close>

definition took_text :: "android_text_field \<Rightarrow> text_state \<Rightarrow> android_ime \<times> waker_app \<Rightarrow> bool" where
  "took_text f st s \<longleftrightarrow>
     im_field (fst s) = Some f \<and> im_text (fst s) = Some (tx_text st) \<and> im_selection (fst s) = Some (tx_selection st) \<and>
     field_text f (snd s) = tx_text st \<and>
     wa_selection_override (snd s) = Some (f, utf16_index_to_char (tx_text st) (fst (tx_selection st)),
       utf16_index_to_char (tx_text st) (snd (tx_selection st)))"

definition shows_field :: "android_text_field \<Rightarrow> android_ime \<times> waker_app \<Rightarrow> bool" where
  "shows_field f s \<longleftrightarrow> im_field (fst s) = Some f \<and> map_option ts_field (wa_text_input (snd s)) = Some f"

lemma field_text_set [simp]: "field_text f (set_field_text f t a) = t"
  by (cases f) simp_all

lemma field_text_other_fields [simp]:
  "field_text f (a\<lparr>wa_selection_override := x\<rparr>) = field_text f a"
  "field_text f (a\<lparr>wa_text_input := y\<rparr>) = field_text f a"
  by (cases f; simp)+

lemma set_field_text_other_fields [simp]:
  "wa_text_input (set_field_text f t a) = wa_text_input a"
  "wa_selection_override (set_field_text f t a) = wa_selection_override a"
  by (cases f; simp)+

lemma set_field_text_same [simp]: "set_field_text f (field_text f a) a = a"
  by (cases f) simp_all

lemma input_event_shows:
  "shows_field f (snd s) \<Longrightarrow> shows_field f (snd (snd (input_event K scale ev s)))"
  by (cases s; cases ev)
    (auto simp: input_event_def shows_field_def accept_text_state_def apply_android_text_input_state_def Let_def case_prod_beta
      split: option.splits)

lemma input_event_took:
  "shows_field f (snd s) \<Longrightarrow> took_text f st (snd (snd (input_event K scale (TextEvent st) s)))"
  by (cases s) (auto simp: input_event_def shows_field_def took_text_def accept_text_state_def
      apply_android_text_input_state_def Let_def)

lemma input_event_keeps:
  "\<not> is_text ev \<Longrightarrow> snd (snd (input_event K scale ev s)) = snd s"
  by (cases s; cases ev) (auto simp: input_event_def is_text_def Let_def case_prod_beta)

lemma drain_took:
  assumes "shows_field f (snd s)" "\<not> list_ex is_text rest"
  shows "took_text f st (snd (drain_input K scale (Some (first @ TextEvent st # rest)) s))"
proof -
  let ?step = "\<lambda>ev s. snd (input_event K scale ev s)"
  have "shows_field f (snd (fold ?step first s))"
    by (rule fold_invariant [where Q = "\<lambda>_. True" and P = "\<lambda>s. shows_field f (snd s)"])
      (simp_all add: assms(1) input_event_shows)
  then have "took_text f st (snd (?step (TextEvent st) (fold ?step first s)))"
    by (rule input_event_took)
  moreover have "snd (fold ?step rest t) = snd t" for t
    using assms(2) by (induction rest arbitrary: t) (simp_all add: input_event_keeps)
  ultimately show ?thesis by (simp add: drain_input_def)
qed

text \<open>C29: \<^bold>\<open>what goes back to Android's text input\<close>. When the text input shows a field and Android sends
  texts for it, the application's field holds the last of them. If in the next frame the field has the focus and the
  user changes nothing there, a text state, which would restart Android's input connection, is sent back exactly
  when the ends of egui's cursor range, counted as Android counts them, are not the selection Android sent; and a
  tap on the field reopens the keyboard. So nothing is sent back for a caret between two characters, whose range
  has the same two ends however egui orders them.\<close>

theorem ime_echo_suppressed:
  assumes "shows_field f (snd s)" "\<not> list_ex is_text rest"
    and "drain_input K scale (Some (first @ TextEvent st # rest)) s = (inp, ime, a)"
    and "mc_platform m \<noteq> Desktop" "fo_focus out" "fo_edit out (tx_text st) = tx_text st"
    and "edit_field P f out (a, m) = (ws, a', m')"
  shows "ws = [TextField (tx_text st)] \<and>
    (let i = utf16_index_to_char (tx_text st) (fst (tx_selection st));
         j = utf16_index_to_char (tx_text st) (snd (tx_selection st));
         selection = (char_index_to_utf16 (tx_text st) (fst (ap_two P i j)), char_index_to_utf16 (tx_text st) (snd (ap_two P i j)))
     in fst (ime_update (wa_text_input a') tapped ime) =
          (if selection = tx_selection st then []
           else [SetTextInputState \<lparr>tx_text = tx_text st, tx_selection = selection, tx_compose = None\<rparr>]) @
          (if fo_clicked out then [ShowSoftInput False] else [])
        \<and> (\<forall>u. tx_selection st = (u, u) \<and> on_boundary (tx_text st) u \<and> ap_two P i j \<in> {(i, j), (j, i)} \<longrightarrow>
              selection = tx_selection st))"
proof -
  have took: "took_text f st (ime, a)" using drain_took [OF assms(1,2), of st K scale first] assms(3) by simp
  let ?i = "utf16_index_to_char (tx_text st) (fst (tx_selection st))"
  let ?j = "utf16_index_to_char (tx_text st) (snd (tx_selection st))"
  have content: "field_text f a = tx_text st" and over: "wa_selection_override a = Some (f, ?i, ?j)"
    using took by (simp_all add: took_text_def)
  have same: "set_field_text f (tx_text st) a = a"
    using set_field_text_same [of f a] content by simp
  have a': "a' = capture_text_edit (ap_two P) f out a" "ws = [TextField (field_text f a')]"
    using assms(4,6,7) content same by (auto simp: edit_field_def Let_def split: platform.splits)
  have snap: "wa_text_input a' = Some \<lparr>ts_field = f, ts_text = tx_text st, ts_selection_start = fst (ap_two P ?i ?j),
      ts_selection_end = snd (ap_two P ?i ?j), ts_clicked = fo_clicked out\<rparr>" "field_text f a' = tx_text st"
    using assms(5) content by (auto simp: a' capture_text_edit_def over Let_def case_prod_beta)
  have "char_index_to_utf16 (tx_text st) (fst (ap_two P ?i ?j)) = u \<and> char_index_to_utf16 (tx_text st) (snd (ap_two P ?i ?j)) = u"
    if "tx_selection st = (u, u)" "on_boundary (tx_text st) u" "ap_two P ?i ?j \<in> {(?i, ?j), (?j, ?i)}" for u
    using that on_boundary_back [OF that(2)] by auto
  then show ?thesis
    using took by (auto simp: snap a'(2) ime_update_def Let_def took_text_def)
qed

definition test_typing :: "unit input_sys" where
  "test_typing =
     (android_input_default, android_ime_default\<lparr>im_field := Some FritzIp\<rparr>,
      test_app\<lparr>wa_text_input := Some \<lparr>ts_field = FritzIp, ts_text = ''1'', ts_selection_start = 1,
        ts_selection_end = 1, ts_clicked = True\<rparr>\<rparr>)"

definition test_text :: text_state where
  "test_text = \<lparr>tx_text = ''10'', tx_selection = (2, 2), tx_compose = None\<rparr>"

definition test_keys :: key_params where
  "test_keys = \<lparr>kp_map = (\<lambda>_. Err ''none''), kp_from_name = (\<lambda>_. None), kp_is_control = (\<lambda>_. False)\<rparr>"

theorem ime_echo_suppressed_witness:
  "\<exists>inp ime a a' m' ws. drain_input test_keys id (Some [TextEvent test_text]) test_typing = (inp, ime, a) \<and>
     edit_field test_params FritzIp (untouched\<lparr>fo_focus := True\<rparr>) (a, test_machine\<lparr>mc_platform := Android None\<rparr>) = (ws, a', m') \<and>
     fst (ime_update (wa_text_input a') True ime) = []"
proof -
  obtain inp ime a where d: "drain_input test_keys id (Some ([] @ TextEvent test_text # [])) test_typing = (inp, ime, a)"
    by (metis prod_cases3)
  obtain a' m' ws where e:
    "edit_field test_params FritzIp (untouched\<lparr>fo_focus := True\<rparr>) (a, test_machine\<lparr>mc_platform := Android None\<rparr>) = (ws, a', m')"
    by (metis prod_cases3)
  have two: "utf16_index_to_char (tx_text test_text) (fst (tx_selection test_text)) = 2"
    "utf16_index_to_char (tx_text test_text) (snd (tx_selection test_text)) = 2" and
    ends: "on_boundary (tx_text test_text) 2" "char_index_to_utf16 (tx_text test_text) 2 = 2" "tx_selection test_text = (2, 2)"
    by code_simp+
  have "shows_field FritzIp (snd test_typing)" by (simp add: shows_field_def test_typing_def)
  then have "fst (ime_update (wa_text_input a') True ime) =
      (if fo_clicked (untouched\<lparr>fo_focus := True\<rparr>) then [ShowSoftInput False] else [])"
    using ime_echo_suppressed [OF _ _ d _ _ _ e, of True] two ends
    by (simp add: test_params_def untouched_def)
  then show ?thesis using d e by (auto simp: untouched_def)
qed

text \<open>If egui's range turns its ends round, a range that Android selected is sent back reversed.\<close>

lemma range_needs_order:
  assumes "ap_two P 0 1 = (1, 0)"
  shows "fst (ime_update (wa_text_input (capture_text_edit (ap_two P) FritzIp (untouched\<lparr>fo_focus := True\<rparr>)
      (a\<lparr>wa_fritz_ip := ''10'', wa_selection_override := Some (FritzIp, 0, 1)\<rparr>))) False
      (accept_text_state \<lparr>tx_text = ''10'', tx_selection = (0, 1), tx_compose = None\<rparr> (android_ime_default\<lparr>im_field := Some FritzIp\<rparr>)))
    = [SetTextInputState \<lparr>tx_text = ''10'', tx_selection = (1, 0), tx_compose = None\<rparr>]"
proof -
  have "char_index_to_utf16 ''10'' 0 = 0" "char_index_to_utf16 ''10'' 1 = 1" by code_simp+
  moreover have "ap_two P 0 (Suc 0) = (Suc 0, 0)" using assms by simp
  ultimately show ?thesis
    by (simp add: ime_update_def capture_text_edit_def accept_text_state_def android_ime_default_def untouched_def Let_def)
qed

section \<open>Repaints fall due\<close>

definition due_by :: "instant \<Rightarrow> instant option \<Rightarrow> bool" where
  "due_by t d \<longleftrightarrow> (case d of None \<Rightarrow> False | Some value \<Rightarrow> value \<le> t)"

lemma due_by_request: "due_by (t + delay) (repaint_request t delay d)"
  by (auto simp: due_by_def repaint_request_def Let_def split: option.split)

lemma due_by_keeps: "due_by t d \<Longrightarrow> due_by t (repaint_request t' delay d)"
  by (auto simp: due_by_def repaint_request_def Let_def split: option.splits)

lemma due_by_mono: "due_by t d \<Longrightarrow> t \<le> t' \<Longrightarrow> due_by t' d"
  by (auto simp: due_by_def split: option.splits)

lemma due_by_timeout: "due_by t d \<Longrightarrow> \<exists>w. repaint_timeout u d = Some w \<and> w \<le> t - u"
  by (auto simp: due_by_def repaint_timeout_def diff_le_mono split: option.splits)

lemma due_by_taken: "due_by t d \<Longrightarrow> t \<le> u \<Longrightarrow> repaint_take_if_due u d = (True, None)"
  by (auto simp: due_by_def repaint_take_if_due_def split: option.splits)

end
