(* ===== verification/Android_Gpu.thy ===== *)
theory Android_Gpu
  imports App_Ui
begin

text \<open>
  The render surface on Android, \<open>AndroidGpu\<close> of \<open>crates/waker-app/src/android.rs\<close>: which window it
  is attached to, how it is configured, and what one \<open>paint\<close> has the GPU do. wgpu is a device that
  hands out surfaces by number, remembers how each was configured and logs the commands it is given.
\<close>

section \<open>The model\<close>

datatype present_mode = AutoVsync | OtherMode nat

record surface_config =
  sc_width :: nat
  sc_height :: nat
  sc_format :: nat
  sc_present_mode :: present_mode
  sc_latency :: nat

text \<open>
  \<open>AcquireTexture\<close> names the surface and how it was configured when its texture was asked for; the
  sizes of \<open>Render\<close> are those of the screen descriptor.
\<close>

datatype gpu_command =
  AcquireTexture nat "surface_config option"
| UpdateTexture nat nat
| UpdateBuffers
| Render "nat \<times> nat"
| Submit
| Present nat
| FreeTexture nat

record gpu_device =
  gd_fresh :: nat
  gd_configured :: "nat \<Rightarrow> surface_config option"
  gd_commands :: "gpu_command list"

record android_gpu =
  gp_target_format :: nat
  gp_surface :: "nat option"
  gp_surface_config :: "surface_config option"

text \<open>
  What Android and wgpu answer: the size of the native window, its handle, the surface made of it, the
  render state of a new GPU with its format, and the default configuration of a surface.
\<close>

record gpu_env =
  ge_window :: "(int \<times> int) option"
  ge_handle :: "string + unit"
  ge_create :: "string + unit"
  ge_state :: "string + nat"
  ge_default :: "nat \<Rightarrow> nat \<Rightarrow> surface_config option"

datatype surface_texture = Success | Suboptimal | Outdated | Lost | TextureTimeout | Occluded | Validation

text \<open>What egui gives for a frame: its textures' changes, and what it wants of the platform.\<close>

datatype output_command = CopyTextCommand string | CopyImageCommand | OpenUrlCommand string

record full_output =
  fu_set :: "(nat \<times> nat list) list"
  fu_free :: "nat list"
  fu_commands :: "output_command list"

type_synonym gpu_sys = "android_gpu \<times> gpu_device"

abbreviation map_ok :: "('a \<Rightarrow> 'b) \<Rightarrow> 'e + 'a \<Rightarrow> 'e + 'b" where
  "map_ok \<equiv> map_sum id"

definition log_gpu :: "gpu_command list \<Rightarrow> gpu_device \<Rightarrow> gpu_device" where
  "log_gpu cs d = d\<lparr>gd_commands := gd_commands d @ cs\<rparr>"

definition create_surface :: "gpu_env \<Rightarrow> gpu_device \<Rightarrow> (string + nat) \<times> gpu_device" where
  "create_surface e d =
     (case ge_handle e of
        Err error \<Rightarrow> (Err (''could not get Android window handle: '' @ error), d)
      | Ok _ \<Rightarrow>
          (case ge_create e of
             Err error \<Rightarrow> (Err (''could not create Android wgpu surface: '' @ error), d)
           | Ok _ \<Rightarrow> (Ok (gd_fresh d), d\<lparr>gd_fresh := Suc (gd_fresh d),
               gd_configured := (gd_configured d)(gd_fresh d := None)\<rparr>)))"

definition gpu_configure :: "gpu_env \<Rightarrow> nat \<Rightarrow> nat \<Rightarrow> gpu_sys \<Rightarrow> (string + unit) \<times> gpu_sys" where
  "gpu_configure e width height s =
     (let (g, d) = s
      in case gp_surface g of
           None \<Rightarrow> (Err ''Android render surface is unavailable'', g, d)
         | Some surface \<Rightarrow>
             (case ge_default e width height of
                None \<Rightarrow> (Err ''Android surface is incompatible with the selected GPU'', g, d)
              | Some config \<Rightarrow>
                  (let config = config\<lparr>sc_format := gp_target_format g, sc_present_mode := AutoVsync, sc_latency := 1\<rparr>
                   in (Ok (), g\<lparr>gp_surface_config := Some config\<rparr>,
                       d\<lparr>gd_configured := (gd_configured d)(surface := Some config)\<rparr>))))"

definition window_size :: "gpu_env \<Rightarrow> string + nat \<times> nat" where
  "window_size e =
     map_ok (\<lambda>(width, height). (nat (max 1 width), nat (max 1 height)))
       (ok_or ''Android native window is unavailable'' (ge_window e))"

definition gpu_new :: "gpu_env \<Rightarrow> gpu_device \<Rightarrow> (string + android_gpu) \<times> gpu_device" where
  "gpu_new e d =
     (case window_size e of
        Err error \<Rightarrow> (Err error, d)
      | Ok (width, height) \<Rightarrow>
          (case create_surface e d of
             (Err error, d) \<Rightarrow> (Err error, d)
           | (Ok surface, d) \<Rightarrow>
               (case ge_state e of
                  Err error \<Rightarrow> (Err (''could not initialise Android wgpu: '' @ error), d)
                | Ok format \<Rightarrow>
                    (case gpu_configure e width height
                            (\<lparr>gp_target_format = format, gp_surface = Some surface, gp_surface_config = None\<rparr>, d) of
                       (Err error, g, d) \<Rightarrow> (Err error, d)
                     | (Ok _, g, d) \<Rightarrow> (Ok g, d)))))"

definition attach_window :: "gpu_env \<Rightarrow> gpu_sys \<Rightarrow> (string + unit) \<times> gpu_sys" where
  "attach_window e s =
     (let (g, d) = s
      in case window_size e of
           Err error \<Rightarrow> (Err error, g, d)
         | Ok (width, height) \<Rightarrow>
             (case create_surface e d of
                (Err error, d) \<Rightarrow> (Err error, g, d)
              | (Ok surface, d) \<Rightarrow> gpu_configure e width height (g\<lparr>gp_surface := Some surface\<rparr>, d)))"

definition detach_window :: "android_gpu \<Rightarrow> android_gpu" where
  "detach_window g = g\<lparr>gp_surface := None, gp_surface_config := None\<rparr>"

definition resize_from_app :: "gpu_env \<Rightarrow> gpu_sys \<Rightarrow> (string + unit) \<times> gpu_sys" where
  "resize_from_app e s =
     (case window_size e of
        Err error \<Rightarrow> (Err error, s)
      | Ok (width, height) \<Rightarrow> gpu_configure e width height s)"

definition gpu_dimensions :: "android_gpu \<Rightarrow> (nat \<times> nat) option" where
  "gpu_dimensions g = map_option (\<lambda>config. (sc_width config, sc_height config)) (gp_surface_config g)"

text \<open>The commands that draw a frame once its texture is there.\<close>

definition frame_commands :: "nat \<Rightarrow> nat \<times> nat \<Rightarrow> full_output \<Rightarrow> gpu_command list" where
  "frame_commands surface screen output =
     concat (map (\<lambda>(i, deltas). map (UpdateTexture i) deltas) (fu_set output)) @
     [UpdateBuffers, Render screen, Submit, Present surface] @ map FreeTexture (fu_free output)"

text \<open>\<open>egui\<close> answers the widgets that the application drew.\<close>

definition gpu_paint ::
  "gpu_env \<Rightarrow> (nat \<Rightarrow> surface_texture) \<Rightarrow> app_params \<Rightarrow> (widget list \<Rightarrow> full_output) \<Rightarrow> ui_input \<Rightarrow>
   gpu_sys \<Rightarrow> app_sys \<Rightarrow> (string + full_output) \<times> gpu_sys \<times> app_sys" where
  "gpu_paint e texture P egui i s app =
     (let (widgets, app) = show_ui P i app;
          output = egui widgets;
          (g, d) = s
      in case gpu_dimensions g of
           None \<Rightarrow> (Ok output, (g, d), app)
         | Some (width, height) \<Rightarrow>
             (case gp_surface g of
                None \<Rightarrow> (Ok output, (g, d), app)
              | Some surface \<Rightarrow>
                  (let d = log_gpu [AcquireTexture surface (gd_configured d surface)] d;
                       drawn = (Ok output, (g, log_gpu (frame_commands surface (width, height) output) d), app)
                   in case texture surface of
                        Success \<Rightarrow> drawn
                      | Suboptimal \<Rightarrow> drawn
                      | Outdated \<Rightarrow>
                          (let (r, s) = gpu_configure e width height (g, d) in (map_ok (\<lambda>_. output) r, s, app))
                      | Lost \<Rightarrow> (let (r, s) = attach_window e (g, d) in (map_ok (\<lambda>_. output) r, s, app))
                      | TextureTimeout \<Rightarrow> (Ok output, (g, d), app)
                      | Occluded \<Rightarrow> (Ok output, (g, d), app)
                      | Validation \<Rightarrow> (Ok output, (g, d), app))))"

section \<open>Only a configured surface is drawn on\<close>

text \<open>The configuration that the program believes in is the one the surface has.\<close>

definition gpu_ok :: "gpu_sys \<Rightarrow> bool" where
  "gpu_ok s \<longleftrightarrow>
     (gp_surface_config (fst s) \<noteq> None \<longrightarrow>
        (\<exists>surface. gp_surface (fst s) = Some surface \<and> gd_configured (snd s) surface = gp_surface_config (fst s)))"

definition drawn_configured :: "gpu_device \<Rightarrow> bool" where
  "drawn_configured d \<longleftrightarrow> (\<forall>surface c. AcquireTexture surface c \<in> set (gd_commands d) \<longrightarrow> c \<noteq> None)"

definition compatible :: "gpu_env \<Rightarrow> bool" where
  "compatible e \<longleftrightarrow> (\<forall>(width, height) \<in> set (case window_size e of Ok wh \<Rightarrow> [wh] | Err _ \<Rightarrow> []). ge_default e width height \<noteq> None)"

lemma create_surface_device [simp]: "gd_commands (snd (create_surface e d)) = gd_commands d"
  by (simp add: create_surface_def split: sum.splits)

lemma gpu_configure_ok: "gpu_ok s \<Longrightarrow> gpu_ok (snd (gpu_configure e width height s))"
  by (auto simp: gpu_configure_def gpu_ok_def Let_def case_prod_beta split: option.splits)

lemma gpu_configure_device [simp]: "gd_commands (snd (snd (gpu_configure e width height s))) = gd_commands (snd s)"
  by (simp add: gpu_configure_def Let_def case_prod_beta split: option.splits)

lemma gpu_new_device [simp]: "gd_commands (snd (gpu_new e d)) = gd_commands d"
proof -
  have "gd_commands d' = gd_commands d" if "create_surface e d = (r, d')" for r d'
    using create_surface_device [of e d] that by simp
  moreover have "gd_commands d' = gd_commands (snd s)" if "gpu_configure e w h s = (r, g, d')" for w h s r g d'
    using gpu_configure_device [of e w h s] that by simp
  ultimately show ?thesis by (fastforce simp: gpu_new_def split: sum.splits prod.splits)
qed

lemma gpu_new_ok: "gpu_new e d = (Ok g, d') \<Longrightarrow> gpu_ok (g, d')"
  by (auto simp: gpu_new_def gpu_configure_def gpu_ok_def Let_def split: sum.splits prod.splits option.splits)

lemma attach_window_device [simp]: "gd_commands (snd (snd (attach_window e s))) = gd_commands (snd s)"
proof -
  have "gd_commands d' = gd_commands d" if "create_surface e d = (r, d')" for r d d'
    using create_surface_device [of e d] that by simp
  then show ?thesis by (auto simp: attach_window_def split: sum.splits prod.splits)
qed

lemma attach_window_ok: "gpu_ok s \<Longrightarrow> compatible e \<Longrightarrow> gpu_ok (snd (attach_window e s))"
  by (auto simp: attach_window_def create_surface_def gpu_configure_def gpu_ok_def compatible_def Let_def
      split: sum.splits prod.splits option.splits)

lemma resize_from_app_ok: "gpu_ok s \<Longrightarrow> gpu_ok (snd (resize_from_app e s))"
  by (auto simp: resize_from_app_def gpu_configure_ok split: sum.splits)

lemma resize_device [simp]: "gd_commands (snd (snd (resize_from_app e s))) = gd_commands (snd s)"
  by (simp add: resize_from_app_def split: sum.splits prod.splits)

lemma detach_window_ok [simp]: "gpu_ok (detach_window g, d)"
  by (simp add: gpu_ok_def detach_window_def)

lemma log_gpu_ok [simp]: "gpu_ok (g, log_gpu cs d) = gpu_ok (g, d)"
  by (simp add: gpu_ok_def log_gpu_def)

lemma frame_commands_acquire: "AcquireTexture surface c \<notin> set (frame_commands surface' screen output)"
  by (auto simp: frame_commands_def)

lemma drawn_configured_log:
  "drawn_configured (log_gpu cs d) \<longleftrightarrow> drawn_configured d \<and> (\<forall>surface c. AcquireTexture surface c \<in> set cs \<longrightarrow> c \<noteq> None)"
  by (auto simp: drawn_configured_def log_gpu_def)

lemma drawn_configured_cong: "gd_commands d = gd_commands d' \<Longrightarrow> drawn_configured d = drawn_configured d'"
  by (simp add: drawn_configured_def)

lemma gpu_paint_ok:
  assumes "gpu_ok s" "compatible e" "drawn_configured (snd s)"
    and "gpu_paint e texture P egui i s app = (r, s', app')"
  shows "gpu_ok s' \<and> drawn_configured (snd s')"
proof -
  obtain g d where s: "s = (g, d)" by force
  obtain widgets app1 where ui: "show_ui P i app = (widgets, app1)" by (rule prod.exhaust)
  show ?thesis
  proof (cases "gp_surface_config g")
    case None
    then show ?thesis using assms by (auto simp: gpu_paint_def ui s gpu_dimensions_def)
  next
    case (Some config)
    with assms(1) obtain surface where on: "gp_surface g = Some surface" "gd_configured d surface = Some config"
      by (auto simp: gpu_ok_def s)
    let ?d = "log_gpu [AcquireTexture surface (Some config)] d"
    have d: "gpu_ok (g, ?d)" "drawn_configured ?d" using assms(1,3) by (auto simp: s drawn_configured_log)
    have c: "gpu_ok (snd (gpu_configure e w h (g, ?d)))" "drawn_configured (snd (snd (gpu_configure e w h (g, ?d))))" for w h
      using gpu_configure_ok [OF d(1)] d(2) drawn_configured_cong [OF gpu_configure_device [of e w h "(g, ?d)"]] by simp_all
    have a: "gpu_ok (snd (attach_window e (g, ?d)))" "drawn_configured (snd (snd (attach_window e (g, ?d))))"
      using attach_window_ok [OF d(1) assms(2)] d(2) drawn_configured_cong [OF attach_window_device [of e "(g, ?d)"]] by simp_all
    have f: "drawn_configured (log_gpu (frame_commands surface screen out) ?d)" for screen out
      using d(2) by (simp add: drawn_configured_log frame_commands_acquire)
    show ?thesis
      using assms(4) d c a f
      by (cases "texture surface") (auto simp: gpu_paint_def ui s gpu_dimensions_def Some on case_prod_beta Let_def)
  qed
qed

text \<open>Where a lost surface's successor cannot be configured, the next frame draws on it all the same.\<close>

definition lost_env :: gpu_env where
  "lost_env = \<lparr>ge_window = Some (4, 3), ge_handle = Ok (), ge_create = Ok (), ge_state = Ok 0, ge_default = (\<lambda>_ _. None)\<rparr>"

lemma lost_surface_unconfigured:
  assumes "gp_surface_config g = Some config" "gp_surface g = Some surface"
  shows "let (r, s', app') = gpu_paint lost_env (\<lambda>_. Lost) P egui i (g, d) app;
             (r', s'', app'') = gpu_paint lost_env (\<lambda>_. Validation) P egui i s' app'
         in AcquireTexture (gd_fresh d) None \<in> set (gd_commands (snd s''))"
  by (simp add: gpu_paint_def assms gpu_dimensions_def attach_window_def window_size_def lost_env_def create_surface_def
      gpu_configure_def log_gpu_def case_prod_beta Let_def)

end
