(* ===== verification/Android_Main.thy ===== *)
theory Android_Main
  imports Android_Input Android_Gpu
begin

text \<open>
  The activity's loop on Android, \<open>android_main\<close> of \<open>crates/waker-app/src/android.rs\<close>: window events,
  input, the repaint deadline and frames, around the application of \<open>App_Ui\<close>. Lengths in points are an
  arbitrary type \<open>'f\<close>; egui and the system are the fields of \<open>loop_turn\<close>.
\<close>

section \<open>The input of a frame\<close>

record system_insets =
  is_left :: int
  is_top :: int
  is_right :: int
  is_bottom :: int

record ('p, 'f) raw_input =
  rw_screen :: "'f \<times> 'f"
  rw_time :: duration
  rw_focused :: bool
  rw_events :: "'p egui_event list"
  rw_title :: string
  rw_safe_area :: "('f \<times> 'f \<times> 'f \<times> 'f) option"

text \<open>\<open>points\<close> divides by \<open>pixels_per_point\<close>, \<open>positive\<close> tells whether that is above zero.\<close>

definition apply_android_raw_input ::
  "(nat \<Rightarrow> 'f) \<Rightarrow> bool \<Rightarrow> string + system_insets option \<Rightarrow> system_insets option \<Rightarrow> ('p, 'f) raw_input \<Rightarrow>
   system_insets option \<times> ('p, 'f) raw_input" where
  "apply_android_raw_input points positive answer seen raw =
     (case answer of
        Ok (Some insets) \<Rightarrow>
          (if \<not> positive then (Some insets, raw)
           else (Some insets, raw\<lparr>rw_safe_area := Some (points (nat (max 0 (is_left insets))),
             points (nat (max 0 (is_top insets))), points (nat (max 0 (is_right insets))),
             points (nat (max 0 (is_bottom insets))))\<rparr>))
      | _ \<Rightarrow> (seen, raw))"

definition make_raw_input ::
  "(nat \<Rightarrow> 'f) \<Rightarrow> bool \<Rightarrow> string + system_insets option \<Rightarrow> bool \<Rightarrow> nat \<times> nat \<Rightarrow> duration \<Rightarrow>
   'p android_input \<times> system_insets option \<Rightarrow> ('p, 'f) raw_input \<times> 'p android_input \<times> system_insets option" where
  "make_raw_input points positive answer focused size_in_pixels elapsed s =
     (let (inp, seen) = s;
          raw = \<lparr>rw_screen = (points (fst size_in_pixels), points (snd size_in_pixels)), rw_time = elapsed,
                 rw_focused = focused, rw_events = ai_events inp, rw_title = ''Waker'', rw_safe_area = None\<rparr>;
          inp = inp\<lparr>ai_events := []\<rparr>;
          (seen, raw) = apply_android_raw_input points positive answer seen raw
      in (raw, inp, seen))"

section \<open>The loop\<close>

text \<open>
  \<open>ms_frames\<close>, \<open>ms_ime_commands\<close> and \<open>ms_copied\<close> record what the loop has handed to egui, to Android's
  text input and to its clipboard on egui's request.
\<close>

record ('p, 'f) main_state =
  ms_gpu :: "android_gpu option"
  ms_device :: gpu_device
  ms_input :: "'p android_input"
  ms_ime :: android_ime
  ms_insets :: "system_insets option"
  ms_focused :: bool
  ms_input_available :: bool
  ms_running :: bool
  ms_repaint :: "instant option"
  ms_sys :: app_sys
  ms_frames :: "('p, 'f) raw_input list"
  ms_ime_commands :: "ime_command list"
  ms_copied :: "string list"

datatype main_event =
  Destroy | InitWindow | TerminateWindow | WindowResized | RedrawNeeded | ContentRectChanged | InsetsChanged
| ConfigChanged | Resume | Start | InputAvailable | GainedFocus | LostFocus | Pause | Stop | SaveState | LowMemory
| OtherMain

datatype poll_event = MainEvent main_event | WakeEvent | TimeoutEvent

text \<open>
  One turn: the events of \<open>poll_events\<close>, each with what the system answers and the clock then, the input
  events, the device maps, the clock after the input and at the deadline's check, and what is asked of
  Android, wgpu and egui for a frame.
\<close>

record ('p, 'f) loop_turn =
  tn_polled :: "(poll_event \<times> gpu_env \<times> instant) list"
  tn_input :: "'p input_event list option"
  tn_keys :: key_params
  tn_scale :: "'p \<Rightarrow> 'p"
  tn_drained :: instant
  tn_now :: instant
  tn_points :: "nat \<Rightarrow> 'f"
  tn_positive :: bool
  tn_insets :: "string + system_insets option"
  tn_elapsed :: duration
  tn_env :: gpu_env
  tn_texture :: "nat \<Rightarrow> surface_texture"
  tn_ui :: "('p, 'f) raw_input \<Rightarrow> ui_input"
  tn_egui :: "('p, 'f) raw_input \<Rightarrow> widget list \<Rightarrow> full_output"

definition main_request :: "instant \<Rightarrow> duration \<Rightarrow> ('p, 'f) main_state \<Rightarrow> ('p, 'f) main_state" where
  "main_request t delay s = s\<lparr>ms_repaint := repaint_request t delay (ms_repaint s)\<rparr>"

text \<open>Errors of the surface are only logged.\<close>

definition init_window :: "gpu_env \<Rightarrow> ('p, 'f) main_state \<Rightarrow> ('p, 'f) main_state" where
  "init_window e s =
     (case ms_gpu s of
        Some g \<Rightarrow> (let (r, g, d) = attach_window e (g, ms_device s) in s\<lparr>ms_gpu := Some g, ms_device := d\<rparr>)
      | None \<Rightarrow>
          (case gpu_new e (ms_device s) of
             (Ok g, d) \<Rightarrow> s\<lparr>ms_gpu := Some g, ms_device := d\<rparr>
           | (Err error, d) \<Rightarrow> s\<lparr>ms_device := d\<rparr>))"

definition window_resized :: "gpu_env \<Rightarrow> ('p, 'f) main_state \<Rightarrow> ('p, 'f) main_state" where
  "window_resized e s =
     (case ms_gpu s of
        Some g \<Rightarrow> (let (r, g, d) = resize_from_app e (g, ms_device s) in s\<lparr>ms_gpu := Some g, ms_device := d\<rparr>)
      | None \<Rightarrow> s)"

definition main_event_step :: "main_event \<Rightarrow> gpu_env \<Rightarrow> instant \<Rightarrow> ('p, 'f) main_state \<Rightarrow> ('p, 'f) main_state" where
  "main_event_step ev e t s =
     (case ev of
        Destroy \<Rightarrow> s\<lparr>ms_gpu := None, ms_running := False\<rparr>
      | InitWindow \<Rightarrow> main_request t 0 (init_window e s)
      | TerminateWindow \<Rightarrow> s\<lparr>ms_gpu := map_option detach_window (ms_gpu s)\<rparr>
      | WindowResized \<Rightarrow> main_request t 0 (window_resized e s)
      | RedrawNeeded \<Rightarrow> main_request t 0 s
      | ContentRectChanged \<Rightarrow> main_request t 0 s
      | InsetsChanged \<Rightarrow> main_request t 0 s
      | ConfigChanged \<Rightarrow> main_request t 0 s
      | Resume \<Rightarrow> main_request t 0 s
      | Start \<Rightarrow> main_request t 0 s
      | InputAvailable \<Rightarrow> s\<lparr>ms_input_available := True\<rparr>
      | GainedFocus \<Rightarrow> main_request t 0 (s\<lparr>ms_focused := True\<rparr>)
      | LostFocus \<Rightarrow> main_request t 0 (s\<lparr>ms_focused := False\<rparr>)
      | Pause \<Rightarrow> s
      | Stop \<Rightarrow> s
      | SaveState \<Rightarrow> s
      | LowMemory \<Rightarrow> s
      | OtherMain \<Rightarrow> s)"

definition poll_event_step :: "poll_event \<times> gpu_env \<times> instant \<Rightarrow> ('p, 'f) main_state \<Rightarrow> ('p, 'f) main_state" where
  "poll_event_step polled s =
     (case polled of
        (MainEvent ev, e, t) \<Rightarrow> main_event_step ev e t s
      | (WakeEvent, e, t) \<Rightarrow> s
      | (TimeoutEvent, e, t) \<Rightarrow> s)"

definition copies :: "output_command list \<Rightarrow> string list" where
  "copies cs = concat (map (\<lambda>c. case c of CopyTextCommand t \<Rightarrow> [t] | _ \<Rightarrow> []) cs)"

definition handle_platform_output :: "full_output \<Rightarrow> bool \<Rightarrow> ('p, 'f) main_state \<Rightarrow> ('p, 'f) main_state" where
  "handle_platform_output out user_tapped s =
     (let (commands, ime) = ime_update (wa_text_input (fst (ms_sys s))) user_tapped (ms_ime s)
      in s\<lparr>ms_ime := ime, ms_ime_commands := ms_ime_commands s @ commands,
           ms_copied := ms_copied s @ copies (fu_commands out)\<rparr>)"

definition main_drain :: "('p, 'f) loop_turn \<Rightarrow> ('p, 'f) main_state \<Rightarrow> ('p, 'f) main_state" where
  "main_drain t s =
     (if ms_input_available s
      then (let (inp, ime, a) = drain_input (tn_keys t) (tn_scale t) (tn_input t) (ms_input s, ms_ime s, fst (ms_sys s))
            in main_request (tn_drained t) 0
                 (s\<lparr>ms_input := inp, ms_ime := ime, ms_sys := (a, snd (ms_sys s)), ms_input_available := False\<rparr>))
      else s)"

definition main_frame ::
  "app_params \<Rightarrow> ('p, 'f) loop_turn \<Rightarrow> android_gpu \<Rightarrow> nat \<times> nat \<Rightarrow> ('p, 'f) main_state \<Rightarrow> ('p, 'f) main_state" where
  "main_frame P t g screen s =
     (let user_tapped = ai_pressed (ms_input s);
          s = s\<lparr>ms_input := (ms_input s)\<lparr>ai_pressed := False\<rparr>\<rparr>;
          (raw, inp, seen) = make_raw_input (tn_points t) (tn_positive t) (tn_insets t) (ms_focused s) screen (tn_elapsed t)
            (ms_input s, ms_insets s);
          s = s\<lparr>ms_input := inp, ms_insets := seen, ms_frames := ms_frames s @ [raw]\<rparr>;
          (r, (g, d), app) = gpu_paint (tn_env t) (tn_texture t) P (tn_egui t raw) (tn_ui t raw) (g, ms_device s) (ms_sys s);
          s = s\<lparr>ms_gpu := Some g, ms_device := d, ms_sys := app\<rparr>
      in case r of
           Ok out \<Rightarrow> handle_platform_output out user_tapped s
         | Err error \<Rightarrow> s)"

definition android_turn :: "app_params \<Rightarrow> ('p, 'f) loop_turn \<Rightarrow> ('p, 'f) main_state \<Rightarrow> ('p, 'f) main_state" where
  "android_turn P t s =
     (let s = fold poll_event_step (tn_polled t) s
      in if \<not> ms_running s then s
         else (let s = main_drain t s;
                   (due, deadline) = repaint_take_if_due (tn_now t) (ms_repaint s);
                   s = s\<lparr>ms_repaint := deadline\<rparr>
               in if \<not> due then s
                  else (case ms_gpu s of
                          None \<Rightarrow> s
                        | Some g \<Rightarrow>
                            (case gpu_dimensions g of
                               None \<Rightarrow> s
                             | Some screen \<Rightarrow> main_frame P t g screen s))))"

definition android_start ::
  "(string \<Rightarrow> string option) \<Rightarrow> string option \<Rightarrow> diagnostics_info \<Rightarrow> instant \<Rightarrow> machine \<Rightarrow> gpu_device \<Rightarrow> ('p, 'f) main_state" where
  "android_start env internal_data_path info t m d =
     (let default_config_path = map_option (\<lambda>path. path_join path ''waker.local.conf'') internal_data_path
      in \<lparr>ms_gpu = None, ms_device = d, ms_input = android_input_default, ms_ime = android_ime_default,
          ms_insets = None, ms_focused = False, ms_input_available = False, ms_running = True,
          ms_repaint = repaint_new t, ms_sys = (app_new env info default_config_path m, m),
          ms_frames = [], ms_ime_commands = [], ms_copied = []\<rparr>)"

text \<open>
  The loop with the application's threads and the system around it: a turn, a request for a repaint from
  any thread, a step that is not the loop's. \<open>C\<close> restricts what the system answers on windows.
\<close>

definition turn_envs :: "('p, 'f) loop_turn \<Rightarrow> gpu_env list" where
  "turn_envs t = tn_env t # map (fst \<circ> snd) (tn_polled t)"

inductive android_reachable :: "app_params \<Rightarrow> (gpu_env \<Rightarrow> bool) \<Rightarrow> ('p, 'f) main_state \<Rightarrow> thread list \<Rightarrow> bool" for P C where
  starts: "mc_workers m = [] \<Longrightarrow> mc_commands m = [] \<Longrightarrow> gd_commands d = [] \<Longrightarrow>
    android_reachable P C (android_start env path info t m d) []"
| turns: "android_reachable P C s ths \<Longrightarrow> ms_running s \<Longrightarrow> list_all C (turn_envs t) \<Longrightarrow>
    android_reachable P C (android_turn P t s) ths"
| asks: "android_reachable P C s ths \<Longrightarrow> android_reachable P C (main_request t delay s) ths"
| others: "android_reachable P C s ths \<Longrightarrow> app_step P (fst (ms_sys s), snd (ms_sys s), ths) (fst (ms_sys s), m, ths') \<Longrightarrow>
    android_reachable P C (s\<lparr>ms_sys := (fst (ms_sys s), m)\<rparr>) ths'"

section \<open>What a turn is made of\<close>

text \<open>A property that polling, draining and a frame keep is kept by a turn.\<close>

lemma android_turn_keeps:
  assumes "Q s" "list_all C (turn_envs t)"
    and polled: "\<And>ev e u s. Q s \<Longrightarrow> C e \<Longrightarrow> Q (poll_event_step (ev, e, u) s)"
    and drained: "\<And>s. Q s \<Longrightarrow> Q (main_drain t s)"
    and deadline: "\<And>s x. Q s \<Longrightarrow> Q (s\<lparr>ms_repaint := x\<rparr>)"
    and frame: "\<And>s g screen. Q s \<Longrightarrow> C (tn_env t) \<Longrightarrow> ms_gpu s = Some g \<Longrightarrow> gpu_dimensions g = Some screen \<Longrightarrow>
      Q (main_frame P t g screen s)"
  shows "Q (android_turn P t s)"
proof -
  have C: "C (tn_env t)" "\<forall>x \<in> set (tn_polled t). C (fst (snd x))"
    using assms(2) by (auto simp: turn_envs_def list_all_iff)
  have "Q (fold poll_event_step (tn_polled t) s)"
    by (rule fold_invariant [where Q = "\<lambda>x. C (fst (snd x))" and P = Q]) (use C(2) assms(1) polled in auto)
  then show ?thesis
    using drained deadline frame [OF _ C(1)]
    by (auto simp: android_turn_def Let_def case_prod_beta split: option.splits)
qed

lemma poll_event_sys [simp]:
  "ms_sys (poll_event_step x s) = ms_sys s" "ms_input (poll_event_step x s) = ms_input s"
  "ms_frames (poll_event_step x s) = ms_frames s"
proof -
  obtain ev e t where x: "x = (ev, e, t)" by (cases x)
  have w: "ms_sys (init_window e s) = ms_sys s \<and> ms_input (init_window e s) = ms_input s \<and> ms_frames (init_window e s) = ms_frames s"
    "ms_sys (window_resized e s) = ms_sys s \<and> ms_input (window_resized e s) = ms_input s \<and> ms_frames (window_resized e s) = ms_frames s"
    by (simp_all add: init_window_def window_resized_def case_prod_beta Let_def split: option.split sum.split)
  show "ms_sys (poll_event_step x s) = ms_sys s" "ms_input (poll_event_step x s) = ms_input s"
    "ms_frames (poll_event_step x s) = ms_frames s"
    by (simp_all add: x poll_event_step_def main_event_step_def main_request_def w split: poll_event.split main_event.split)
qed

section \<open>The loop runs the application of \<open>App_Ui\<close>\<close>

definition app_reached :: "app_params \<Rightarrow> thread list \<Rightarrow> ('p, 'f) main_state \<Rightarrow> bool" where
  "app_reached P ths s \<longleftrightarrow> reachable P (fst (ms_sys s), snd (ms_sys s), ths)"

lemma input_event_reached:
  "reachable P (snd (snd s), m, ths) \<Longrightarrow> reachable P (snd (snd (snd (input_event K scale ev s))), m, ths)"
  by (cases s; cases ev)
    (auto simp: input_event_def case_prod_beta Let_def intro: reachable.further app_step.typed)

lemma main_drain_reached: "app_reached P ths s \<Longrightarrow> app_reached P ths (main_drain t s)"
proof -
  assume r: "app_reached P ths s"
  let ?s = "(ms_input s, ms_ime s, fst (ms_sys s))"
  have "reachable P (snd (snd (fold (\<lambda>ev s. snd (input_event (tn_keys t) (tn_scale t) ev s)) evs ?s)), snd (ms_sys s), ths)" for evs
    by (rule fold_invariant [where Q = "\<lambda>_. True" and P = "\<lambda>x. reachable P (snd (snd x), snd (ms_sys s), ths)"])
      (use r in \<open>simp_all add: app_reached_def input_event_reached\<close>)
  then have "reachable P (snd (snd (drain_input (tn_keys t) (tn_scale t) (tn_input t) ?s)), snd (ms_sys s), ths)"
    using r by (simp add: drain_input_def app_reached_def split: option.split)
  then show ?thesis using r by (simp add: main_drain_def app_reached_def main_request_def case_prod_beta Let_def)
qed

lemma gpu_paint_app [simp]: "snd (snd (gpu_paint e texture P egui i s app)) = snd (show_ui P i app)"
  by (simp add: gpu_paint_def case_prod_beta Let_def split: option.split surface_texture.split)

lemma main_frame_sys [simp]:
  "ms_sys (main_frame P t g screen s) =
     snd (show_ui P (tn_ui t (fst (make_raw_input (tn_points t) (tn_positive t) (tn_insets t) (ms_focused s) screen
       (tn_elapsed t) ((ms_input s)\<lparr>ai_pressed := False\<rparr>, ms_insets s)))) (ms_sys s))"
  by (simp add: main_frame_def handle_platform_output_def case_prod_beta Let_def split: sum.split)

lemma main_frame_reached: "app_reached P ths s \<Longrightarrow> app_reached P ths (main_frame P t g screen s)"
  unfolding app_reached_def main_frame_sys
  by (rule reachable.further, assumption, rule app_step.frame) simp

lemma android_app_reached: "android_reachable P C s ths \<Longrightarrow> app_reached P ths s"
proof (induction rule: android_reachable.induct)
  case (starts m d env path info t)
  then show ?case by (simp add: app_reached_def android_start_def Let_def reachable.initial)
next
  case (turns s ths t)
  show ?case
    by (rule android_turn_keeps [where C = "\<lambda>_. True"])
      (use turns.IH in \<open>auto simp: main_drain_reached main_frame_reached list_all_iff\<close>, auto simp: app_reached_def)
next
  case (asks s ths t delay)
  then show ?case by (simp add: app_reached_def main_request_def)
next
  case (others s ths m ths')
  then show ?case by (auto simp: app_reached_def intro: reachable.further)
qed

text \<open>C15: \<^bold>\<open>The Android loop runs the application\<close>. Whatever the windows, the input and the repaint
  requests do, and whatever worker threads do in between, the application inside the Android loop is
  always in a state that the application's own steps reach, so all that holds of those holds on Android.\<close>

theorem android_refines_app:
  "android_reachable P C s ths \<Longrightarrow> reachable P (fst (ms_sys s), snd (ms_sys s), ths)"
  using android_app_reached [of P C s ths] by (simp add: app_reached_def)

section \<open>What egui is told of the pointer\<close>

definition pointer_ok :: "('p, 'f) main_state \<Rightarrow> bool" where
  "pointer_ok s \<longleftrightarrow>
     pointer_run Away (concat (map rw_events (ms_frames s)) @ ai_events (ms_input s)) = Some (phase_of (ms_input s))"

lemma pointer_ok_follows:
  "pointer_ok s \<Longrightarrow> follows (ms_input s) (ms_input s') \<Longrightarrow> ms_frames s' = ms_frames s \<Longrightarrow> pointer_ok s'"
  by (auto simp: pointer_ok_def follows_def pointer_run_append split: bind_splits)

lemma main_drain_pointer: "pointer_ok s \<Longrightarrow> pointer_ok (main_drain t s)"
  using follows_drain [of "(ms_input s, ms_ime s, fst (ms_sys s))" "tn_keys t" "tn_scale t" "tn_input t"]
  by (elim pointer_ok_follows) (simp_all add: main_drain_def main_request_def case_prod_beta Let_def)

lemma make_raw_input_events [simp]:
  "rw_events (fst (make_raw_input points positive answer focused screen elapsed x)) = ai_events (fst x)"
  "fst (snd (make_raw_input points positive answer focused screen elapsed x)) = (fst x)\<lparr>ai_events := []\<rparr>"
  by (simp_all add: make_raw_input_def apply_android_raw_input_def case_prod_beta Let_def split: sum.split option.split)

lemma main_frame_input:
  "ms_input (main_frame P t g screen s) = (ms_input s)\<lparr>ai_pressed := False, ai_events := []\<rparr>"
  "map rw_events (ms_frames (main_frame P t g screen s)) = map rw_events (ms_frames s) @ [ai_events (ms_input s)]"
  by (simp_all add: main_frame_def handle_platform_output_def case_prod_beta Let_def split: sum.split)

lemma main_frame_pointer: "pointer_ok s \<Longrightarrow> pointer_ok (main_frame P t g screen s)"
  by (simp add: pointer_ok_def main_frame_input phase_of_def)

text \<open>C28: \<^bold>\<open>One pointer at a time\<close>. The events that all frames have handed to egui, with those that
  wait for the next one, are those of a single pointer: it appears, is pressed, moves only while pressed,
  and is released and gone, or gone, before it appears again, however the fingers come, move and go.\<close>

theorem pointer_protocol:
  assumes "android_reachable P C s ths"
  shows "pointer_run Away (concat (map rw_events (ms_frames s)) @ ai_events (ms_input s)) =
    Some (if ai_primary (ms_input s) = None then Away else Pressed)"
proof -
  have "pointer_ok s" using assms
  proof (induction rule: android_reachable.induct)
    case (starts m d env path info t)
    then show ?case by (simp add: pointer_ok_def android_start_def android_input_default_def phase_of_def Let_def)
  next
    case (turns s ths t)
    show ?case
      by (rule android_turn_keeps [where C = "\<lambda>_. True"])
        (use turns.IH in \<open>auto simp: main_drain_pointer main_frame_pointer list_all_iff\<close>, auto simp: pointer_ok_def)
  next
    case (asks s ths t delay)
    then show ?case by (simp add: pointer_ok_def main_request_def)
  next
    case (others s ths m ths')
    then show ?case by (simp add: pointer_ok_def)
  qed
  then show ?thesis by (simp add: pointer_ok_def phase_of_def)
qed

section \<open>No frame is lost\<close>

text \<open>A frame can be drawn when there is a GPU and a configured surface.\<close>

definition drawable :: "('p, 'f) main_state \<Rightarrow> bool" where
  "drawable s \<longleftrightarrow> (case ms_gpu s of None \<Rightarrow> False | Some g \<Rightarrow> gpu_dimensions g \<noteq> None)"

text \<open>The state in which a turn's input and deadline are looked at.\<close>

abbreviation polled :: "('p, 'f) loop_turn \<Rightarrow> ('p, 'f) main_state \<Rightarrow> ('p, 'f) main_state" where
  "polled t s \<equiv> fold poll_event_step (tn_polled t) s"

text \<open>The states after \<open>s0\<close>, when no window comes or is resized later than \<open>T\<close>.\<close>

definition window_event :: "poll_event \<Rightarrow> bool" where
  "window_event ev \<longleftrightarrow> ev = MainEvent InitWindow \<or> ev = MainEvent WindowResized"

definition windows_by :: "instant \<Rightarrow> ('p, 'f) loop_turn \<Rightarrow> bool" where
  "windows_by T t \<longleftrightarrow> list_all (\<lambda>(ev, e, u). window_event ev \<longrightarrow> u \<le> T) (tn_polled t)"

inductive later :: "app_params \<Rightarrow> instant \<Rightarrow> ('p, 'f) main_state \<Rightarrow> ('p, 'f) main_state \<Rightarrow> bool" for P T s0 where
  here: "later P T s0 s0"
| turns: "later P T s0 s \<Longrightarrow> ms_running s \<Longrightarrow> windows_by T t \<Longrightarrow> later P T s0 (android_turn P t s)"
| asks: "later P T s0 s \<Longrightarrow> later P T s0 (main_request t delay s)"
| others: "later P T s0 s \<Longrightarrow> later P T s0 (s\<lparr>ms_sys := app\<rparr>)"

definition pending :: "nat \<Rightarrow> instant \<Rightarrow> ('p, 'f) main_state \<Rightarrow> bool" where
  "pending k B s \<longleftrightarrow> k \<le> length (ms_frames s) \<and>
     (k < length (ms_frames s) \<or> \<not> drawable s \<or> due_by B (ms_repaint s))"

lemma pending_request [simp]: "due_by B (ms_repaint s) \<Longrightarrow> due_by B (ms_repaint (main_request t delay s))"
  by (simp add: main_request_def due_by_keeps)

lemma main_request_pending: "pending k B s \<Longrightarrow> pending k B (main_request t delay s)"
  by (auto simp: pending_def main_request_def drawable_def due_by_keeps)

lemma main_request_now: "t \<le> B \<Longrightarrow> k \<le> length (ms_frames s) \<Longrightarrow> pending k B (main_request t 0 s)"
  using due_by_mono [OF due_by_request [of t 0 "ms_repaint s"], of B] by (simp add: pending_def main_request_def)

lemma pending_cong:
  "ms_frames s' = ms_frames s \<Longrightarrow> ms_gpu s' = ms_gpu s \<Longrightarrow> ms_repaint s' = ms_repaint s \<Longrightarrow> pending k B s' = pending k B s"
  by (simp add: pending_def drawable_def)

lemma poll_event_pending:
  assumes "pending k B s" "window_event ev \<longrightarrow> u \<le> B"
  shows "pending k B (poll_event_step (ev, e, u) s)"
proof (cases ev)
  case (MainEvent m)
  have k: "k \<le> length (ms_frames s)" using assms(1) by (simp add: pending_def)
  have win: "ms_frames (init_window e s) = ms_frames s" "ms_frames (window_resized e s) = ms_frames s"
    using poll_event_sys(3) [of "(MainEvent InitWindow, e, u)" s] poll_event_sys(3) [of "(MainEvent WindowResized, e, u)" s]
    by (simp_all add: poll_event_step_def main_event_step_def main_request_def)
  have off: "pending k B (s\<lparr>ms_gpu := None, ms_running := False\<rparr>)" "pending k B (s\<lparr>ms_gpu := map_option detach_window (ms_gpu s)\<rparr>)"
    using k by (auto simp: pending_def drawable_def gpu_dimensions_def detach_window_def split: option.split)
  have same: "pending k B (s\<lparr>ms_focused := x\<rparr>)" "pending k B (s\<lparr>ms_input_available := x\<rparr>)" for x
    using assms(1) by (simp_all add: pending_def drawable_def)
  show ?thesis
    using MainEvent assms off same k win
    by (cases m) (auto simp: poll_event_step_def main_event_step_def window_event_def main_request_now main_request_pending)
qed (use assms(1) in \<open>simp_all add: poll_event_step_def\<close>)

lemma polled_pending: "pending k B s \<Longrightarrow> windows_by T t \<Longrightarrow> T \<le> B \<Longrightarrow> pending k B (polled t s)"
  by (rule fold_invariant [where P = "pending k B" and Q = "\<lambda>(ev, e, u). window_event ev \<longrightarrow> u \<le> B"])
    (auto simp: windows_by_def list_all_iff intro: poll_event_pending)

lemma main_drain_kept:
  "ms_frames (main_drain t s) = ms_frames s" "ms_gpu (main_drain t s) = ms_gpu s" "ms_device (main_drain t s) = ms_device s"
  "ms_running (main_drain t s) = ms_running s" "due_by B (ms_repaint s) \<Longrightarrow> due_by B (ms_repaint (main_drain t s))"
  by (simp_all add: main_drain_def main_request_def due_by_keeps case_prod_beta Let_def)

lemma main_frame_frames: "length (ms_frames (main_frame P t g screen s)) = Suc (length (ms_frames s))"
  using main_frame_input(2) [of P t g screen s] by (metis length_append_singleton length_map)

text \<open>What a turn does with its deadline.\<close>

lemma turn_cases:
  assumes "ms_running (polled t s)"
  obtains (early) "\<not> fst (repaint_take_if_due (tn_now t) (ms_repaint (main_drain t (polled t s))))"
      "android_turn P t s = main_drain t (polled t s)"
  | (blind) "fst (repaint_take_if_due (tn_now t) (ms_repaint (main_drain t (polled t s))))"
      "\<not> drawable (polled t s)" "android_turn P t s = (main_drain t (polled t s))\<lparr>ms_repaint := None\<rparr>"
  | (framed) g screen where "ms_gpu (polled t s) = Some g" "gpu_dimensions g = Some screen"
      "android_turn P t s = main_frame P t g screen ((main_drain t (polled t s))\<lparr>ms_repaint := None\<rparr>)"
proof (cases "fst (repaint_take_if_due (tn_now t) (ms_repaint (main_drain t (polled t s))))")
  case False
  then have "repaint_take_if_due (tn_now t) (ms_repaint (main_drain t (polled t s))) = (False, ms_repaint (main_drain t (polled t s)))"
    by (auto simp: repaint_take_if_due_def split: option.splits if_splits)
  with assms have "android_turn P t s = main_drain t (polled t s)" by (simp add: android_turn_def Let_def)
  with False early show thesis by blast
next
  case True
  then have "repaint_take_if_due (tn_now t) (ms_repaint (main_drain t (polled t s))) = (True, None)"
    by (auto simp: repaint_take_if_due_def split: option.splits if_splits)
  note turn = this assms
  show thesis
  proof (cases "drawable (polled t s)")
    case True
    then obtain g screen where "ms_gpu (polled t s) = Some g" "gpu_dimensions g = Some screen"
      by (auto simp: drawable_def split: option.splits)
    with turn framed show thesis by (simp add: android_turn_def main_drain_kept Let_def)
  next
    case False
    with turn have "android_turn P t s = (main_drain t (polled t s))\<lparr>ms_repaint := None\<rparr>"
      by (simp add: android_turn_def main_drain_kept drawable_def Let_def split: option.splits)
    with True False blind show thesis by blast
  qed
qed

lemma turn_pending:
  assumes "pending k B s" "windows_by T t" "T \<le> B"
  shows "pending k B (android_turn P t s)"
proof (cases "ms_running (polled t s)")
  case True
  have p: "pending k B (polled t s)" by (rule polled_pending [OF assms])
  show ?thesis
    using True
  proof (cases rule: turn_cases [where P = P])
    case early
    then show ?thesis using p by (auto simp: pending_def drawable_def main_drain_kept)
  next
    case blind
    then show ?thesis using p by (simp add: pending_def drawable_def main_drain_kept)
  next
    case (framed g screen)
    then show ?thesis using p by (simp add: pending_def main_frame_frames main_drain_kept less_Suc_eq_le)
  qed
next
  case False
  then show ?thesis using polled_pending [OF assms] by (simp add: android_turn_def Let_def)
qed

lemma later_pending:
  assumes "later P T s0 s" "T \<le> B" "pending k B s0"
  shows "pending k B s"
  using assms(1)
proof induction
  case here
  then show ?case by (rule assms(3))
next
  case (turns s t)
  then show ?case using turn_pending assms(2) by blast
next
  case (asks s t delay)
  then show ?case by (simp add: main_request_pending)
next
  case (others s app)
  then show ?case using pending_cong [of "s\<lparr>ms_sys := app\<rparr>" s] by simp
qed

text \<open>A due frame that can be drawn is run, and its picture is shown when its texture is there.\<close>

lemma main_frame_presents:
  assumes "gpu_dimensions g = Some screen" "gp_surface g = Some surface" "tn_texture t surface \<in> {Success, Suboptimal}"
  shows "\<exists>cs. gd_commands (ms_device (main_frame P t g screen s)) = gd_commands (ms_device s) @ cs \<and> Present surface \<in> set cs"
  using assms
  by (auto simp: main_frame_def gpu_paint_def handle_platform_output_def log_gpu_def frame_commands_def case_prod_beta Let_def)

lemma polled_rule: "Q s \<Longrightarrow> (\<And>x s. Q s \<Longrightarrow> Q (poll_event_step x s)) \<Longrightarrow> Q (polled t s)"
  by (rule fold_invariant [where P = Q and Q = "\<lambda>_. True"]) auto

lemma init_window_kept:
  "gd_commands (ms_device (init_window e s)) = gd_commands (ms_device s)" "ms_repaint (init_window e s) = ms_repaint s"
  "gd_commands (ms_device (window_resized e s)) = gd_commands (ms_device s)" "ms_repaint (window_resized e s) = ms_repaint s"
proof -
  have new: "gd_commands d = gd_commands (ms_device s)" if "gpu_new e (ms_device s) = (r, d)" for r d
    using gpu_new_device [of e "ms_device s"] that by simp
  show "gd_commands (ms_device (init_window e s)) = gd_commands (ms_device s)"
    by (cases "ms_gpu s") (auto simp: init_window_def case_prod_beta Let_def dest: new split: prod.splits sum.splits)
  show "ms_repaint (init_window e s) = ms_repaint s" "ms_repaint (window_resized e s) = ms_repaint s"
    "gd_commands (ms_device (window_resized e s)) = gd_commands (ms_device s)"
    by (simp_all add: init_window_def window_resized_def case_prod_beta Let_def split: option.split sum.split)
qed

lemma poll_event_kept:
  "gd_commands (ms_device (poll_event_step x s)) = gd_commands (ms_device s)"
  "due_by B (ms_repaint s) \<Longrightarrow> due_by B (ms_repaint (poll_event_step x s))"
  by (cases x; simp add: poll_event_step_def main_event_step_def main_request_def due_by_keeps init_window_kept
      split: poll_event.split main_event.split)+

lemma polled_kept:
  "gd_commands (ms_device (polled t s)) = gd_commands (ms_device s)" "ms_frames (polled t s) = ms_frames s"
  "due_by B (ms_repaint s) \<Longrightarrow> due_by B (ms_repaint (polled t s))"
proof -
  show "gd_commands (ms_device (polled t s)) = gd_commands (ms_device s)"
    by (rule polled_rule [where Q = "\<lambda>s'. gd_commands (ms_device s') = gd_commands (ms_device s)"]) (simp_all add: poll_event_kept)
  show "ms_frames (polled t s) = ms_frames s"
    by (rule polled_rule [where Q = "\<lambda>s'. ms_frames s' = ms_frames s"]) simp_all
  show "due_by B (ms_repaint s) \<Longrightarrow> due_by B (ms_repaint (polled t s))"
    by (rule polled_rule [where Q = "\<lambda>s'. due_by B (ms_repaint s')"]) (simp_all add: poll_event_kept)
qed

lemma due_turn:
  assumes "due_by B (ms_repaint (polled t s))" "ms_running (polled t s)" "drawable (polled t s)" "B \<le> tn_now t"
  obtains g screen where "ms_gpu (polled t s) = Some g" "gpu_dimensions g = Some screen"
    "android_turn P t s = main_frame P t g screen ((main_drain t (polled t s))\<lparr>ms_repaint := None\<rparr>)"
  using assms(2)
proof (cases rule: turn_cases [where P = P])
  case early
  have "fst (repaint_take_if_due (tn_now t) (ms_repaint (main_drain t (polled t s))))"
    using due_by_taken [OF main_drain_kept(5) [OF assms(1)] assms(4), of t] by simp
  with early show thesis by simp
next
  case blind
  with assms(3) show thesis by simp
next
  case (framed g screen)
  with that show thesis by blast
qed

text \<open>C30: \<^bold>\<open>no frame is lost while there is a window\<close>. After a request for a repaint at \<open>t + delay\<close>, in
  every later state of the loop a frame has been run since (egui was given its input and the application's
  \<open>show_ui\<close> ran), or there is nothing to draw on, or a frame is due by \<open>t + delay\<close>, or by the moment \<open>T\<close> the
  last window came or was resized if that was later, as a due deadline is dropped without a window and asked for
  again with the next. While it is due so, the loop sleeps no longer than until then, and from then on the next
  turn whose events leave it a window runs exactly one frame; its picture is presented if the surface gives its
  texture (an outdated or lost texture, a timeout or an occlusion drops the picture).\<close>

theorem frames_not_lost:
  assumes "later P T (main_request t delay s0) s"
  shows "length (ms_frames s0) < length (ms_frames s) \<or> \<not> drawable s \<or>
    due_by (max (t + delay) T) (ms_repaint s) \<and>
    (\<forall>u. \<exists>w. repaint_timeout u (ms_repaint s) = Some w \<and> w \<le> max (t + delay) T - u) \<and>
    (\<forall>k. ms_running (polled k s) \<and> drawable (polled k s) \<and> max (t + delay) T \<le> tn_now k \<longrightarrow>
       length (ms_frames (android_turn P k s)) = Suc (length (ms_frames s)) \<and>
       (\<forall>g surface. ms_gpu (polled k s) = Some g \<and> gp_surface g = Some surface \<and> tn_texture k surface \<in> {Success, Suboptimal} \<longrightarrow>
          (\<exists>cs. gd_commands (ms_device (android_turn P k s)) = gd_commands (ms_device s) @ cs \<and> Present surface \<in> set cs)))"
proof -
  let ?B = "max (t + delay) T"
  have "due_by (t + delay) (ms_repaint (main_request t delay s0))" by (simp add: main_request_def due_by_request)
  then have "pending (length (ms_frames s0)) ?B (main_request t delay s0)"
    using due_by_mono [of "t + delay" _ ?B] by (simp add: pending_def main_request_def)
  then have p: "pending (length (ms_frames s0)) ?B s" using later_pending [OF assms(1)] by simp
  have "length (ms_frames (android_turn P k s)) = Suc (length (ms_frames s)) \<and>
      (\<forall>g surface. ms_gpu (polled k s) = Some g \<and> gp_surface g = Some surface \<and> tn_texture k surface \<in> {Success, Suboptimal} \<longrightarrow>
        (\<exists>cs. gd_commands (ms_device (android_turn P k s)) = gd_commands (ms_device s) @ cs \<and> Present surface \<in> set cs))"
    if due: "due_by ?B (ms_repaint s)" and k: "ms_running (polled k s)" "drawable (polled k s)" "?B \<le> tn_now k" for k
  proof -
    obtain g screen where f: "ms_gpu (polled k s) = Some g" "gpu_dimensions g = Some screen"
      "android_turn P k s = main_frame P k g screen ((main_drain k (polled k s))\<lparr>ms_repaint := None\<rparr>)"
      by (rule due_turn [OF polled_kept(3) [OF due] k])
    let ?s = "(main_drain k (polled k s))\<lparr>ms_repaint := None\<rparr>"
    have same: "gd_commands (ms_device ?s) = gd_commands (ms_device s)" "ms_frames ?s = ms_frames s"
      by (simp_all add: main_drain_kept polled_kept)
    show ?thesis
      using main_frame_presents [OF f(2), of _ k P ?s] f(1) main_frame_frames [of P k g screen ?s] unfolding f(3) same by auto
  qed
  with p due_by_timeout [of ?B "ms_repaint s"] show ?thesis unfolding pending_def by blast
qed

section \<open>The surface\<close>

definition surface_ok :: "('p, 'f) main_state \<Rightarrow> bool" where
  "surface_ok s \<longleftrightarrow> (\<forall>g. ms_gpu s = Some g \<longrightarrow> gpu_ok (g, ms_device s)) \<and> drawn_configured (ms_device s)"

lemma surface_ok_same:
  "ms_gpu s' = ms_gpu s \<Longrightarrow> ms_device s' = ms_device s \<Longrightarrow> surface_ok s \<Longrightarrow> surface_ok s'"
  by (simp add: surface_ok_def)

lemma main_request_same [simp]: "surface_ok (main_request t delay s) = surface_ok s"
  by (simp add: surface_ok_def main_request_def)

lemma init_window_surface: "surface_ok s \<Longrightarrow> compatible e \<Longrightarrow> surface_ok (init_window e s)"
proof -
  assume ok: "surface_ok s" and e: "compatible e"
  show ?thesis
  proof (cases "ms_gpu s")
    case None
    obtain r d where n: "gpu_new e (ms_device s) = (r, d)" by force
    then have "drawn_configured d"
      using ok drawn_configured_cong [of d "ms_device s"] gpu_new_device [of e "ms_device s"] by (simp add: surface_ok_def)
    then show ?thesis using gpu_new_ok [of e "ms_device s" _ d] n None
      by (cases r) (auto simp: init_window_def surface_ok_def)
  next
    case (Some g)
    then show ?thesis
      using ok attach_window_ok [of "(g, ms_device s)" e] e drawn_configured_cong [OF attach_window_device [of e "(g, ms_device s)"]]
      by (simp add: init_window_def surface_ok_def case_prod_beta)
  qed
qed

lemma window_resized_surface: "surface_ok s \<Longrightarrow> surface_ok (window_resized e s)"
  using resize_from_app_ok [of "(the (ms_gpu s), ms_device s)" e]
    drawn_configured_cong [OF resize_device [of e "(the (ms_gpu s), ms_device s)"]]
  by (auto simp: window_resized_def surface_ok_def case_prod_beta split: option.splits)

lemma poll_event_surface: "surface_ok s \<Longrightarrow> compatible e \<Longrightarrow> surface_ok (poll_event_step (ev, e, t) s)"
proof -
  assume ok: "surface_ok s" and e: "compatible e"
  show ?thesis
  proof (cases ev)
    case (MainEvent m)
    then show ?thesis
      using ok init_window_surface [OF ok e] window_resized_surface [OF ok]
      by (cases m) (auto simp: poll_event_step_def main_event_step_def, auto simp: surface_ok_def)
  qed (simp_all add: poll_event_step_def ok)
qed

lemma main_drain_surface: "surface_ok s \<Longrightarrow> surface_ok (main_drain t s)"
  by (simp add: main_drain_def case_prod_beta Let_def) (auto simp: surface_ok_def)

lemma main_frame_surface:
  assumes "surface_ok s" "compatible (tn_env t)" "ms_gpu s = Some g"
  shows "surface_ok (main_frame P t g screen s)"
proof -
  let ?raw = "fst (make_raw_input (tn_points t) (tn_positive t) (tn_insets t) (ms_focused s) screen (tn_elapsed t)
    ((ms_input s)\<lparr>ai_pressed := False\<rparr>, ms_insets s))"
  obtain r g' d app where p: "gpu_paint (tn_env t) (tn_texture t) P (tn_egui t ?raw) (tn_ui t ?raw) (g, ms_device s) (ms_sys s) =
      (r, (g', d), app)" by (metis prod.exhaust)
  have "ms_gpu (main_frame P t g screen s) = Some g'" "ms_device (main_frame P t g screen s) = d"
    using p by (simp_all add: main_frame_def handle_platform_output_def case_prod_beta Let_def split: sum.split)
  moreover have "gpu_ok (g', d) \<and> drawn_configured d"
    using gpu_paint_ok [OF _ assms(2) _ p] assms(1,3) by (simp add: surface_ok_def)
  ultimately show ?thesis by (simp add: surface_ok_def)
qed

text \<open>C31: \<^bold>\<open>Only a configured surface is drawn on\<close>. If every surface made of a window can be
  configured for it, then through all windows that come, change size and go, and all textures that are
  outdated or lost, a texture is only ever asked of a surface that has been configured.\<close>

theorem only_configured_surfaces:
  assumes "android_reachable P compatible s ths" "AcquireTexture surface c \<in> set (gd_commands (ms_device s))"
  shows "c \<noteq> None"
proof -
  have "surface_ok s" using assms(1)
  proof (induction rule: android_reachable.induct)
    case (starts m d env path info t)
    then show ?case by (simp add: surface_ok_def android_start_def drawn_configured_def Let_def)
  next
    case (turns s ths t)
    show ?case
      by (rule android_turn_keeps [where C = compatible])
        (use turns in \<open>auto simp: poll_event_surface main_drain_surface main_frame_surface\<close>, auto simp: surface_ok_def)
  next
    case (asks s ths t delay)
    then show ?case by simp
  next
    case (others s ths m ths')
    then show ?case by (simp add: surface_ok_def)
  qed
  then show ?thesis using assms(2) by (auto simp: surface_ok_def drawn_configured_def)
qed

section \<open>A running example\<close>

definition test_gpu_env :: gpu_env where
  "test_gpu_env = \<lparr>ge_window = Some (4, 0), ge_handle = Ok (), ge_create = Ok (), ge_state = Ok 7,
     ge_default = (\<lambda>w h. Some \<lparr>sc_width = w, sc_height = h, sc_format = 0, sc_present_mode = OtherMode 0, sc_latency = 2\<rparr>)\<rparr>"

definition test_config :: surface_config where
  "test_config = \<lparr>sc_width = 4, sc_height = 1, sc_format = 7, sc_present_mode = AutoVsync, sc_latency = 1\<rparr>"

definition test_touch :: "nat input_event list" where
  "test_touch = [MotionEvent 0 Down \<lparr>po_id = 5, po_pos = 10\<rparr> [], MotionEvent 0 PointerDown \<lparr>po_id = 6, po_pos = 20\<rparr> [],
     MotionEvent 0 Up \<lparr>po_id = 5, po_pos = 11\<rparr> []]"

definition test_turn :: "(nat, nat) loop_turn" where
  "test_turn = \<lparr>tn_polled = [(MainEvent InitWindow, test_gpu_env, 2), (MainEvent InputAvailable, test_gpu_env, 3)],
     tn_input = Some test_touch, tn_keys = test_keys, tn_scale = id, tn_drained = 3, tn_now = 4, tn_points = id,
     tn_positive = True, tn_insets = Ok None, tn_elapsed = 4, tn_env = test_gpu_env, tn_texture = (\<lambda>_. Success),
     tn_ui = (\<lambda>_. log_click\<lparr>in_open_log := False\<rparr>), tn_egui = (\<lambda>_ _. \<lparr>fu_set = [], fu_free = [], fu_commands = []\<rparr>)\<rparr>"

definition test_device :: gpu_device where
  "test_device = \<lparr>gd_fresh = 0, gd_configured = (\<lambda>_. None), gd_commands = []\<rparr>"

definition test_start :: "(nat, nat) main_state" where
  "test_start = android_start test_env (Some ''/data'') \<lparr>di_log_dir = None, di_warning = None\<rparr> 1 test_machine test_device"

lemma test_started: "android_reachable test_params C test_start []"
  unfolding test_start_def by (rule android_reachable.starts) (simp_all add: test_machine_def test_device_def)

lemma test_turned:
  assumes "C test_gpu_env"
  shows "android_reachable test_params C (android_turn test_params test_turn test_start) []"
  by (rule android_reachable.turns [OF test_started])
    (simp_all add: test_start_def android_start_def Let_def turn_envs_def test_turn_def assms)

lemmas test_turn_simps = android_turn_def test_turn_def test_start_def android_start_def poll_event_step_def
  main_event_step_def main_request_def init_window_def gpu_new_def window_size_def create_surface_def gpu_configure_def
  test_gpu_env_def repaint_new_def repaint_request_def main_drain_def repaint_take_if_due_def gpu_dimensions_def
  drain_input_def test_touch_def input_event_def motion_event_def push_touch_def push_event_def press_primary_def
  release_primary_def android_input_default_def test_device_def Let_def case_prod_beta

text \<open>Two fingers and a frame: the second finger never becomes the pointer.\<close>

definition test_events :: "nat egui_event list" where
  "test_events = [Touch 0 5 TouchStart 10, PointerMoved 10, PointerButton 10 True no_modifiers, Touch 0 6 TouchStart 20,
     Touch 0 5 TouchEnd 11, PointerButton 11 False no_modifiers, PointerGone]"

lemma test_turn_frames:
  "map rw_events (ms_frames (android_turn test_params test_turn test_start)) = [test_events]"
  "ai_events (ms_input (android_turn test_params test_turn test_start)) = []"
  "ai_primary (ms_input (android_turn test_params test_turn test_start)) = None"
  by (simp_all add: test_turn_simps main_frame_input) (simp_all add: android_start_def test_events_def)

theorem android_refines_app_witness:
  "\<exists>s :: (nat, nat) main_state. length (ms_frames s) = 1 \<and> reachable test_params (fst (ms_sys s), snd (ms_sys s), [])"
proof (intro exI conjI)
  let ?s = "android_turn test_params test_turn test_start"
  show "length (ms_frames ?s) = 1" using arg_cong [OF test_turn_frames(1), where f = length] by simp
  show "reachable test_params (fst (ms_sys ?s), snd (ms_sys ?s), [])"
    by (rule android_refines_app [OF test_turned [where C = "\<lambda>_. True"]]) simp
qed

theorem pointer_protocol_witness: "pointer_run Away test_events = Some Away"
  using pointer_protocol [OF test_turned [where C = "\<lambda>_. True"]] by (simp add: test_turn_frames)

definition test_window :: android_gpu where
  "test_window = \<lparr>gp_target_format = 7, gp_surface = Some 0, gp_surface_config = Some test_config\<rparr>"

theorem frames_not_lost_witness:
  "\<exists>s :: (nat, nat) main_state. later test_params 0 (main_request 2 3 (test_start\<lparr>ms_gpu := Some test_window\<rparr>)) s \<and>
     length (ms_frames (android_turn test_params (test_turn\<lparr>tn_polled := [], tn_now := 9\<rparr>) s)) = 1 \<and>
     Present 0 \<in> set (gd_commands (ms_device (android_turn test_params (test_turn\<lparr>tn_polled := [], tn_now := 9\<rparr>) s)))"
proof (intro exI conjI)
  let ?before = "test_start\<lparr>ms_gpu := Some test_window\<rparr>" and ?k = "test_turn\<lparr>tn_polled := [], tn_now := 9\<rparr>"
  let ?s = "main_request 2 3 ?before"
  show l: "later test_params 0 ?s ?s" by (rule later.here)
  have s: "ms_frames ?before = []" "ms_frames ?s = []" "drawable ?s" "ms_running ?s" "ms_gpu ?s = Some test_window"
    by (simp_all add: main_request_def test_start_def android_start_def drawable_def gpu_dimensions_def test_window_def Let_def)
  have k: "polled ?k ?s = ?s" "max (2 + 3) 0 \<le> tn_now ?k" "gp_surface test_window = Some 0" "tn_texture ?k 0 = Success"
    by (simp_all add: test_turn_def test_window_def)
  have "\<not> length (ms_frames ?before) < length (ms_frames ?s)" "\<not> \<not> drawable ?s" using s(1-3) by simp_all
  with frames_not_lost [OF l] have turn: "ms_running (polled k ?s) \<and> drawable (polled k ?s) \<and> max (2 + 3) 0 \<le> tn_now k \<longrightarrow>
       length (ms_frames (android_turn test_params k ?s)) = Suc (length (ms_frames ?s)) \<and>
       (\<forall>g surface. ms_gpu (polled k ?s) = Some g \<and> gp_surface g = Some surface \<and> tn_texture k surface \<in> {Success, Suboptimal} \<longrightarrow>
          (\<exists>cs. gd_commands (ms_device (android_turn test_params k ?s)) = gd_commands (ms_device ?s) @ cs \<and> Present surface \<in> set cs))"
    for k by blast
  show "length (ms_frames (android_turn test_params ?k ?s)) = 1" using turn [of ?k] k(1,2) s by simp
  obtain cs where "gd_commands (ms_device (android_turn test_params ?k ?s)) = gd_commands (ms_device ?s) @ cs" "Present 0 \<in> set cs"
    using turn [of ?k] k s by auto
  then show "Present 0 \<in> set (gd_commands (ms_device (android_turn test_params ?k ?s)))" by simp
qed

theorem only_configured_surfaces_witness:
  "\<exists>(s :: (nat, nat) main_state) c. android_reachable test_params compatible s [] \<and>
     AcquireTexture 0 c \<in> set (gd_commands (ms_device s)) \<and> c \<noteq> None"
proof (intro exI conjI)
  let ?s = "android_turn test_params test_turn test_start"
  have "compatible test_gpu_env" by (simp add: compatible_def test_gpu_env_def split: sum.split)
  then show r: "android_reachable test_params compatible ?s []" by (rule test_turned)
  show a: "AcquireTexture 0 (Some test_config) \<in> set (gd_commands (ms_device ?s))"
    by (simp add: test_turn_simps main_frame_def gpu_paint_def handle_platform_output_def log_gpu_def make_raw_input_def
        apply_android_raw_input_def test_config_def)
  show "Some test_config \<noteq> None" by (rule only_configured_surfaces [OF r a])
qed

end
