(* ===== verification/F32.thy ===== *)
theory F32
  imports Prelude Complex_Main
begin

text \<open>
  Rust's \<open>f32\<close> as far as the drawing code computes with it: the finite values of IEEE 754 binary32 as
  rationals, and the four operations with one rounding to nearest, ties to even. The two zeros are one. Values
  beyond the largest finite one are not turned into an infinity; \<open>finite_f32\<close> says that a value is below that.
\<close>

section \<open>Rounding\<close>

type_synonym f32 = rat

fun bit_count :: "nat \<Rightarrow> nat" where
  "bit_count n = (if n = 0 then 0 else Suc (bit_count (n div 2)))"

definition nearest :: "rat \<Rightarrow> int" where
  "nearest y =
     (let f = \<lfloor>y\<rfloor>; r = y - of_int f
      in if r < 1 / 2 then f else if 1 / 2 < r then f + 1 else if even f then f else f + 1)"

text \<open>
  \<open>x\<close> counts units of \<open>2\<^sup>-\<^sup>1\<^sup>4\<^sup>9\<close>, the smallest positive value. A significand has 24 bits; what is
  longer loses its last bits, what is shorter, as the subnormal values are, is rounded to whole units.
\<close>

definition spare_bits :: "rat \<Rightarrow> nat" where
  "spare_bits x = bit_count (nat \<lfloor>x\<rfloor>) - 24"

definition round_units :: "rat \<Rightarrow> rat" where
  "round_units x = (let k = spare_bits x in 2 ^ k * of_int (nearest (x / 2 ^ k)))"

definition units :: rat where "units = 2 ^ 149"

definition rnd :: "rat \<Rightarrow> f32" where
  "rnd x = (if x < 0 then - round_units (- x * units) / units else round_units (x * units) / units)"

definition finite_f32 :: "rat \<Rightarrow> bool" where
  "finite_f32 x \<longleftrightarrow> \<bar>x\<bar> \<le> (2 ^ 24 - 1) * 2 ^ 104"

definition f32_add :: "f32 \<Rightarrow> f32 \<Rightarrow> f32" where "f32_add a b = rnd (a + b)"
definition f32_sub :: "f32 \<Rightarrow> f32 \<Rightarrow> f32" where "f32_sub a b = rnd (a - b)"
definition f32_mul :: "f32 \<Rightarrow> f32 \<Rightarrow> f32" where "f32_mul a b = rnd (a * b)"

text \<open>The program divides by positive values only.\<close>

definition f32_div :: "f32 \<Rightarrow> f32 \<Rightarrow> f32" where "f32_div a b = rnd (a / b)"

definition f32_clamp :: "f32 \<Rightarrow> f32 \<Rightarrow> f32 \<Rightarrow> f32" where
  "f32_clamp lo hi x = (if x < lo then lo else if hi < x then hi else x)"

text \<open>\<open>n as f32\<close>, and \<open>Duration::as_secs_f32\<close>.\<close>

definition nat_as_f32 :: "nat \<Rightarrow> f32" where "nat_as_f32 n = rnd (of_nat n)"

definition as_secs_f32 :: "duration \<Rightarrow> f32" where
  "as_secs_f32 d = f32_add (nat_as_f32 (d div 1000000000)) (f32_div (nat_as_f32 (d mod 1000000000)) (nat_as_f32 1000000000))"

section \<open>The whole number nearest\<close>

lemma nearest_cases: "nearest y = \<lfloor>y\<rfloor> \<or> nearest y = \<lfloor>y\<rfloor> + 1"
  by (simp add: nearest_def Let_def)

lemma nearest_of_int [simp]: "nearest (of_int n) = n"
  by (simp add: nearest_def)

lemma nearest_mono:
  assumes "y \<le> z"
  shows "nearest y \<le> nearest z"
proof (cases "\<lfloor>y\<rfloor> = \<lfloor>z\<rfloor>")
  case True
  with assms show ?thesis by (simp add: nearest_def Let_def)
next
  case False
  with floor_mono [OF assms] have "\<lfloor>y\<rfloor> + 1 \<le> \<lfloor>z\<rfloor>" by simp
  with nearest_cases [of y] nearest_cases [of z] show ?thesis by linarith
qed

lemma nearest_le: "y \<le> of_int n \<Longrightarrow> nearest y \<le> n"
  using nearest_mono [of y "of_int n"] by simp

lemma nearest_ge: "of_int n \<le> y \<Longrightarrow> n \<le> nearest y"
  using nearest_mono [of "of_int n" y] by simp

section \<open>The length of a number\<close>

declare bit_count.simps [simp del]

lemma bit_count_0 [simp]: "bit_count 0 = 0"
  by (simp add: bit_count.simps)

lemma bit_count_less: "n < 2 ^ bit_count n"
proof (induction n rule: bit_count.induct)
  case (1 n)
  show ?case
  proof (cases "n = 0")
    case False
    with 1 have "n div 2 < 2 ^ bit_count (n div 2)" by simp
    then have "n < 2 * 2 ^ bit_count (n div 2)" by linarith
    with False show ?thesis by (simp add: bit_count.simps [of n])
  qed simp
qed

lemma bit_count_ge: "0 < n \<Longrightarrow> 2 ^ (bit_count n - 1) \<le> n"
proof (induction n rule: bit_count.induct)
  case (1 n)
  show ?case
  proof (cases "n = 1")
    case False
    with 1 have d: "2 ^ (bit_count (n div 2) - 1) \<le> n div 2" by simp
    have "0 < n div 2" using False 1 by simp
    then have "0 < bit_count (n div 2)" by (simp add: bit_count.simps [of "n div 2"])
    then have "(2 :: nat) ^ bit_count (n div 2) = 2 * 2 ^ (bit_count (n div 2) - 1)" by (cases "bit_count (n div 2)") simp_all
    with d have "2 ^ bit_count (n div 2) \<le> n" by linarith
    with 1 show ?thesis by (simp add: bit_count.simps [of n])
  qed (simp add: bit_count.simps)
qed

lemma bit_count_leI: "n < 2 ^ k \<Longrightarrow> bit_count n \<le> k"
proof (rule ccontr)
  assume n: "n < 2 ^ k" and "\<not> bit_count n \<le> k"
  then have k: "k \<le> bit_count n - 1" "0 < n" by (cases "n = 0"; simp)+
  have "(2 :: nat) ^ k \<le> 2 ^ (bit_count n - 1)" using k(1) by (intro power_increasing) simp_all
  also have "\<dots> \<le> n" by (rule bit_count_ge [OF k(2)])
  finally show False using n by simp
qed

lemma bit_count_mono: "m \<le> n \<Longrightarrow> bit_count m \<le> bit_count n"
  using bit_count_less [of n] by (intro bit_count_leI) simp

section \<open>Rounding keeps the order\<close>

lemma spare_bits_mono: "x \<le> y \<Longrightarrow> spare_bits x \<le> spare_bits y"
  unfolding spare_bits_def by (intro diff_le_mono bit_count_mono nat_mono floor_mono)

text \<open>Where a bit is dropped, the number starts at the place of the last significand bit; it ends 24 bits above.\<close>

lemma spare_bits_ge:
  assumes "0 < spare_bits x"
  shows "2 ^ (spare_bits x + 23) \<le> x"
proof -
  let ?n = "nat \<lfloor>x\<rfloor>"
  have b: "bit_count ?n - 1 = spare_bits x + 23" "0 < ?n"
    using assms by (cases "?n = 0"; simp add: spare_bits_def)+
  have "2 ^ (spare_bits x + 23) \<le> ?n" using bit_count_ge [OF b(2)] by (simp only: b(1))
  then have "(2 :: int) ^ (spare_bits x + 23) \<le> \<lfloor>x\<rfloor>" using b(2) by (simp add: nat_le_iff le_nat_iff)
  then show ?thesis by (simp add: le_floor_iff)
qed

lemma spare_bits_less:
  assumes "0 \<le> x"
  shows "x < 2 ^ (spare_bits x + 24)"
proof -
  have "nat \<lfloor>x\<rfloor> < 2 ^ bit_count (nat \<lfloor>x\<rfloor>)" by (rule bit_count_less)
  also have "\<dots> \<le> 2 ^ (spare_bits x + 24)" by (intro power_increasing) (simp_all add: spare_bits_def)
  finally have "\<lfloor>x\<rfloor> < 2 ^ (spare_bits x + 24)" using assms by (simp add: nat_less_iff)
  then show ?thesis by (simp add: floor_less_iff)
qed

lemma round_units_le:
  assumes "0 \<le> x"
  shows "round_units x \<le> 2 ^ (spare_bits x + 24)"
proof -
  let ?k = "spare_bits x"
  have "x / 2 ^ ?k \<le> of_int (2 ^ 24)" using spare_bits_less [OF assms] by (simp add: power_add divide_le_eq mult.commute)
  then have "nearest (x / 2 ^ ?k) \<le> 2 ^ 24" by (rule nearest_le)
  then have "(of_int (nearest (x / 2 ^ ?k)) :: rat) \<le> of_int (2 ^ 24)" by (simp only: of_int_le_iff)
  then have "2 ^ ?k * (of_int (nearest (x / 2 ^ ?k)) :: rat) \<le> 2 ^ ?k * 2 ^ 24" by (intro mult_left_mono) simp_all
  then show ?thesis by (simp only: round_units_def Let_def power_add)
qed

lemma round_units_ge:
  assumes "0 < spare_bits x"
  shows "2 ^ (spare_bits x + 23) \<le> round_units x"
proof -
  let ?k = "spare_bits x"
  have "of_int (2 ^ 23) \<le> x / 2 ^ ?k" using spare_bits_ge [OF assms] by (simp add: power_add le_divide_eq mult.commute)
  then have "2 ^ 23 \<le> nearest (x / 2 ^ ?k)" by (rule nearest_ge)
  then have "of_int (2 ^ 23) \<le> (of_int (nearest (x / 2 ^ ?k)) :: rat)" by (simp only: of_int_le_iff)
  then have "2 ^ ?k * 2 ^ 23 \<le> 2 ^ ?k * (of_int (nearest (x / 2 ^ ?k)) :: rat)" by (intro mult_left_mono) simp_all
  then show ?thesis by (simp only: round_units_def Let_def power_add)
qed

lemma round_units_mono:
  assumes "0 \<le> x" "x \<le> y"
  shows "round_units x \<le> round_units y"
proof (cases "spare_bits x = spare_bits y")
  case True
  have "nearest (x / 2 ^ spare_bits x) \<le> nearest (y / 2 ^ spare_bits x)"
    using assms(2) by (intro nearest_mono divide_right_mono) simp_all
  with True show ?thesis by (simp add: round_units_def Let_def mult_left_mono)
next
  case False
  with spare_bits_mono [OF assms(2)] have less: "spare_bits x < spare_bits y" by simp
  have "round_units x \<le> 2 ^ (spare_bits x + 24)" by (rule round_units_le [OF assms(1)])
  also have "\<dots> \<le> 2 ^ (spare_bits y + 23)" using less by (intro power_increasing) simp_all
  also have "\<dots> \<le> round_units y" using less by (intro round_units_ge) simp
  finally show ?thesis .
qed

text \<open>A number of at most 24 bits, moved by any number of places, is kept.\<close>

lemma round_units_exact:
  assumes "m < 2 ^ 24"
  shows "round_units (of_nat m * 2 ^ k) = of_nat m * 2 ^ k"
proof -
  let ?x = "of_nat m * 2 ^ k :: rat"
  have f: "nat \<lfloor>?x\<rfloor> = m * 2 ^ k"
    using floor_of_nat [of "m * 2 ^ k", where 'a = rat] by (simp add: nat_mult_distrib nat_power_eq)
  have "m * 2 ^ k < 2 ^ (24 + k)" using assms by (simp add: power_add)
  then have "bit_count (m * 2 ^ k) \<le> 24 + k" by (rule bit_count_leI)
  then have "spare_bits ?x \<le> k" by (simp add: spare_bits_def f)
  then obtain s j where s: "spare_bits ?x = s" "k = s + j" using le_Suc_ex by blast
  have "?x / 2 ^ s = of_int (int m * 2 ^ j)" unfolding s(2) by (simp add: power_add)
  then have "round_units ?x = 2 ^ s * of_int (int m * 2 ^ j)"
    by (simp only: round_units_def Let_def s(1) nearest_of_int)
  then show ?thesis by (simp add: s(2) power_add)
qed

lemma round_units_0 [simp]: "round_units 0 = 0"
  using round_units_exact [of 0 0] by simp

lemma round_units_nonneg: "0 \<le> x \<Longrightarrow> 0 \<le> round_units x"
  using round_units_mono [of 0 x] by simp

lemma units_pos [simp]: "0 < units" "0 \<le> units" "units \<noteq> 0" "\<not> units \<le> 0"
  by (simp_all add: units_def)

lemma units_scale: "0 \<le> x * units \<longleftrightarrow> 0 \<le> x"
  by (simp add: zero_le_mult_iff)

lemma rnd_mono: "x \<le> y \<Longrightarrow> rnd x \<le> rnd y"
proof -
  assume le: "x \<le> y"
  show "rnd x \<le> rnd y"
  proof (cases "0 \<le> x")
    case True
    with le show ?thesis by (simp add: rnd_def divide_right_mono round_units_mono)
  next
    case x: False
    show ?thesis
    proof (cases "0 \<le> y")
      case True
      have "rnd x \<le> 0" using x round_units_nonneg [of "- x * units"] by (simp add: rnd_def mult_nonpos_nonneg)
      also have "0 \<le> rnd y" using True round_units_nonneg [of "y * units"] by (simp add: rnd_def)
      finally show ?thesis .
    next
      case False
      have "round_units (- y * units) \<le> round_units (- x * units)"
        using le False by (intro round_units_mono) (simp_all add: mult_nonpos_nonneg)
      with x False show ?thesis by (simp add: rnd_def divide_right_mono)
    qed
  qed
qed

lemma rnd_minus: "rnd (- x) = - rnd x"
  by (simp add: rnd_def)

text \<open>Whole numbers below \<open>2\<^sup>2\<^sup>4\<close> are single-precision values.\<close>

lemma rnd_of_nat: "m < 2 ^ 24 \<Longrightarrow> rnd (of_nat m) = of_nat m"
  using round_units_exact [of m 149, folded units_def] by (simp add: rnd_def)

lemma rnd_0 [simp]: "rnd 0 = 0"
  using rnd_of_nat [of 0] by simp

lemma rnd_1 [simp]: "rnd 1 = 1"
  using rnd_of_nat [of 1] by simp

lemma rnd_numeral: "(numeral n :: nat) < 2 ^ 24 \<Longrightarrow> rnd (numeral n) = numeral n"
  using rnd_of_nat [of "numeral n"] by simp

lemma rnd_nonneg: "0 \<le> x \<Longrightarrow> 0 \<le> rnd x"
  using rnd_mono [of 0 x] by simp

lemma rnd_le_1: "x \<le> 1 \<Longrightarrow> rnd x \<le> 1"
  using rnd_mono [of x 1] by simp

section \<open>Evaluation\<close>

lemma nearest_eqI:
  assumes "2 * \<bar>y - of_int m\<bar> < 1 \<or> 2 * \<bar>y - of_int m\<bar> = 1 \<and> even m"
  shows "nearest y = m"
proof -
  have "of_int m - 1 / 2 \<le> y" "y \<le> of_int m + 1 / 2" using assms by (auto simp: abs_if split: if_splits)
  then consider "of_int m \<le> y" "y < of_int m + 1" | "of_int (m - 1) \<le> y" "y < of_int (m - 1) + 1"
    by fastforce
  then show ?thesis
  proof cases
    case 1
    then have "\<lfloor>y\<rfloor> = m" by (simp add: floor_eq_iff)
    with assms 1 show ?thesis by (auto simp: nearest_def Let_def abs_if split: if_splits)
  next
    case 2
    then have "\<lfloor>y\<rfloor> = m - 1" by (simp add: floor_eq_iff)
    with assms 2 show ?thesis by (auto simp: nearest_def Let_def abs_if split: if_splits)
  qed
qed

lemma spare_bits_eqI:
  assumes "2 ^ (k + 23) \<le> x" "x < 2 ^ (k + 24)"
  shows "spare_bits x = k"
proof (rule antisym)
  have "0 \<le> x" using assms(1) zero_le_power [of 2 "k + 23"] by (meson order_trans zero_le_numeral)
  from order_le_less_trans [OF assms(1) spare_bits_less [OF this]]
  have "(2 :: rat) ^ (k + 23) < 2 ^ (spare_bits x + 24)" .
  then show "k \<le> spare_bits x" by simp
  show "spare_bits x \<le> k"
  proof (cases "spare_bits x = 0")
    case False
    then have "(2 :: rat) ^ (spare_bits x + 23) < 2 ^ (k + 24)"
      by (intro order_le_less_trans [OF spare_bits_ge assms(2)]) simp
    then show ?thesis by simp
  qed simp
qed

text \<open>A result is found from its significand \<open>m\<close> and the number \<open>k\<close> of places below it.\<close>

lemma rnd_eqI:
  assumes "2 ^ (k + 23) \<le> x * units" "x * units < 2 ^ (k + 24)"
    and "2 * \<bar>x * units / 2 ^ k - of_int m\<bar> < 1 \<or> 2 * \<bar>x * units / 2 ^ k - of_int m\<bar> = 1 \<and> even m"
  shows "rnd x = of_int m * 2 ^ k / units"
proof -
  have "0 \<le> x * units" using assms(1) zero_le_power [of 2 "k + 23"] by (meson order_trans zero_le_numeral)
  then have "0 \<le> x" by (simp only: units_scale)
  then show ?thesis
    using nearest_eqI [OF assms(3)] by (simp add: rnd_def round_units_def spare_bits_eqI [OF assms(1,2)] Let_def)
qed

lemma rnd_whole:
  assumes "m < 2 ^ 24" "x = of_nat m * 2 ^ k"
  shows "rnd x = x"
proof -
  have "x * units = of_nat m * 2 ^ (k + 149)" by (simp add: assms(2) units_def power_add)
  moreover have "0 \<le> x" by (simp add: assms(2))
  ultimately show ?thesis
    using round_units_exact [OF assms(1), of "k + 149"] by (simp add: rnd_def) (simp add: units_def power_add assms(2))
qed

section \<open>Seconds\<close>

lemma nat_as_f32_mono: "m \<le> n \<Longrightarrow> nat_as_f32 m \<le> nat_as_f32 n"
  unfolding nat_as_f32_def by (intro rnd_mono) simp

lemma nat_as_f32_small: "m < 2 ^ 24 \<Longrightarrow> nat_as_f32 m = of_nat m"
  by (simp add: nat_as_f32_def rnd_of_nat)

lemma billion [simp]: "nat_as_f32 1000000000 = 1000000000"
  using rnd_whole [of 1953125 1000000000 9] by (simp add: nat_as_f32_def)

lemma fraction_le_1: "f32_div (nat_as_f32 (d mod 1000000000)) 1000000000 \<le> 1"
proof -
  have "nat_as_f32 (d mod 1000000000) \<le> nat_as_f32 1000000000"
    by (intro nat_as_f32_mono less_imp_le mod_less_divisor) simp
  then show ?thesis unfolding f32_div_def by (intro rnd_le_1) (simp add: divide_le_eq)
qed

lemma fraction_nonneg: "0 \<le> f32_div (nat_as_f32 k) 1000000000"
  using nat_as_f32_mono [of 0 k] nat_as_f32_small [of 0] by (simp add: f32_div_def rnd_nonneg)

text \<open>Up to half a year, a longer time is not a smaller number of seconds.\<close>

lemma as_secs_f32_mono:
  assumes "d \<le> e" "e div 1000000000 < 2 ^ 24"
  shows "as_secs_f32 d \<le> as_secs_f32 e"
proof -
  let ?q = "\<lambda>d :: nat. d div 1000000000" and ?f = "\<lambda>d. f32_div (nat_as_f32 (d mod 1000000000)) 1000000000"
  have le: "?q d \<le> ?q e" using assms(1) by (rule div_le_mono)
  have small: "nat_as_f32 (?q d) = of_nat (?q d)" "nat_as_f32 (?q e) = of_nat (?q e)"
    using le assms(2) by (auto intro: nat_as_f32_small)
  have "of_nat (?q d) + ?f d \<le> of_nat (?q e) + ?f e"
  proof (cases "?q d = ?q e")
    case True
    then have "d mod 1000000000 \<le> e mod 1000000000"
      using assms(1) by (simp only: minus_div_mult_eq_mod [symmetric] diff_le_mono)
    then have "?f d \<le> ?f e" unfolding f32_div_def by (intro rnd_mono divide_right_mono nat_as_f32_mono) simp_all
    with True show ?thesis by simp
  next
    case False
    with le have "Suc (?q d) \<le> ?q e" by simp
    then have "(of_nat (Suc (?q d)) :: rat) \<le> of_nat (?q e)" by (simp only: of_nat_le_iff)
    then show ?thesis using fraction_le_1 [of d] fraction_nonneg [of "e mod 1000000000"] by simp
  qed
  then show ?thesis unfolding as_secs_f32_def billion small f32_add_def by (rule rnd_mono)
qed

end
