(* ===== verification/Android_Screen.thy ===== *)
theory Android_Screen
  imports Android_Main F32
begin

text \<open>
  Pixels and points of \<open>crates/waker-app/src/android.rs\<close>: how many pixels a point has on the screen of the
  device, and the input of a frame with its sizes in \<open>f32\<close>.
\<close>

section \<open>Pixels per point\<close>

text \<open>\<open>density\<close> is the one of the device's configuration, in dots per inch, if it names one.\<close>

definition native_pixels_per_point :: "nat option \<Rightarrow> f32" where
  "native_pixels_per_point density =
     max (case density of None \<Rightarrow> 1 | Some dpi \<Rightarrow> f32_div (nat_as_f32 dpi) 160) 1"

definition pixels_per_point :: "nat option \<Rightarrow> f32 \<Rightarrow> f32" where
  "pixels_per_point density zoom = f32_mul (native_pixels_per_point density) zoom"

definition in_points :: "f32 \<Rightarrow> nat \<Rightarrow> f32" where
  "in_points ppp pixels = f32_div (nat_as_f32 pixels) ppp"

text \<open>\<open>make_raw_input\<close> on the device: \<open>Android_Main\<close>'s at these sizes.\<close>

definition device_raw_input ::
  "nat option \<Rightarrow> f32 \<Rightarrow> string + system_insets option \<Rightarrow> bool \<Rightarrow> nat \<times> nat \<Rightarrow> duration \<Rightarrow>
   'p android_input \<times> system_insets option \<Rightarrow> ('p, f32) raw_input \<times> 'p android_input \<times> system_insets option" where
  "device_raw_input density zoom =
     (let ppp = pixels_per_point density zoom in make_raw_input (in_points ppp) (0 < ppp))"

section \<open>Its bounds\<close>

lemma native_at_least_1: "1 \<le> native_pixels_per_point density"
  by (simp add: native_pixels_per_point_def)

text \<open>So at no zoom below one, a length has no more points than pixels.\<close>

lemma pixels_per_point_at_least_1:
  assumes "1 \<le> zoom"
  shows "1 \<le> pixels_per_point density zoom"
proof -
  have "1 * 1 \<le> native_pixels_per_point density * zoom"
    using native_at_least_1 [of density] assms by (intro mult_mono) simp_all
  then show ?thesis using rnd_mono [of 1 "native_pixels_per_point density * zoom"]
    by (simp add: pixels_per_point_def f32_mul_def)
qed

lemma in_points_mono: "0 < ppp \<Longrightarrow> m \<le> n \<Longrightarrow> in_points ppp m \<le> in_points ppp n"
  unfolding in_points_def f32_div_def by (intro rnd_mono divide_right_mono nat_as_f32_mono) simp_all

lemma in_points_nonneg: "0 < ppp \<Longrightarrow> 0 \<le> in_points ppp n"
  using in_points_mono [of ppp 0 n] nat_as_f32_small [of 0] by (simp add: in_points_def f32_div_def)

lemma in_points_le:
  assumes "1 \<le> ppp" "n < 2 ^ 24"
  shows "in_points ppp n \<le> of_nat n"
proof -
  have "(of_nat n :: rat) / ppp \<le> of_nat n" using assms(1) by (simp add: divide_le_eq mult_le_cancel_left1)
  from rnd_mono [OF this] show ?thesis
    by (simp add: in_points_def f32_div_def nat_as_f32_small [OF assms(2)] rnd_of_nat [OF assms(2)])
qed

text \<open>
  \<^bold>\<open>the safe area lies on the screen\<close>. When a frame's input names a safe area, its four margins are not
  negative, and a system bar that is no larger than the screen, in pixels, leaves a margin that is no larger than
  the screen, in points, rounding included.
\<close>

lemma safe_area_on_screen:
  assumes "device_raw_input density zoom answer focused (width, height) elapsed s = (raw, s')"
    and "rw_safe_area raw = Some (l, t, r, b)"
  shows "\<exists>insets. answer = Ok (Some insets) \<and> 0 \<le> l \<and> 0 \<le> t \<and> 0 \<le> r \<and> 0 \<le> b \<and>
    (is_left insets \<le> int width \<longrightarrow> l \<le> fst (rw_screen raw)) \<and> (is_right insets \<le> int width \<longrightarrow> r \<le> fst (rw_screen raw)) \<and>
    (is_top insets \<le> int height \<longrightarrow> t \<le> snd (rw_screen raw)) \<and> (is_bottom insets \<le> int height \<longrightarrow> b \<le> snd (rw_screen raw))"
proof -
  let ?ppp = "pixels_per_point density zoom"
  obtain insets where i: "answer = Ok (Some insets)" "0 < ?ppp"
    "l = in_points ?ppp (nat (max 0 (is_left insets)))" "t = in_points ?ppp (nat (max 0 (is_top insets)))"
    "r = in_points ?ppp (nat (max 0 (is_right insets)))" "b = in_points ?ppp (nat (max 0 (is_bottom insets)))"
    "rw_screen raw = (in_points ?ppp width, in_points ?ppp height)"
    using assms by (auto simp: device_raw_input_def make_raw_input_def apply_android_raw_input_def Let_def
        split: prod.splits sum.splits option.splits if_splits)
  have "in_points ?ppp (nat (max 0 k)) \<le> in_points ?ppp n" if "k \<le> int n" for k n
    using that by (intro in_points_mono i(2)) simp
  with i in_points_nonneg [OF i(2)] show ?thesis by auto
qed

text \<open>A phone of 420 dots per inch has 2.625 pixels per point.\<close>

lemma phone_pixels: "native_pixels_per_point (Some 420) = 21 / 8" "native_pixels_per_point (Some 120) = 1"
  using rnd_of_nat [of 420] rnd_of_nat [of 120] rnd_eqI [of 127 "21 / 8" 11010048] rnd_eqI [of 125 "3 / 4" 12582912]
  by (simp_all add: native_pixels_per_point_def f32_div_def nat_as_f32_def units_def)


end
