(* ===== verification/Android_Jni.thy ===== *)
theory Android_Jni
  imports Android_Main
begin

text \<open>
  The calls into Java of \<open>crates/waker-app/src/lib.rs\<close>: the system window insets, the log viewer and the
  clipboard. The virtual machine answers each call as it likes, in the light of the calls before it; the
  model keeps the calls that were made.
\<close>

section \<open>The virtual machine\<close>

datatype jvalue = JObject nat | JNull | JInt int | JVoid

text \<open>
  The calls by their names and signatures; a class is the one a loader loaded, an object, or one that is
  found by its name.
\<close>

datatype java_class = Loaded jvalue | Named string

datatype jni_call =
  CallMethod jvalue string string "jvalue list"
| CallStatic java_class string string "jvalue list"
| NewString string
| CastLoader jvalue
| LoadClass jvalue jvalue

text \<open>\<open>vm_wrong_type\<close> is the error of reading a value as another type than it has.\<close>

record java_vm =
  vm_attach :: "string + unit"
  vm_activity :: "string + jvalue"
  vm_answer :: "jni_call list \<Rightarrow> jni_call \<Rightarrow> string + jvalue"
  vm_wrong_type :: string

text \<open>The code inside \<open>attach_current_thread\<close>: the calls so far are its state, \<open>?\<close> ends it.\<close>

type_synonym 'a jni = "java_vm \<Rightarrow> jni_call list \<Rightarrow> (string + 'a) \<times> jni_call list"

definition jni_return :: "'a \<Rightarrow> 'a jni" where
  "jni_return x vm calls = (Ok x, calls)"

definition jni_then :: "'a jni \<Rightarrow> ('a \<Rightarrow> 'b jni) \<Rightarrow> 'b jni" where
  "jni_then m f vm calls =
     (case m vm calls of
        (Err e, calls) \<Rightarrow> (Err e, calls)
      | (Ok x, calls) \<Rightarrow> f x vm calls)"

definition jni_call :: "jni_call \<Rightarrow> jvalue jni" where
  "jni_call c vm calls = (vm_answer vm calls c, calls @ [c])"

definition jni_activity :: "jvalue jni" where
  "jni_activity vm calls = (vm_activity vm, calls)"

text \<open>\<open>JValue::l\<close> and \<open>JValue::i\<close>.\<close>

definition jni_l :: "jvalue \<Rightarrow> jvalue jni" where
  "jni_l v vm calls = (case v of JObject n \<Rightarrow> (Ok v, calls) | JNull \<Rightarrow> (Ok v, calls) | _ \<Rightarrow> (Err (vm_wrong_type vm), calls))"

definition jni_i :: "jvalue \<Rightarrow> int jni" where
  "jni_i v vm calls = (case v of JInt n \<Rightarrow> (Ok n, calls) | _ \<Rightarrow> (Err (vm_wrong_type vm), calls))"

definition attach_current_thread :: "'a jni \<Rightarrow> java_vm \<Rightarrow> (string + 'a) \<times> jni_call list" where
  "attach_current_thread m vm =
     (case vm_attach vm of
        Err e \<Rightarrow> (Err e, [])
      | Ok _ \<Rightarrow> m vm [])"

section \<open>The three functions\<close>

definition call_l :: "jvalue \<Rightarrow> string \<Rightarrow> string \<Rightarrow> jvalue list \<Rightarrow> jvalue jni" where
  "call_l obj name sig args = jni_then (jni_call (CallMethod obj name sig args)) jni_l"

definition static_l :: "java_class \<Rightarrow> string \<Rightarrow> string \<Rightarrow> jvalue list \<Rightarrow> jvalue jni" where
  "static_l cls name sig args = jni_then (jni_call (CallStatic cls name sig args)) jni_l"

definition call_i :: "jvalue \<Rightarrow> string \<Rightarrow> int jni" where
  "call_i obj name = jni_then (jni_call (CallMethod obj name ''()I'' [])) jni_i"

definition android_system_window_insets :: "java_vm \<Rightarrow> (string + system_insets option) \<times> jni_call list" where
  "android_system_window_insets = attach_current_thread
     (jni_then jni_activity (\<lambda>activity.
      jni_then (call_l activity ''getWindow'' ''()Landroid/view/Window;'' []) (\<lambda>window.
      jni_then (call_l window ''getDecorView'' ''()Landroid/view/View;'' []) (\<lambda>decor.
      jni_then (call_l decor ''getRootWindowInsets'' ''()Landroid/view/WindowInsets;'' []) (\<lambda>insets.
      if insets = JNull then jni_return None
      else
        jni_then (call_i insets ''getSystemWindowInsetLeft'') (\<lambda>left.
        jni_then (call_i insets ''getSystemWindowInsetTop'') (\<lambda>top.
        jni_then (call_i insets ''getSystemWindowInsetRight'') (\<lambda>right.
        jni_then (call_i insets ''getSystemWindowInsetBottom'') (\<lambda>bottom.
        jni_return (Some \<lparr>is_left = left, is_top = top, is_right = right, is_bottom = bottom\<rparr>))))))))))"

definition android_open_log :: "string \<Rightarrow> java_vm \<Rightarrow> (string + unit) \<times> jni_call list" where
  "android_open_log content = attach_current_thread
     (jni_then jni_activity (\<lambda>activity.
      jni_then (call_l activity ''getClassLoader'' ''()Ljava/lang/ClassLoader;'' []) (\<lambda>class_loader.
      jni_then (jni_call (CastLoader class_loader)) (\<lambda>class_loader.
      jni_then (jni_call (NewString ''app.waker.android.LogOpener'')) (\<lambda>helper_name.
      jni_then (jni_call (LoadClass class_loader helper_name)) (\<lambda>helper_class.
      jni_then (jni_call (NewString content)) (\<lambda>text_object.
      jni_then (jni_call (CallStatic (Loaded helper_class) ''open'' ''(Landroid/app/Activity;Ljava/lang/String;)V''
        [activity, text_object])) (\<lambda>_.
      jni_return ()))))))))"

definition android_copy_text :: "string \<Rightarrow> java_vm \<Rightarrow> (string + unit) \<times> jni_call list" where
  "android_copy_text content = attach_current_thread
     (jni_then jni_activity (\<lambda>activity.
      jni_then (jni_call (NewString ''clipboard'')) (\<lambda>service_name.
      jni_then (call_l activity ''getSystemService'' ''(Ljava/lang/String;)Ljava/lang/Object;'' [service_name]) (\<lambda>clipboard.
      jni_then (jni_call (NewString ''Waker diagnostics'')) (\<lambda>label.
      jni_then (jni_call (NewString content)) (\<lambda>clipboard_text.
      jni_then (static_l (Named ''android/content/ClipData'') ''newPlainText''
        ''(Ljava/lang/CharSequence;Ljava/lang/CharSequence;)Landroid/content/ClipData;'' [label, clipboard_text]) (\<lambda>clip.
      jni_then (jni_call (CallMethod clipboard ''setPrimaryClip'' ''(Landroid/content/ClipData;)V'' [clip])) (\<lambda>_.
      jni_return ()))))))))"

text \<open>The activity as the application of \<open>App_Ui\<close> sees it.\<close>

definition jni_platform :: "java_vm \<Rightarrow> platform" where
  "jni_platform vm = Android (Some (\<lambda>t. fst (android_open_log t vm), \<lambda>t. fst (android_copy_text t vm)))"

section \<open>What Java is given\<close>

text \<open>Calls are only added, and a property of each call made is one of the code's calls.\<close>

definition jni_only :: "(jni_call \<Rightarrow> bool) \<Rightarrow> 'a jni \<Rightarrow> bool" where
  "jni_only Q m \<longleftrightarrow> (\<forall>vm calls. \<exists>cs. snd (m vm calls) = calls @ cs \<and> list_all Q cs)"

lemma jni_only_return [intro]: "jni_only Q (jni_return x)"
  by (simp add: jni_only_def jni_return_def)

lemma jni_only_activity [intro]: "jni_only Q jni_activity"
  by (simp add: jni_only_def jni_activity_def)

lemma jni_only_read [intro]: "jni_only Q (jni_l v)" "jni_only Q (jni_i v)"
  by (simp_all add: jni_only_def jni_l_def jni_i_def split: jvalue.split)

lemma jni_only_call [intro]: "Q c \<Longrightarrow> jni_only Q (jni_call c)"
  by (simp add: jni_only_def jni_call_def)

lemma jni_only_then [intro]:
  assumes m: "jni_only Q m" and f: "\<And>x. jni_only Q (f x)"
  shows "jni_only Q (jni_then m f)"
  unfolding jni_only_def
proof (intro allI)
  fix vm calls
  obtain r calls' where step: "m vm calls = (r, calls')" by force
  obtain cs where cs: "calls' = calls @ cs" "list_all Q cs" using m step unfolding jni_only_def by (metis snd_conv)
  show "\<exists>cs. snd (jni_then m f vm calls) = calls @ cs \<and> list_all Q cs"
  proof (cases r)
    case (Inl e)
    then show ?thesis using cs step by (simp add: jni_then_def)
  next
    case (Inr x)
    obtain cs' where "snd (f x vm calls') = calls' @ cs'" "list_all Q cs'" using f unfolding jni_only_def by blast
    then show ?thesis using Inr cs step by (intro exI [of _ "cs @ cs'"]) (simp add: jni_then_def)
  qed
qed

lemma attach_only: "jni_only Q m \<Longrightarrow> list_all Q (snd (attach_current_thread m vm))"
  unfolding jni_only_def attach_current_thread_def by (cases "vm_attach vm") (auto dest!: spec [of _ vm] spec [of _ "[]"])

text \<open>A text that goes to Java is one of the code's own or the content.\<close>

fun gives :: "string \<Rightarrow> jni_call \<Rightarrow> bool" where
  "gives content (NewString t) \<longleftrightarrow>
     t \<in> {content, ''app.waker.android.LogOpener'', ''clipboard'', ''Waker diagnostics''}"
| "gives content _ \<longleftrightarrow> True"

lemma open_log_gives: "list_all (gives content) (snd (android_open_log content vm))"
  unfolding android_open_log_def call_l_def
  by (rule attach_only) (intro jni_only_then jni_only_activity jni_only_call jni_only_read jni_only_return; simp)

lemma copy_text_gives: "list_all (gives content) (snd (android_copy_text content vm))"
  unfolding android_copy_text_def call_l_def static_l_def
  by (rule attach_only) (intro jni_only_then jni_only_activity jni_only_call jni_only_read jni_only_return; simp)


section \<open>The clipboard\<close>

lemma jni_thenE:
  assumes "jni_then m f vm calls = (r, calls')"
  obtains e where "m vm calls = (Err e, calls')" "r = Err e"
  | x mid where "m vm calls = (Ok x, mid)" "f x vm mid = (r, calls')"
  using assms by (auto simp: jni_then_def split: prod.splits sum.splits)

lemma call_lD:
  assumes "call_l obj name sig args vm calls = (r, calls')"
  shows "calls' = calls @ [CallMethod obj name sig args]"
  using assms by (auto simp: call_l_def jni_call_def jni_l_def split: sum.splits jvalue.splits elim!: jni_thenE)

lemma static_lD:
  assumes "static_l cls name sig args vm calls = (r, calls')"
  shows "calls' = calls @ [CallStatic cls name sig args] \<and> (\<forall>x. r = Ok x \<longrightarrow> vm_answer vm calls (CallStatic cls name sig args) = Ok x)"
  using assms by (auto simp: static_l_def jni_call_def jni_l_def split: sum.splits jvalue.splits elim!: jni_thenE)

lemmas jni_ends = jni_call_def jni_return_def jni_activity_def

definition set_clip :: "jvalue \<Rightarrow> jvalue \<Rightarrow> jni_call" where
  "set_clip clipboard clip = CallMethod clipboard ''setPrimaryClip'' ''(Landroid/content/ClipData;)V'' [clip]"

definition new_clip :: "jvalue \<Rightarrow> jvalue \<Rightarrow> jni_call" where
  "new_clip label t = CallStatic (Named ''android/content/ClipData'') ''newPlainText''
     ''(Ljava/lang/CharSequence;Ljava/lang/CharSequence;)Landroid/content/ClipData;'' [label, t]"

fun sets_clip :: "jni_call \<Rightarrow> bool" where
  "sets_clip (CallMethod obj name sig args) \<longleftrightarrow> name = ''setPrimaryClip''"
| "sets_clip _ \<longleftrightarrow> False"

lemma copy_text_cases:
  assumes "android_copy_text content vm = (r, calls)"
  obtains (unset) e where "r = Err e" "\<forall>c \<in> set calls. \<not> sets_clip c"
  | (sets) start label t clipboard clip where "\<forall>c \<in> set start. \<not> sets_clip c"
      "calls = (start @ [NewString content, new_clip label t]) @ [set_clip clipboard clip]"
      "vm_answer vm start (NewString content) = Ok t"
      "vm_answer vm (start @ [NewString content]) (new_clip label t) = Ok clip"
      "r = map_ok (\<lambda>_. ()) (vm_answer vm (start @ [NewString content, new_clip label t]) (set_clip clipboard clip))"
proof (cases "vm_attach vm")
  case (Inl e)
  then show ?thesis using assms unset [of e] by (auto simp: android_copy_text_def attach_current_thread_def)
next
  case (Inr u)
  then have "jni_then jni_activity (\<lambda>activity.
      jni_then (jni_call (NewString ''clipboard'')) (\<lambda>service_name.
      jni_then (call_l activity ''getSystemService'' ''(Ljava/lang/String;)Ljava/lang/Object;'' [service_name]) (\<lambda>clipboard.
      jni_then (jni_call (NewString ''Waker diagnostics'')) (\<lambda>label.
      jni_then (jni_call (NewString content)) (\<lambda>clipboard_text.
      jni_then (static_l (Named ''android/content/ClipData'') ''newPlainText''
        ''(Ljava/lang/CharSequence;Ljava/lang/CharSequence;)Landroid/content/ClipData;'' [label, clipboard_text]) (\<lambda>clip.
      jni_then (jni_call (CallMethod clipboard ''setPrimaryClip'' ''(Landroid/content/ClipData;)V'' [clip])) (\<lambda>_.
      jni_return ()))))))) vm [] = (r, calls)"
    using assms by (simp add: android_copy_text_def attach_current_thread_def)
  then show ?thesis
  proof (elim jni_thenE, goal_cases)
    case (7 activity m1 service m2 clipboard m3 label m4 t m5 clip m6 e)
    then show ?case
      by (intro sets [of m4 label t clipboard clip])
        (auto simp: jni_ends set_clip_def new_clip_def dest!: call_lD static_lD)
  next
    case (8 activity m1 service m2 clipboard m3 label m4 t m5 clip m6 v m7)
    then show ?case
      by (intro sets [of m4 label t clipboard clip])
        (auto simp: jni_ends set_clip_def new_clip_def dest!: call_lD static_lD)
  qed (rule unset; (assumption | auto simp: jni_ends dest!: call_lD static_lD))+
qed

text \<open>C38: \<^bold>\<open>A copy is reported exactly when it was made\<close>. Copying a text succeeds just when Java took
  a clip for its clipboard as the last call, and that clip is the one Java made of the label and the very
  string it made of the text; no other call sets the clipboard.\<close>

theorem copied_exactly:
  assumes "android_copy_text content vm = (r, calls)"
  shows "(r = Ok () \<longleftrightarrow> (\<exists>before clipboard clip v. calls = before @ [set_clip clipboard clip] \<and>
      vm_answer vm before (set_clip clipboard clip) = Ok v)) \<and>
    (\<forall>before rest clipboard clip. calls = before @ set_clip clipboard clip # rest \<longrightarrow> rest = [] \<and>
      (\<exists>start label t. before = start @ [NewString content, new_clip label t] \<and>
        vm_answer vm start (NewString content) = Ok t \<and>
        vm_answer vm (start @ [NewString content]) (new_clip label t) = Ok clip))"
proof -
  have last: "rest = [] \<and> before = start \<and> c = c'"
    if "before @ c # rest = start @ [c']" "sets_clip c" "\<forall>x \<in> set start. \<not> sets_clip x" for before c rest start c'
    using that by (cases rest rule: rev_cases) auto
  have set: "sets_clip (set_clip x y)" "\<not> sets_clip (new_clip x y)" for x y
    by (simp_all add: set_clip_def new_clip_def)
  show ?thesis
  proof (cases rule: copy_text_cases [OF assms])
    case (1 e)
    then show ?thesis using set by (auto simp: in_set_conv_decomp)
  next
    case (2 start label t clipboard clip)
    let ?before = "start @ [NewString content, new_clip label t]"
    have "\<forall>x \<in> set ?before. \<not> sets_clip x" using 2(1) set by simp
    then have only: "before @ set_clip clipboard' clip' # rest = ?before @ [set_clip clipboard clip] \<Longrightarrow>
        rest = [] \<and> before = ?before \<and> clipboard' = clipboard \<and> clip' = clip" for before clipboard' clip' rest
      using last [of before "set_clip clipboard' clip'" rest ?before "set_clip clipboard clip"] set(1)
      by (simp add: set_clip_def)
    have "r = Ok () \<longleftrightarrow> (\<exists>v. vm_answer vm ?before (set_clip clipboard clip) = Ok v)"
      unfolding 2(5) by (cases "vm_answer vm ?before (set_clip clipboard clip)") simp_all
    then have "r = Ok () \<longleftrightarrow> (\<exists>before clipboard clip v. calls = before @ [set_clip clipboard clip] \<and>
        vm_answer vm before (set_clip clipboard clip) = Ok v)"
      unfolding 2(2) using only [where rest = "[]"] by (metis (no_types, lifting))
    moreover have "rest = [] \<and> (\<exists>start label t. before = start @ [NewString content, new_clip label t] \<and>
        vm_answer vm start (NewString content) = Ok t \<and>
        vm_answer vm (start @ [NewString content]) (new_clip label t) = Ok clip')"
      if "calls = before @ set_clip clipboard' clip' # rest" for before rest clipboard' clip'
      using only [of before clipboard' clip' rest] that 2 by blast
    ultimately show ?thesis by blast
  qed
qed

text \<open>A machine that answers every call with an object, or not at all.\<close>

definition test_vm :: "nat \<Rightarrow> java_vm" where
  "test_vm n = \<lparr>vm_attach = Ok (), vm_activity = Ok (JObject 0),
     vm_answer = (\<lambda>calls c. if length calls < n then Ok (JObject (Suc (length calls))) else Err ''exception''),
     vm_wrong_type = ''wrong type''\<rparr>"

theorem copied_exactly_witness:
  "\<exists>before clipboard clip. snd (android_copy_text ''log'' (test_vm 9)) = before @ [set_clip clipboard clip]"
proof -
  have "fst (android_copy_text ''log'' (test_vm 9)) = Ok ()" by code_simp
  then show ?thesis
    using copied_exactly [of "''log''" "test_vm 9" "fst (android_copy_text ''log'' (test_vm 9))"
        "snd (android_copy_text ''log'' (test_vm 9))"] by auto
qed

section \<open>Nothing secret goes to Java\<close>

fun java_calls :: "java_vm \<Rightarrow> ui_command \<Rightarrow> jni_call list" where
  "java_calls vm (AndroidOpenLog t) = snd (android_open_log t vm)"
| "java_calls vm (AndroidCopyText t) = snd (android_copy_text t vm)"
| "java_calls vm (OpenUrl t) = []"
| "java_calls vm (CopyText t) = []"

lemma own_texts_clean:
  "t \<in> {''app.waker.android.LogOpener'', ''clipboard'', ''Waker diagnostics''} \<Longrightarrow> redacted_text t"
proof -
  have "\<not> credential_line ''app.waker.android.LogOpener''" "\<not> credential_line ''clipboard''"
    "\<not> credential_line ''Waker diagnostics''"
    by code_simp+
  then have "redacted_text ''app.waker.android.LogOpener''" "redacted_text ''clipboard''" "redacted_text ''Waker diagnostics''"
    by (simp_all add: redacted_text_def lines_def)
  then show "t \<in> {''app.waker.android.LogOpener'', ''clipboard'', ''Waker diagnostics''} \<Longrightarrow> redacted_text t" by blast
qed

text \<open>C17: \<^bold>\<open>Nothing secret goes to Java\<close>. Whatever the Android loop and the worker threads have done,
  no string that the calls into Java for the log viewer and the clipboard make of the application's
  texts has a credential line.\<close>

theorem java_gets_no_secret:
  assumes "android_reachable P C s ths" "c \<in> set (mc_commands (snd (ms_sys s)))"
    and "NewString t \<in> set (java_calls vm c)"
  shows "list_all (\<lambda>l. \<not> credential_line l) (lines t)"
proof -
  have c: "redacted_text (command_text c)"
    using reachable_clean [of P "fst (ms_sys s)" "snd (ms_sys s)" ths] android_app_reached [OF assms(1)] assms(2)
    by (simp add: app_reached_def clean_def)
  have g: "gives (command_text c) (NewString t)"
    using assms(3) open_log_gives copy_text_gives by (cases c) (auto simp: list_all_iff simp del: gives.simps)
  from g have "t = command_text c \<or> t \<in> {''app.waker.android.LogOpener'', ''clipboard'', ''Waker diagnostics''}" by auto
  then have "redacted_text t" using c own_texts_clean by blast
  then show ?thesis by (simp add: redacted_text_def)
qed

text \<open>The Android loop, with its activity, in a frame in which the log is opened.\<close>

definition jni_start :: "(nat, nat) main_state" where
  "jni_start = android_start test_env (Some ''/data'') \<lparr>di_log_dir = None, di_warning = None\<rparr> 1
     (test_machine\<lparr>mc_platform := jni_platform (test_vm 9)\<rparr>) test_device"

definition jni_turn :: "(nat, nat) loop_turn" where
  "jni_turn = test_turn\<lparr>tn_ui := (\<lambda>_. log_click)\<rparr>"

lemma jni_frame:
  "ms_sys (android_turn test_params jni_turn jni_start) = snd (show_ui test_params log_click (ms_sys jni_start))"
  by (simp add: jni_turn_def jni_start_def test_turn_simps)

lemma log_click_on_android:
  assumes a: "wa_state a = Idle" "wa_state_rx a = None" "wa_status_rx a = None" "wa_ping_rx a = None"
      "wa_terminal_deadline a = None" "wa_host_status_deadline a = None" "wa_ping_status_deadline a = None" "\<not> wa_confetti_pending a"
    and m: "mc_platform m = Android (Some (f, g))" "mc_commands m = []"
  shows "\<exists>u. mc_commands (snd (snd (show_ui P log_click (a, m)))) = [AndroidOpenLog u]"
proof -
  let ?m = "m\<lparr>mc_asked := Suc (Suc (mc_asked m))\<rparr>"
  have "frame_updates (a, m) = (a\<lparr>wa_text_input := None\<rparr>, ?m)"
    using a m by (simp add: frame_updates_def drain_state_updates_def drain_host_status_update_def drain_ping_update_def
      now_def ask_def update_terminal_state_timeout_def update_diagnostic_result_timeouts_def deadline_turn_def
      repaint_in_def Let_def)
  then show ?thesis
    using a m by (simp add: show_ui_def render_wake_button_def log_click_def wake_click_def render_settings_def
      render_diagnostics_def render_fritz_status_diagnostic_def render_ping_diagnostic_def open_log_def issue_def
      case_prod_beta Let_def)
qed

lemma jni_log_opened:
  "\<exists>u. mc_commands (snd (ms_sys (android_turn test_params jni_turn jni_start))) = [AndroidOpenLog u]"
  unfolding jni_frame
  by (simp add: jni_start_def android_start_def app_new_def test_machine_def jni_platform_def Let_def log_click_on_android)

lemma jni_reached: "android_reachable test_params (\<lambda>_. True) (android_turn test_params jni_turn jni_start) []"
  unfolding jni_start_def
  by (intro android_reachable.turns android_reachable.starts)
    (simp_all add: test_machine_def test_device_def android_start_def Let_def list_all_iff)

theorem java_gets_no_secret_witness:
  "\<exists>(s :: (nat, nat) main_state) u. android_reachable test_params (\<lambda>_. True) s [] \<and>
     AndroidOpenLog u \<in> set (mc_commands (snd (ms_sys s))) \<and>
     NewString u \<in> set (java_calls (test_vm 9) (AndroidOpenLog u)) \<and>
     list_all (\<lambda>l. \<not> credential_line l) (lines u)"
proof -
  from jni_log_opened obtain u
    where u: "AndroidOpenLog u \<in> set (mc_commands (snd (ms_sys (android_turn test_params jni_turn jni_start))))"
    by auto
  have n: "NewString u \<in> set (java_calls (test_vm 9) (AndroidOpenLog u))"
    by (simp add: android_open_log_def attach_current_thread_def test_vm_def call_l_def jni_then_def jni_ends jni_l_def)
  show ?thesis
    using jni_reached u n java_gets_no_secret [OF jni_reached u n] by blast
qed

end
