(* ===== verification/Android_Chrome.thy ===== *)
theory Android_Chrome
  imports Main
begin

text \<open>
  The part of \<open>WakerApp::show_ui\<close> in \<open>crates/waker-app/src/lib.rs\<close> that fills the screen behind Android's
  system bars. The coordinates are those of egui, of any linear order; a width or height, the difference
  of two of them, is positive just when the second is the greater.
\<close>

record 'f rect =
  re_min :: "'f \<times> 'f"
  re_max :: "'f \<times> 'f"

definition from_min_max :: "'f \<times> 'f \<Rightarrow> 'f \<times> 'f \<Rightarrow> 'f rect" where
  "from_min_max a b = \<lparr>re_min = a, re_max = b\<rparr>"

definition system_chrome_rects :: "'f rect \<Rightarrow> 'f rect \<Rightarrow> 'f rect list" where
  "system_chrome_rects viewport content =
     [from_min_max (re_min viewport) (fst (re_max viewport), snd (re_min content)),
      from_min_max (fst (re_min viewport), snd (re_max content)) (re_max viewport),
      from_min_max (fst (re_min viewport), snd (re_min content)) (fst (re_min content), snd (re_max content)),
      from_min_max (fst (re_max content), snd (re_min content)) (fst (re_max viewport), snd (re_max content))]"

definition filled_chrome :: "'f::linorder rect \<Rightarrow> 'f rect \<Rightarrow> 'f rect list" where
  "filled_chrome viewport content =
     filter (\<lambda>r. fst (re_min r) < fst (re_max r) \<and> snd (re_min r) < snd (re_max r)) (system_chrome_rects viewport content)"

text \<open>The points of a rectangle, without its right and its lower edge.\<close>

definition covers :: "'f::linorder rect \<Rightarrow> 'f \<times> 'f \<Rightarrow> bool" where
  "covers r p \<longleftrightarrow> fst (re_min r) \<le> fst p \<and> fst p < fst (re_max r) \<and> snd (re_min r) \<le> snd p \<and> snd p < snd (re_max r)"

definition within :: "'f::linorder rect \<Rightarrow> 'f rect \<Rightarrow> bool" where
  "within inner outer \<longleftrightarrow> fst (re_min outer) \<le> fst (re_min inner) \<and> snd (re_min outer) \<le> snd (re_min inner) \<and>
     fst (re_min inner) \<le> fst (re_max inner) \<and> snd (re_min inner) \<le> snd (re_max inner) \<and>
     fst (re_max inner) \<le> fst (re_max outer) \<and> snd (re_max inner) \<le> snd (re_max outer)"

lemma covered_not_empty: "covers r p \<Longrightarrow> fst (re_min r) < fst (re_max r) \<and> snd (re_min r) < snd (re_max r)"
  by (auto simp: covers_def)

lemma filled_covers: "filter (\<lambda>r. covers r p) (filled_chrome viewport content) =
    filter (\<lambda>r. covers r p) (system_chrome_rects viewport content)"
  unfolding filled_chrome_def filter_filter by (rule filter_cong) (auto dest: covered_not_empty)

text \<open>\<^bold>\<open>the system bars are filled, once, and nothing else\<close>. When the content lies in the viewport,
  every point of the viewport is covered by the content or by exactly one of the rectangles that are filled,
  never by both, and no filled rectangle reaches beyond the viewport.\<close>

theorem chrome_partition:
  assumes "within content viewport"
  shows "length (filter (\<lambda>r. covers r p) (filled_chrome viewport content)) =
    (if covers viewport p \<and> \<not> covers content p then 1 else 0)"
  unfolding filled_covers using assms
  by (auto simp: system_chrome_rects_def from_min_max_def covers_def within_def)

theorem chrome_partition_witness:
  "length (filter (\<lambda>r. covers r (5, 1)) (filled_chrome \<lparr>re_min = (0, 0), re_max = (10, 20)\<rparr> \<lparr>re_min = (0, 2), re_max = (10, 18 :: int)\<rparr>)) = 1"
  using chrome_partition [of "\<lparr>re_min = (0, 2), re_max = (10, 18 :: int)\<rparr>" "\<lparr>re_min = (0, 0), re_max = (10, 20)\<rparr>" "(5, 1)"]
  by (simp add: within_def covers_def)

end
