(* ===== verification/Drawing.thy ===== *)
theory Drawing
  imports App_Ui Android_Chrome F32
begin

text \<open>
  What \<open>crates/waker-app/src/lib.rs\<close> draws itself: the confetti of a PC that woke, the logo, the background
  and the colours of the wake button. Numbers are \<open>f32\<close>; egui's vector arithmetic, the sine and cosine of the
  standard library and the random numbers are parameters, colours and shapes are the calls that make them.
\<close>

section \<open>Drawing\<close>

type_synonym vec2 = "f32 \<times> f32"

datatype colour = FromRgb u8 u8 u8 | White | FromWhiteAlpha u8 | GammaMultiply colour f32

datatype painted = ConvexPolygon "vec2 list" colour | PaintedImage string "f32 rect" "f32 rect" colour

text \<open>
  \<open>gm_add\<close> is \<open>+\<close> of a position or vector and a vector, \<open>gm_scale\<close> is \<open>*\<close> of a vector and a number; the rest
  are \<open>Rect::expand\<close>, \<open>Rect::width\<close>, \<open>Rect::from_min_size\<close>, \<open>f32::sin\<close> and \<open>f32::cos\<close>.
\<close>

record geometry =
  gm_add :: "vec2 \<Rightarrow> vec2 \<Rightarrow> vec2"
  gm_scale :: "vec2 \<Rightarrow> f32 \<Rightarrow> vec2"
  gm_expand :: "f32 rect \<Rightarrow> f32 \<Rightarrow> f32 rect"
  gm_width :: "f32 rect \<Rightarrow> f32"
  gm_from_min_size :: "vec2 \<Rightarrow> vec2 \<Rightarrow> f32 rect"
  gm_sin :: "f32 \<Rightarrow> f32"
  gm_cos :: "f32 \<Rightarrow> f32"

section \<open>The confetti\<close>

datatype confetti_shape = Rectangle | Triangle

record confetti_particle =
  cp_offset :: vec2
  cp_velocity :: vec2
  cp_rotation :: f32
  cp_angular_velocity :: f32
  cp_size :: f32
  cp_shape :: confetti_shape
  cp_colour :: colour

record confetti_burst =
  cb_started_at :: instant
  cb_origin :: vec2
  cb_particles :: "confetti_particle list"

definition confetti_particle_count :: nat where "confetti_particle_count = 50"

text \<open>The random numbers: a half-open range of \<open>f32\<close>, a truth value of a probability, an index.\<close>

record 'g random =
  rg_range :: "f32 \<Rightarrow> f32 \<Rightarrow> 'g \<Rightarrow> f32 \<times> 'g"
  rg_bool :: "rat \<Rightarrow> 'g \<Rightarrow> bool \<times> 'g"
  rg_index :: "nat \<Rightarrow> 'g \<Rightarrow> nat \<times> 'g"

definition confetti_colours :: "colour list" where
  "confetti_colours = [FromRgb 254 211 95, FromRgb 253 129 40, FromRgb 181 230 253, FromRgb 1 96 202, FromRgb 240 255 255]"

text \<open>\<open>std::f32::consts::TAU\<close>.\<close>

definition tau :: f32 where "tau = 13176795 / 2 ^ 21"

definition new_particle :: "geometry \<Rightarrow> 'g random \<Rightarrow> 'g \<Rightarrow> confetti_particle \<times> 'g" where
  "new_particle G R g =
     (let (angle, g) = rg_range R (rnd (- 245 / 100)) (rnd (- 70 / 100)) g;
          (speed, g) = rg_range R 145 320 g;
          direction = (gm_cos G angle, gm_sin G angle);
          (x, g) = rg_range R (- 24) 24 g;
          (y, g) = rg_range R (- 5) 5 g;
          velocity = gm_scale G direction speed;
          (rotation, g) = rg_range R 0 tau g;
          (angular_velocity, g) = rg_range R (- 7) 7 g;
          (extent, g) = rg_range R 6 11 g;
          (rectangle, g) = rg_bool R (72 / 100) g;
          (i, g) = rg_index R (length confetti_colours) g
      in (\<lparr>cp_offset = (x, y), cp_velocity = velocity, cp_rotation = rotation,
            cp_angular_velocity = angular_velocity, cp_size = extent,
            cp_shape = (if rectangle then Rectangle else Triangle), cp_colour = confetti_colours ! i\<rparr>, g))"

fun new_particles :: "geometry \<Rightarrow> 'g random \<Rightarrow> nat \<Rightarrow> 'g \<Rightarrow> confetti_particle list \<times> 'g" where
  "new_particles G R 0 g = ([], g)"
| "new_particles G R (Suc n) g =
     (let (p, g) = new_particle G R g; (ps, g) = new_particles G R n g in (p # ps, g))"

text \<open>\<open>ConfettiBurst::new\<close>; \<open>t\<close> is the time the clock shows when the particles are made.\<close>

definition new_burst :: "geometry \<Rightarrow> 'g random \<Rightarrow> 'g \<Rightarrow> vec2 \<Rightarrow> instant \<Rightarrow> confetti_burst" where
  "new_burst G R g origin t =
     \<lparr>cb_started_at = t, cb_origin = origin, cb_particles = fst (new_particles G R confetti_particle_count g)\<rparr>"

definition alpha_scale :: "duration \<Rightarrow> f32" where
  "alpha_scale elapsed =
     (let t = as_secs_f32 elapsed;
          total = as_secs_f32 confetti_duration;
          fade_start = f32_mul total (rnd (62 / 100))
      in if t \<le> fade_start then 1
         else f32_sub 1 (f32_clamp 0 1 (f32_div (f32_sub t fade_start) (f32_sub total fade_start))))"

definition gravity :: f32 where "gravity = 390"

definition particle_position :: "geometry \<Rightarrow> vec2 \<Rightarrow> confetti_particle \<Rightarrow> f32 \<Rightarrow> vec2" where
  "particle_position G origin p t =
     gm_add G (gm_add G (gm_add G origin (cp_offset p)) (gm_scale G (cp_velocity p) t))
       (0, f32_mul (f32_mul (f32_mul (1 / 2) gravity) t) t)"

definition rotate_vec :: "geometry \<Rightarrow> f32 \<Rightarrow> vec2 \<Rightarrow> vec2" where
  "rotate_vec G rotation v =
     (let s = gm_sin G rotation; c = gm_cos G rotation
      in (f32_sub (f32_mul (fst v) c) (f32_mul (snd v) s), f32_add (f32_mul (fst v) s) (f32_mul (snd v) c)))"

definition piece_corners :: "f32 \<Rightarrow> confetti_shape \<Rightarrow> vec2 list" where
  "piece_corners extent shape =
     (let times = (\<lambda>k. f32_mul (rnd k) extent)
      in case shape of
           Rectangle \<Rightarrow>
             [(times (- 60 / 100), times (- 32 / 100)), (times (60 / 100), times (- 32 / 100)),
              (times (60 / 100), times (32 / 100)), (times (- 60 / 100), times (32 / 100))]
         | Triangle \<Rightarrow>
             [(0, times (- 72 / 100)), (times (65 / 100), times (50 / 100)), (times (- 65 / 100), times (50 / 100))])"

definition paint_confetti_piece :: "geometry \<Rightarrow> vec2 \<Rightarrow> f32 \<Rightarrow> f32 \<Rightarrow> colour \<Rightarrow> confetti_shape \<Rightarrow> painted" where
  "paint_confetti_piece G centre extent rotation colour shape =
     ConvexPolygon (map (\<lambda>v. gm_add G centre (rotate_vec G rotation v)) (piece_corners extent shape)) colour"

definition paint_particle :: "geometry \<Rightarrow> vec2 \<Rightarrow> duration \<Rightarrow> confetti_particle \<Rightarrow> painted" where
  "paint_particle G origin elapsed p =
     (let t = as_secs_f32 elapsed
      in paint_confetti_piece G (particle_position G origin p t) (cp_size p)
           (f32_add (cp_rotation p) (f32_mul (cp_angular_velocity p) t))
           (GammaMultiply (cp_colour p) (alpha_scale elapsed)) (cp_shape p))"

text \<open>
  \<open>paint_confetti\<close> at time \<open>t\<close>: the burst that is left, whether another frame is asked for, and what is drawn.
\<close>

definition draw_confetti :: "geometry \<Rightarrow> confetti_burst option \<Rightarrow> instant \<Rightarrow> confetti_burst option \<times> bool \<times> painted list" where
  "draw_confetti G burst t =
     (case burst of
        None \<Rightarrow> (None, False, [])
      | Some b \<Rightarrow>
          (let elapsed = t - cb_started_at b
           in if elapsed \<ge> confetti_duration then (None, False, [])
              else (Some b, True, map (paint_particle G (cb_origin b) elapsed) (cb_particles b))))"

section \<open>Logo, background, wake button\<close>

record branding =
  br_logo_size :: vec2
  br_background_size :: vec2

definition paint_branding_background :: "geometry \<Rightarrow> branding option \<Rightarrow> f32 rect \<Rightarrow> painted list" where
  "paint_branding_background G branding max_rect =
     (case branding of
        None \<Rightarrow> []
      | Some b \<Rightarrow>
          (let panel = gm_expand G max_rect 8; image_size = br_background_size b
           in if fst image_size \<le> 0 \<or> snd image_size \<le> 0 \<or> gm_width G panel \<le> 0 then []
              else (let scale = f32_div (gm_width G panel) (fst image_size);
                        draw_size = gm_scale G image_size scale;
                        draw_rect = gm_from_min_size G
                          (fst (re_min panel), f32_sub (snd (re_max panel)) (snd draw_size)) draw_size
                    in [PaintedImage ''waker-background'' draw_rect (from_min_max (0, 0) (1, 1)) (FromWhiteAlpha 56)])))"

datatype logo_item = Heading string | Space f32 | Logo f32 f32

definition render_branding_logo :: "branding option \<Rightarrow> f32 \<Rightarrow> logo_item list" where
  "render_branding_logo branding available =
     (case branding of
        None \<Rightarrow> [Heading ''Waker'']
      | Some b \<Rightarrow>
          (let source_size = br_logo_size b;
               available_width = max (f32_sub available (f32_mul 2 16)) 0;
               width = min available_width 300
           in if fst source_size \<le> 0 \<or> snd source_size \<le> 0 \<or> width \<le> 0 then []
              else (let height = f32_div (f32_mul width (snd source_size)) (fst source_size)
                    in [Space 16, Logo width height, Space 16])))"

text \<open>The colours of the wake button: of its label and of its face.\<close>

definition wake_button_colours :: "wake_state \<Rightarrow> colour \<times> colour" where
  "wake_button_colours state =
     (if state = Awake then (White, FromRgb 248 160 56) else (FromRgb 32 24 16, FromRgb 181 230 253))"

text \<open>The alpha that egui draws a disabled button with, once the PC woke.\<close>

definition wake_button_disabled_alpha :: "wake_state \<Rightarrow> f32 option" where
  "wake_button_disabled_alpha state = (if state = Awake then Some 1 else None)"


section \<open>The confetti fades\<close>

lemma confetti_seconds: "as_secs_f32 confetti_duration = 7130317 / 4194304"
proof -
  have d: "confetti_duration div 1000000000 = 1" "confetti_duration mod 1000000000 = 700000000"
    by (simp_all add: confetti_duration_def from_millis_def)
  have n: "nat_as_f32 700000000 = 700000000" "nat_as_f32 1 = 1"
    using rnd_whole [of 2734375 700000000 8] by (simp_all add: nat_as_f32_def)
  have f: "rnd (7 / 10) = 11744051 / 16777216"
    using rnd_eqI [of 125 "7 / 10" 11744051] by (simp add: units_def)
  have s: "rnd (28521267 / 16777216) = 7130317 / 4194304"
    using rnd_eqI [of 126 "28521267 / 16777216" 14260634] by (simp add: units_def)
  show ?thesis unfolding as_secs_f32_def d n f32_add_def f32_div_def by (simp add: f s)
qed

lemma fade_values: "f32_mul (7130317 / 4194304) (rnd (62 / 100)) = 8841593 / 8388608"
  "f32_sub (7130317 / 4194304) (8841593 / 8388608) = 5419041 / 8388608"
proof -
  have f: "rnd (31 / 50) = 5200937 / 8388608"
    using rnd_eqI [of 125 "31 / 50" 10401874] by (simp add: units_def)
  show "f32_mul (7130317 / 4194304) (rnd (62 / 100)) = 8841593 / 8388608"
    using rnd_eqI [of 126 "7130317 / 4194304 * (5200937 / 8388608)" 8841593] by (simp add: f32_mul_def f units_def)
  show "f32_sub (7130317 / 4194304) (8841593 / 8388608) = 5419041 / 8388608"
    using rnd_eqI [of 125 "5419041 / 8388608" 10838082] by (simp add: f32_sub_def units_def)
qed

lemma alpha_scale_eq:
  "alpha_scale e = (if as_secs_f32 e \<le> 8841593 / 8388608 then 1
     else rnd (1 - f32_clamp 0 1 (rnd (rnd (as_secs_f32 e - 8841593 / 8388608) / (5419041 / 8388608)))))"
  unfolding alpha_scale_def Let_def confetti_seconds fade_values
  by (simp only: f32_sub_def f32_div_def)

lemma clamp_bounds: "0 \<le> f32_clamp 0 1 x" "f32_clamp 0 1 x \<le> 1"
  by (simp_all add: f32_clamp_def)

lemma clamp_mono: "x \<le> y \<Longrightarrow> f32_clamp 0 1 x \<le> f32_clamp 0 1 y"
  by (auto simp: f32_clamp_def)

lemma alpha_bounds: "0 \<le> alpha_scale e" "alpha_scale e \<le> 1"
  using clamp_bounds by (auto simp: alpha_scale_eq intro!: rnd_nonneg rnd_le_1)

lemma alpha_antimono:
  assumes "d \<le> e" "e div 1000000000 < 2 ^ 24"
  shows "alpha_scale e \<le> alpha_scale d"
proof (cases "as_secs_f32 d \<le> 8841593 / 8388608")
  case True
  then show ?thesis using alpha_bounds(2) [of e] by (simp add: alpha_scale_eq [of d])
next
  case False
  note t = as_secs_f32_mono [OF assms]
  have "rnd (rnd (as_secs_f32 d - 8841593 / 8388608) / (5419041 / 8388608)) \<le>
      rnd (rnd (as_secs_f32 e - 8841593 / 8388608) / (5419041 / 8388608))"
    using t by (intro rnd_mono divide_right_mono) simp_all
  then show ?thesis using False t
    by (auto simp: alpha_scale_eq intro!: rnd_mono diff_left_mono clamp_mono)
qed

lemma alpha_first:
  assumes "e \<le> from_millis 1054"
  shows "alpha_scale e = 1"
proof -
  have d: "from_millis 1054 div 1000000000 = 1" "from_millis 1054 mod 1000000000 = 54000000"
    by (simp_all add: from_millis_def)
  have n: "nat_as_f32 54000000 = 54000000" "nat_as_f32 1 = 1"
    using rnd_whole [of 421875 54000000 7] by (simp_all add: nat_as_f32_def)
  have f: "rnd (27 / 500) = 14495515 / 268435456"
    using rnd_eqI [of 121 "27 / 500" 14495515] by (simp add: units_def)
  have s: "rnd (282930971 / 268435456) = 8841593 / 8388608"
    using rnd_eqI [of 126 "282930971 / 268435456" 8841593] by (simp add: units_def)
  have "as_secs_f32 (from_millis 1054) = 8841593 / 8388608"
    unfolding as_secs_f32_def d n f32_add_def f32_div_def by (simp add: f s)
  moreover have "as_secs_f32 e \<le> as_secs_f32 (from_millis 1054)"
    by (intro as_secs_f32_mono assms) (simp add: d)
  ultimately show ?thesis by (simp add: alpha_scale_eq)
qed

lemma confetti_span: "e < confetti_duration \<Longrightarrow> e div 1000000000 < 2 ^ 24"
  by (simp add: confetti_duration_def from_millis_def div_less_iff_less_mult)

section \<open>The burst\<close>

text \<open>What the documentation of \<open>rand\<close> says of the numbers drawn.\<close>

definition documented_random :: "'g random \<Rightarrow> bool" where
  "documented_random R \<longleftrightarrow>
     (\<forall>lo hi g. lo < hi \<longrightarrow> lo \<le> fst (rg_range R lo hi g) \<and> fst (rg_range R lo hi g) < hi) \<and>
     (\<forall>n g. 0 < n \<longrightarrow> fst (rg_index R n g) < n)"

definition particle_ok :: "confetti_particle \<Rightarrow> bool" where
  "particle_ok p \<longleftrightarrow>
     \<bar>fst (cp_offset p)\<bar> \<le> 24 \<and> \<bar>snd (cp_offset p)\<bar> \<le> 5 \<and> 0 \<le> cp_rotation p \<and> cp_rotation p < tau \<and>
     \<bar>cp_angular_velocity p\<bar> \<le> 7 \<and> 6 \<le> cp_size p \<and> cp_size p < 11 \<and> cp_colour p \<in> set confetti_colours"

lemma new_particle_ok:
  assumes "documented_random R"
  shows "particle_ok (fst (new_particle G R g))"
proof -
  have range: "lo < hi \<Longrightarrow> lo \<le> fst (rg_range R lo hi g) \<and> fst (rg_range R lo hi g) < hi" for lo hi g
    using assms by (simp add: documented_random_def)
  have "fst (rg_index R (length confetti_colours) g) < length confetti_colours" for g
    using assms by (simp add: documented_random_def confetti_colours_def)
  then have colour: "confetti_colours ! fst (rg_index R (length confetti_colours) g) \<in> set confetti_colours" for g
    by (rule nth_mem)
  have a: "- 24 \<le> x \<Longrightarrow> x < 24 \<Longrightarrow> \<bar>x\<bar> \<le> 24" "- 5 \<le> x \<Longrightarrow> x < 5 \<Longrightarrow> \<bar>x\<bar> \<le> 5" "- 7 \<le> x \<Longrightarrow> x < 7 \<Longrightarrow> \<bar>x\<bar> \<le> 7" for x :: f32
    by auto
  have "(0 :: f32) < tau" by (simp add: tau_def)
  then show ?thesis
    unfolding particle_ok_def new_particle_def Let_def case_prod_beta
    by (simp add: range a colour)
qed

lemma new_particles_ok:
  "documented_random R \<Longrightarrow> length (fst (new_particles G R n g)) = n \<and> list_all particle_ok (fst (new_particles G R n g))"
proof (induction n arbitrary: g)
  case (Suc n)
  then show ?case using new_particle_ok [of R G g] by (simp add: case_prod_beta Let_def)
qed simp

lemma paint_particle_shape:
  "particle_ok p \<Longrightarrow> \<exists>corners c. paint_particle G origin e p = ConvexPolygon corners (GammaMultiply c (alpha_scale e)) \<and>
     c \<in> set confetti_colours \<and> (length corners = 3 \<or> length corners = 4)"
  by (cases "cp_shape p") (simp_all add: paint_particle_def paint_confetti_piece_def piece_corners_def Let_def particle_ok_def)

text \<open>What \<open>App_Ui\<close> keeps of it, the start of the burst and the request for a frame, is what this drawing does.\<close>

lemma confetti_refines:
  assumes "wa_confetti a = map_option cb_started_at burst" "now m = (t, m1)"
    and "draw_confetti G burst t = (burst', again, shapes)"
  shows "paint_confetti (a, m) =
    (a\<lparr>wa_confetti := map_option cb_started_at burst'\<rparr>,
     if burst = None then m else if again then request_repaint_after 0 m1 else m1)"
proof (cases burst)
  case None
  then have w: "wa_confetti a = None" using assms(1) by simp
  then have same: "a\<lparr>wa_confetti := None\<rparr> = a" by (cases a) simp
  have "burst' = None" using assms(3) None by (simp add: draw_confetti_def)
  then show ?thesis by (simp add: paint_confetti_def None w same)
next
  case (Some b)
  then have w: "wa_confetti a = Some (cb_started_at b)" using assms(1) by simp
  then have same: "a\<lparr>wa_confetti := Some (cb_started_at b)\<rparr> = a" by (cases a) simp
  have "burst' = (if confetti_duration \<le> t - cb_started_at b then None else Some b)"
    "again \<longleftrightarrow> \<not> confetti_duration \<le> t - cb_started_at b"
    using assms(3) Some by (simp_all add: draw_confetti_def Let_def split: if_splits)
  then show ?thesis by (simp add: paint_confetti_def w Some assms(2) same)
qed

text \<open>C40: \<^bold>\<open>the confetti fades and goes\<close>. Whatever numbers are drawn within their documented ranges, a burst
  is drawn for 1.7 seconds as fifty polygons of three or four corners, each of one of the five colours and all
  of one opacity, and asks for the next frame; that opacity lies between 0 and 1, is 1 for the first 1.054
  seconds and never grows from a frame to a later one, single-precision rounding included. From then on nothing
  is drawn, and the burst is gone.\<close>

theorem confetti_fades:
  assumes "documented_random R" "burst = new_burst G R g origin start"
  shows "(t - start < confetti_duration \<longrightarrow>
      (\<exists>shapes. draw_confetti G (Some burst) t = (Some burst, True, shapes) \<and> length shapes = 50 \<and>
        (\<forall>s \<in> set shapes. \<exists>corners c. s = ConvexPolygon corners (GammaMultiply c (alpha_scale (t - start))) \<and>
           c \<in> set confetti_colours \<and> (length corners = 3 \<or> length corners = 4)) \<and>
        0 \<le> alpha_scale (t - start) \<and> alpha_scale (t - start) \<le> 1 \<and>
        (t - start \<le> from_millis 1054 \<longrightarrow> alpha_scale (t - start) = 1) \<and>
        (\<forall>earlier \<le> t. alpha_scale (t - start) \<le> alpha_scale (earlier - start)))) \<and>
    (confetti_duration \<le> t - start \<longrightarrow> draw_confetti G (Some burst) t = (None, False, []))"
proof -
  have b: "length (cb_particles burst) = 50" "list_all particle_ok (cb_particles burst)" "cb_started_at burst = start"
    using new_particles_ok [OF assms(1)] by (simp_all add: assms(2) new_burst_def confetti_particle_count_def)
  show ?thesis
  proof (cases "t - start < confetti_duration")
    case True
    let ?shapes = "map (paint_particle G (cb_origin burst) (t - start)) (cb_particles burst)"
    have drawn: "draw_confetti G (Some burst) t = (Some burst, True, ?shapes)"
      using True by (simp add: draw_confetti_def b(3) Let_def)
    have shapes: "\<exists>corners c. s = ConvexPolygon corners (GammaMultiply c (alpha_scale (t - start))) \<and>
        c \<in> set confetti_colours \<and> (length corners = 3 \<or> length corners = 4)" if s: "s \<in> set ?shapes" for s
    proof -
      obtain p where "p \<in> set (cb_particles burst)" "s = paint_particle G (cb_origin burst) (t - start) p" using s by auto
      with b(2) paint_particle_shape [of p] show ?thesis by (simp add: list_all_iff)
    qed
    have fade: "alpha_scale (t - start) \<le> alpha_scale (earlier - start)" if "earlier \<le> t" for earlier
      using that by (intro alpha_antimono confetti_span True) simp
    show ?thesis
      using True drawn shapes fade alpha_bounds [of "t - start"] alpha_first [of "t - start"] b(1)
      by (intro conjI impI exI [of _ ?shapes]) (simp_all only: length_map, simp_all)
  qed (simp add: draw_confetti_def b(3))
qed

text \<open>A source of numbers that always gives the least one, and vectors added and scaled by their parts.\<close>

definition least_random :: "unit random" where
  "least_random = \<lparr>rg_range = (\<lambda>lo hi g. (lo, g)), rg_bool = (\<lambda>p g. (True, g)), rg_index = (\<lambda>n g. (0, g))\<rparr>"

definition plain_geometry :: geometry where
  "plain_geometry = \<lparr>gm_add = (\<lambda>a b. (f32_add (fst a) (fst b), f32_add (snd a) (snd b))),
     gm_scale = (\<lambda>v k. (f32_mul (fst v) k, f32_mul (snd v) k)),
     gm_expand = (\<lambda>r k. from_min_max (f32_sub (fst (re_min r)) k, f32_sub (snd (re_min r)) k)
       (f32_add (fst (re_max r)) k, f32_add (snd (re_max r)) k)),
     gm_width = (\<lambda>r. f32_sub (fst (re_max r)) (fst (re_min r))),
     gm_from_min_size = (\<lambda>a v. from_min_max a (f32_add (fst a) (fst v), f32_add (snd a) (snd v))),
     gm_sin = (\<lambda>_. 0), gm_cos = (\<lambda>_. 1)\<rparr>"

theorem confetti_fades_witness:
  "\<exists>shapes. draw_confetti plain_geometry (Some (new_burst plain_geometry least_random () (80, 26) 5)) (from_secs 1) =
     (Some (new_burst plain_geometry least_random () (80, 26) 5), True, shapes) \<and> length shapes = 50 \<and>
     alpha_scale (from_secs 1 - 5) = 1"
proof -
  have r: "documented_random least_random" by (simp add: documented_random_def least_random_def)
  have "from_secs 1 - 5 < confetti_duration" "from_secs 1 - 5 \<le> from_millis 1054"
    by (simp_all add: from_secs_def from_millis_def confetti_duration_def)
  with confetti_fades [OF r refl, of "from_secs 1" 5 plain_geometry "()" "(80, 26)"] show ?thesis by blast
qed

section \<open>The logo and the background\<close>

text \<open>The logo is never wider than 300 points nor than the place it has, and keeps its margins.\<close>

lemma logo_fits:
  assumes "Logo w h \<in> set (render_branding_logo branding available)"
  shows "render_branding_logo branding available = [Space 16, Logo w h, Space 16] \<and> 0 < w \<and> w \<le> 300 \<and>
    w \<le> f32_sub available 32 \<and> 0 \<le> h"
proof -
  have m: "f32_mul 2 16 = 32" using rnd_of_nat [of 32] by (simp add: f32_mul_def)
  obtain b where b: "branding = Some b" using assms by (cases branding) (simp_all add: render_branding_logo_def)
  with assms m show ?thesis
    by (auto simp: render_branding_logo_def Let_def f32_div_def f32_mul_def split: if_splits intro!: rnd_nonneg divide_nonneg_pos)
qed

text \<open>The background is drawn once, when there is anything to draw it with, at the left of its panel.\<close>

lemma background_drawn:
  "paint_branding_background G branding r \<noteq> [] \<longleftrightarrow>
    (\<exists>b. branding = Some b \<and> 0 < fst (br_background_size b) \<and> 0 < snd (br_background_size b) \<and> 0 < gm_width G (gm_expand G r 8))"
  by (auto simp: paint_branding_background_def Let_def not_le split: option.split)

end
