(* ===== verification/Tests_App.thy ===== *)
theory Tests_App
  imports App_Progress
begin

text \<open>
  The unit tests of \<open>waker-app/src/lib.rs\<close> and of \<open>diagnostics.rs\<close>, each as a predicate that holds when the test passes, over
  what the test leaves open: the environment \<open>env\<close>, the machine \<open>m\<close> and its clock, the home
  directory, the decimal format of seconds.
\<close>

section \<open>Text\<close>

text \<open>\<open>Path::ends_with\<close> compares whole components.\<close>

definition path_components :: "string \<Rightarrow> string list" where
  "path_components p =
     (let parts = split_on CHR ''/'' p
      in (if starts_with p ''/'' then [''/''] else if hd parts = ''.'' then [''.''] else []) @
         filter (\<lambda>c. c \<noteq> [] \<and> c \<noteq> ''.'') parts)"

definition path_ends_with :: "string \<Rightarrow> string \<Rightarrow> bool" where
  "path_ends_with p q \<longleftrightarrow> suffix (path_components q) (path_components p)"

definition expands_home_prefix :: "string option \<Rightarrow> bool" where
  "expands_home_prefix home \<longleftrightarrow> path_ends_with (expand_home home ''~/profile.conf'') ''profile.conf''"

definition parses_waker_fields_from_combined_profile :: bool where
  "parses_waker_fields_from_combined_profile \<longleftrightarrow>
     (let settings = parse_waker_file_settings
            (''[Interface]'' @ [nl] @ ''Address = 192.0.2.2/24'' @ [nl] @ ''WakerFritzIP = 192.168.178.1'' @ [nl] @
             ''WakerPcMac = AA:BB:CC:DD:EE:FF'' @ [nl] @
             ''[Peer]'' @ [nl] @ ''Endpoint = example.invalid:51820'' @ [nl])
      in fs_fritz_ip settings = Some ''192.168.178.1'' \<and> fs_pc_mac settings = Some ''AA:BB:CC:DD:EE:FF'')"

text \<open>\<open>str::matches\<close> counts the occurrences that do not overlap; the tests search for non-empty texts.\<close>

function matches_count :: "string \<Rightarrow> string \<Rightarrow> nat" where
  "matches_count p s =
     (if p = [] then length s + 1
      else case split_once_str p s of None \<Rightarrow> 0 | Some (_, rest) \<Rightarrow> Suc (matches_count p rest))"
  by pat_completeness auto
termination
proof (relation "measure (\<lambda>(p, s). length s)")
  fix p s :: string and at before rest
  assume "p \<noteq> []" "split_once_str p s = Some at" "(before, rest) = at"
  then show "((p, rest), p, s) \<in> measure (\<lambda>(p, s). length s)"
    by (cases p) (auto simp: split_once_str_def split: option.splits dest!: find_str_SomeD)
qed simp

declare matches_count.simps [simp del]

definition copied_diagnostics_redact_wireguard_secret_fields :: bool where
  "copied_diagnostics_redact_wireguard_secret_fields \<longleftrightarrow>
     (let copied = sanitize_diagnostics
            (''ok'' @ [nl] @ ''PrivateKey = secret'' @ [nl] @ ''preshared_key=also-secret'' @ [nl] @
             ''has_preshared_key=true'' @ [nl] @ ''still ok'')
      in \<not> contains copied ''secret'' \<and> contains copied ''has_preshared_key=true'' \<and>
         matches_count ''[REDACTED credential line]'' copied = 2)"

definition text_log_uri_percent_encodes_content :: bool where
  "text_log_uri_percent_encodes_content \<longleftrightarrow>
     text_data_uri (''line 1'' @ [nl] @ ''A&B'') = ''data:text/plain;charset=utf-8,line%201%0AA%26B''"

text \<open>\<open>first_ms\<close> and \<open>second_ms\<close> are the times of the two calls, \<open>stored\<close> the static before them.\<close>

definition attempt_ids_are_monotonic :: "nat \<Rightarrow> nat \<Rightarrow> u64 \<Rightarrow> bool" where
  "attempt_ids_are_monotonic first_ms second_ms stored \<longleftrightarrow>
     (let (first_id, stored) = next_attempt_id first_ms stored;
          (second_id, stored) = next_attempt_id second_ms stored
      in first_id < second_id)"

definition very_short_durations_are_readable :: "(duration \<Rightarrow> string) \<Rightarrow> bool" where
  "very_short_durations_are_readable secs1 \<longleftrightarrow> format_duration secs1 0 = ''<10 ms''"

definition umbrella_dns_failure_has_helpful_heading :: bool where
  "umbrella_dns_failure_has_helpful_heading \<longleftrightarrow>
     (let failure = wake_failure_new Connect ''network error: WireGuard endpoint DNS for example.myfritz.net:51820 resolved to 146.112.61.104, which is a Cisco Umbrella/OpenDNS block-page address.''
      in friendly_failure_message failure = ''Network DNS is blocking the WireGuard endpoint'')"

definition ordinary_dns_failure_has_helpful_heading :: bool where
  "ordinary_dns_failure_has_helpful_heading \<longleftrightarrow>
     (let failure = wake_failure_new Connect ''network error: WireGuard endpoint DNS lookup failed for example.myfritz.net:51820''
      in friendly_failure_message failure = ''Could not resolve the WireGuard endpoint'')"

section \<open>The application\<close>

definition app_default :: "(string \<Rightarrow> string option) \<Rightarrow> machine \<Rightarrow> waker_app" where
  "app_default env m = app_new env \<lparr>di_log_dir = None, di_warning = None\<rparr> None m"

definition test_failure :: wake_state where
  "test_failure = Core_Types.Failed (wake_failure_new Timeout ''test failure'')"

definition wake_button_contains_the_primary_status :: "waker_app \<Rightarrow> bool" where
  "wake_button_contains_the_primary_status app \<longleftrightarrow>
     wake_button_label app = ''Wake'' \<and>
     wake_button_label (app\<lparr>wa_state := Connecting\<rparr>) = ''Connecting'' @ ellipsis \<and>
     wake_button_label (app\<lparr>wa_state := ResolvingPc\<rparr>) = ''Finding PC'' @ ellipsis \<and>
     wake_button_label (app\<lparr>wa_state := Waking\<rparr>) = ''Sending wake request'' @ ellipsis \<and>
     wake_button_label (app\<lparr>wa_state := WaitingForPc 42\<rparr>) = ''Waiting for PC'' @ ellipsis \<and>
     wake_button_label (app\<lparr>wa_state := Awake\<rparr>) = ''PC awake!'' \<and>
     wake_button_label (app\<lparr>wa_state := test_failure\<rparr>) = ''Wake''"

definition diagnostic_results_are_repeatable_and_expire_visually :: "instant \<Rightarrow> waker_app \<Rightarrow> bool" where
  "diagnostic_results_are_repeatable_and_expire_visually t app \<longleftrightarrow>
     (let app = app\<lparr>wa_host_status := Some (Ok True),
            wa_host_status_deadline := Some (t + terminal_state_display_duration),
            wa_ping_status := Some (Ok False),
            wa_ping_status_deadline := Some (t + terminal_state_display_duration)\<rparr>;
          labels = (host_status_button_label app = ''PC online'' \<and> ping_button_label app = ''No ICMP reply'');
          enabled = diagnostic_action_enabled app;
          (next_repaint, app) = update_diagnostic_result_timeouts t app;
          (after, app) = update_diagnostic_result_timeouts (t + terminal_state_display_duration) app
      in labels \<and> enabled \<and> next_repaint = Some terminal_state_display_duration \<and> after = None \<and>
         host_status_button_label app = ''Check PC via FRITZ!Box API'' \<and>
         ping_button_label app = ''Ping PC through tunnel'' \<and>
         wa_host_status app \<noteq> None \<and> wa_ping_status app \<noteq> None)"

definition diagnostic_failures_keep_the_action_label :: "instant \<Rightarrow> waker_app \<Rightarrow> bool" where
  "diagnostic_failures_keep_the_action_label t app \<longleftrightarrow>
     (let app = app\<lparr>wa_host_status := Some (Err ''test failure''),
            wa_host_status_deadline := Some (t + terminal_state_display_duration),
            wa_ping_status := Some (Err ''test failure''),
            wa_ping_status_deadline := Some (t + terminal_state_display_duration)\<rparr>
      in host_status_button_label app = ''Check PC via FRITZ!Box API'' \<and>
         ping_button_label app = ''Ping PC through tunnel'' \<and> diagnostic_action_enabled app)"

definition terminal_wake_states_expire_after_five_seconds :: "instant \<Rightarrow> waker_app \<Rightarrow> bool" where
  "terminal_wake_states_expire_after_five_seconds t fresh \<longleftrightarrow>
     list_all (\<lambda>st.
       let app = fresh\<lparr>wa_state := st, wa_terminal_deadline := Some (t + terminal_state_display_duration)\<rparr>;
           (first_repaint, app) = update_terminal_state_timeout t app;
           shown = (wa_state app \<noteq> Idle);
           (second_repaint, app) = update_terminal_state_timeout (t + terminal_state_display_duration) app
       in first_repaint = Some terminal_state_display_duration \<and> shown \<and> second_repaint = None \<and>
          wa_state app = Idle \<and> wa_terminal_deadline app = None) [Awake, test_failure]"

text \<open>An attempt that started just now.\<close>

definition attempt_42 :: "machine \<Rightarrow> active_attempt \<times> machine" where
  "attempt_42 m = (let (t, m) = now m in (\<lparr>aa_id = 42, aa_started = t\<rparr>, m))"

definition finishing_successful_wake_attempt_schedules_reset_and_confetti :: "app_sys \<Rightarrow> bool" where
  "finishing_successful_wake_attempt_schedules_reset_and_confetti s \<longleftrightarrow>
     (let (app, m) = s; (active, m) = attempt_42 m;
          (app, m) = finish_attempt (app\<lparr>wa_state := Awake, wa_active := Some active\<rparr>, m)
      in wa_last app \<noteq> None \<and> wa_terminal_deadline app \<noteq> None \<and> wa_confetti_pending app \<and>
         wa_confetti app = None)"

definition finishing_failed_wake_attempt_does_not_schedule_confetti :: "app_sys \<Rightarrow> bool" where
  "finishing_failed_wake_attempt_does_not_schedule_confetti s \<longleftrightarrow>
     (let (app, m) = s; (active, m) = attempt_42 m;
          (app, m) = finish_attempt (app\<lparr>wa_state := test_failure, wa_active := Some active\<rparr>, m)
      in wa_last app \<noteq> None \<and> wa_terminal_deadline app \<noteq> None \<and> \<not> wa_confetti_pending app \<and>
         wa_confetti app = None)"

definition disconnected_worker_becomes_runtime_failure :: "app_sys \<Rightarrow> bool" where
  "disconnected_worker_becomes_runtime_failure s \<longleftrightarrow>
     (let (app, m) = s; (n, m) = new_state_channel m;
          (app, m) = set_state_rx (Some n) (app, on_states drop_senders n m);
          app = app\<lparr>wa_state := Connecting, wa_busy := True\<rparr>;
          (active, m) = attempt_42 m;
          (app, m) = drain_state_updates (app\<lparr>wa_active := Some active\<rparr>, m)
      in \<not> wa_busy app \<and>
         (case wa_state app of Core_Types.Failed f \<Rightarrow> stage f = Runtime | _ \<Rightarrow> False) \<and>
         wa_last app \<noteq> None \<and> wa_active app = None)"

definition copied_diagnostics_include_host_status :: "(duration \<Rightarrow> string) \<Rightarrow> waker_app \<Rightarrow> bool" where
  "copied_diagnostics_include_host_status secs1 app \<longleftrightarrow>
     contains (diagnostics_bundle secs1 (app\<lparr>wa_host_status := Some (Ok False)\<rparr>) ''log tail'')
       ''FRITZ!Box host status: offline''"

definition copied_diagnostics_include_icmp_ping_status :: "(duration \<Rightarrow> string) \<Rightarrow> waker_app \<Rightarrow> bool" where
  "copied_diagnostics_include_icmp_ping_status secs1 app \<longleftrightarrow>
     contains (diagnostics_bundle secs1 (app\<lparr>wa_ping_status := Some (Ok True)\<rparr>) ''log tail'')
       ''PC ICMP ping: reply received''"

section \<open>They pass\<close>

lemma split_on_at: "split_on c (a @ c # b) = split_on c a @ split_on c b"
  by (induction a) (auto split: list.splits)

lemma components_after_separator: "path_ends_with (base @ CHR ''/'' # ''profile.conf'') ''profile.conf''"
proof -
  have "split_on CHR ''/'' ''profile.conf'' = [''profile.conf'']" "path_components ''profile.conf'' = [''profile.conf'']"
    by code_simp+
  then show ?thesis
    unfolding path_ends_with_def path_components_def Let_def split_on_at
    by (simp add: suffix_def)
qed

lemma joined_ends_with: "path_ends_with (path_join h ''profile.conf'') ''profile.conf''"
proof -
  have p: "\<not> starts_with ''profile.conf'' ''/''" "path_ends_with ''profile.conf'' ''profile.conf''"
    by code_simp+
  consider "h = []" | b where "h = b @ ''/''" | "h \<noteq> []" "last h \<noteq> CHR ''/''"
    by (metis append_butlast_last_id)
  then show ?thesis
  proof cases
    case 2
    then show ?thesis using p(1) components_after_separator [of b] by (simp add: path_join_def)
  qed (use p components_after_separator [of h] in \<open>simp_all add: path_join_def\<close>)
qed

lemma home_test: "expands_home_prefix home"
proof -
  have "strip_prefix ''~/'' ''~/profile.conf'' = Some ''profile.conf''" by code_simp
  then show ?thesis
    using components_after_separator [of "''~''"] joined_ends_with
    by (cases home) (simp_all add: expands_home_prefix_def expand_home_def)
qed

lemma sanitized_sample:
  "sanitize_diagnostics (''ok'' @ [nl] @ ''PrivateKey = secret'' @ [nl] @ ''preshared_key=also-secret'' @ [nl] @
     ''has_preshared_key=true'' @ [nl] @ ''still ok'') =
   ''ok'' @ [nl] @ ''[REDACTED credential line]'' @ [nl] @ ''[REDACTED credential line]'' @ [nl] @
     ''has_preshared_key=true'' @ [nl] @ ''still ok''"
  by code_simp

lemma redaction_test: "copied_diagnostics_redact_wireguard_secret_fields"
  unfolding copied_diagnostics_redact_wireguard_secret_fields_def sanitized_sample Let_def
  by code_simp

lemma text_tests:
  "parses_waker_fields_from_combined_profile" "text_log_uri_percent_encodes_content"
  "umbrella_dns_failure_has_helpful_heading" "ordinary_dns_failure_has_helpful_heading"
  by code_simp+

lemma duration_test: "very_short_durations_are_readable secs1"
  by (simp add: very_short_durations_are_readable_def format_duration_def as_millis_def)

lemma ids_test:
  assumes "first_ms < 2 ^ 64 - 1" "unat stored < 2 ^ 64 - 2"
  shows "attempt_ids_are_monotonic first_ms second_ms stored"
proof -
  let ?i = "fst (next_attempt_id first_ms stored)"
  have "unat (saturating_add stored 1) < 2 ^ 64 - 1"
    using assms(2) by (simp add: unat_saturating_add)
  moreover have "unat (word_of_nat first_ms :: u64) < 2 ^ 64 - 1"
    using assms(1) by (simp add: unat_of_nat)
  ultimately have "unat ?i < 2 ^ 64 - 1"
    using assms(1) by (simp add: next_attempt_id_def Let_def max_def)
  then have "?i < - 1"
    by (simp add: word_less_nat_alt unsigned_minus_1_eq_mask mask_eq_exp_minus_1)
  then show ?thesis
    using next_attempt_id_above [of ?i second_ms] next_attempt_id_stored [of first_ms stored]
    by (auto simp: attempt_ids_are_monotonic_def split_beta Let_def)
qed

lemmas app_tests_eval = app_default_def app_new_def Let_def test_failure_def wake_failure_new_def
  terminal_state_display_duration_def from_secs_def

lemma label_tests:
  "wake_button_contains_the_primary_status (app_default env m)"
  "diagnostic_results_are_repeatable_and_expire_visually t (app_default env m)"
  "diagnostic_failures_keep_the_action_label t (app_default env m)"
  "terminal_wake_states_expire_after_five_seconds t (app_default env m)"
  by (simp_all add: wake_button_contains_the_primary_status_def wake_button_label_def
    diagnostic_results_are_repeatable_and_expire_visually_def host_status_button_label_def
    ping_button_label_def diagnostic_action_enabled_def update_diagnostic_result_timeouts_def
    deadline_turn_def diagnostic_failures_keep_the_action_label_def
    terminal_wake_states_expire_after_five_seconds_def update_terminal_state_timeout_def app_tests_eval)

lemma attempt_tests:
  "finishing_successful_wake_attempt_schedules_reset_and_confetti (app_default env m, m)"
  "finishing_failed_wake_attempt_does_not_schedule_confetti (app_default env m, m)"
  by (simp_all add: finishing_successful_wake_attempt_schedules_reset_and_confetti_def
    finishing_failed_wake_attempt_does_not_schedule_confetti_def attempt_42_def finish_attempt_def
    app_tests_eval split_beta)

lemma disconnected_test: "disconnected_worker_becomes_runtime_failure (app_default env m, m)"
  by (simp add: disconnected_worker_becomes_runtime_failure_def attempt_42_def finish_attempt_def
    new_state_channel_def set_state_rx_def on_states_def drop_senders_def drain_state_updates_def
    drain_states.simps try_recv_def new_channel_def worker_stopped_def now_def ask_def drop_receiver_def
    app_tests_eval split_beta)

lemma bundle_samples:
  "contains (sanitize_diagnostics (''Waker diagnostics'' @ [nl] @ ''FRITZ!Box host status: '' @ ''offline'' @ [nl, nl] @ ''log tail''))
     ''FRITZ!Box host status: offline''"
  "contains (sanitize_diagnostics (''Waker diagnostics'' @ [nl] @ ''PC ICMP ping: '' @ ''reply received'' @ [nl, nl] @ ''log tail''))
     ''PC ICMP ping: reply received''"
  by code_simp+

lemma bundle_tests:
  "copied_diagnostics_include_host_status secs1 (app_default env m)"
  "copied_diagnostics_include_icmp_ping_status secs1 (app_default env m)"
  using bundle_samples
  by (simp_all add: copied_diagnostics_include_host_status_def copied_diagnostics_include_icmp_ping_status_def
    diagnostics_bundle_def app_tests_eval)

text \<open>\<^bold>\<open>the application's tests\<close>. The unit tests of \<open>waker-app/src/lib.rs\<close> pass in every
  environment, on every machine and at every time, whatever the home directory; the one on attempt
  numbers as long as the clock and the last number are below the largest 64-bit number.\<close>

theorem app_tests_pass:
  assumes "first_ms < 2 ^ 64 - 1" "unat stored < 2 ^ 64 - 2"
  shows "expands_home_prefix home \<and> parses_waker_fields_from_combined_profile \<and>
    copied_diagnostics_redact_wireguard_secret_fields \<and> text_log_uri_percent_encodes_content \<and>
    attempt_ids_are_monotonic first_ms second_ms stored \<and> very_short_durations_are_readable secs1 \<and>
    wake_button_contains_the_primary_status (app_default env m) \<and>
    diagnostic_results_are_repeatable_and_expire_visually t (app_default env m) \<and>
    diagnostic_failures_keep_the_action_label t (app_default env m) \<and>
    terminal_wake_states_expire_after_five_seconds t (app_default env m) \<and>
    finishing_successful_wake_attempt_schedules_reset_and_confetti (app_default env m, m) \<and>
    finishing_failed_wake_attempt_does_not_schedule_confetti (app_default env m, m) \<and>
    disconnected_worker_becomes_runtime_failure (app_default env m, m) \<and>
    copied_diagnostics_include_host_status secs1 (app_default env m) \<and>
    umbrella_dns_failure_has_helpful_heading \<and> ordinary_dns_failure_has_helpful_heading \<and>
    copied_diagnostics_include_icmp_ping_status secs1 (app_default env m)"
  by (intro conjI home_test text_tests redaction_test ids_test [OF assms] duration_test label_tests
    attempt_tests disconnected_test bundle_tests)

theorem app_tests_pass_witness:
  "attempt_ids_are_monotonic 1700000000000 1700000000000 0 \<and> expands_home_prefix (Some ''/home/me'')"
proof -
  have "(1700000000000 :: nat) < 2 ^ 64 - 1" "unat (0 :: u64) < 2 ^ 64 - 2" by simp_all
  from app_tests_pass [OF this] show ?thesis by blast
qed

section \<open>The filter of the log\<close>

text \<open>The test of \<open>diagnostics.rs\<close>; \<open>would_enable\<close> is the one of \<open>tracing_subscriber\<close>'s \<open>Targets\<close>.\<close>

definition safe_target_filter_does_not_enable_third_party_targets :: "(targets \<Rightarrow> string \<Rightarrow> level \<Rightarrow> bool) \<Rightarrow> bool" where
  "safe_target_filter_does_not_enable_third_party_targets would_enable \<longleftrightarrow>
     (let filtered = safe_targets TRACE
      in would_enable filtered ''waker_net'' TRACE \<and> \<not> would_enable filtered ''gotatun'' ERROR)"

text \<open>
  Its documentation: of the directives whose target is a prefix of the one asked for, the most specific
  one decides, and without one nothing is enabled.
\<close>

definition documented_targets :: "(targets \<Rightarrow> string \<Rightarrow> level \<Rightarrow> bool) \<Rightarrow> bool" where
  "documented_targets would_enable \<longleftrightarrow>
     (\<forall>ts t l. would_enable ts t l \<longleftrightarrow>
        (\<exists>d \<in> set ts. starts_with t (fst d) \<and> l \<le> snd d \<and>
           (\<forall>d' \<in> set ts. starts_with t (fst d') \<longrightarrow> length (fst d') \<le> length (fst d))))"

text \<open>\<^bold>\<open>what is logged\<close>. Under a filter of the program's, a target is logged just if it begins with the name
  of one of the three crates and its level is within the chosen one; so the test passes.\<close>

theorem filter_keeps_own_targets:
  assumes "documented_targets would_enable"
  shows "(would_enable (safe_targets l) t k \<longleftrightarrow>
      k \<le> l \<and> (starts_with t ''waker_app'' \<or> starts_with t ''waker_core'' \<or> starts_with t ''waker_net'')) \<and>
    safe_target_filter_does_not_enable_third_party_targets would_enable"
proof -
  have w: "would_enable ts t l \<longleftrightarrow>
      (\<exists>d \<in> set ts. starts_with t (fst d) \<and> l \<le> snd d \<and>
         (\<forall>d' \<in> set ts. starts_with t (fst d') \<longrightarrow> length (fst d') \<le> length (fst d)))" for ts t l
    using assms by (simp add: documented_targets_def)
  have one: "\<not> (starts_with t ''waker_app'' \<and> starts_with t ''waker_net'')" "\<not> (starts_with t ''waker_app'' \<and> starts_with t ''waker_core'')"
    "\<not> (starts_with t ''waker_core'' \<and> starts_with t ''waker_net'')" for t
    by (auto simp: starts_with_def prefix_def)
  have all: "would_enable (safe_targets l) t k \<longleftrightarrow>
      k \<le> l \<and> (starts_with t ''waker_app'' \<or> starts_with t ''waker_core'' \<or> starts_with t ''waker_net'')" for l t k
    unfolding w safe_targets_def using one [of t] by auto
  have "starts_with ''waker_net'' ''waker_net''" "\<not> starts_with ''gotatun'' ''waker_app''"
    "\<not> starts_with ''gotatun'' ''waker_core''" "\<not> starts_with ''gotatun'' ''waker_net''" by code_simp+
  with all show ?thesis
    by (simp add: safe_target_filter_does_not_enable_third_party_targets_def)
qed

theorem filter_keeps_own_targets_witness:
  "safe_target_filter_does_not_enable_third_party_targets (\<lambda>ts t l.
     \<exists>d \<in> set ts. starts_with t (fst d) \<and> l \<le> snd d \<and>
       (\<forall>d' \<in> set ts. starts_with t (fst d') \<longrightarrow> length (fst d') \<le> length (fst d)))"
  by (rule filter_keeps_own_targets [THEN conjunct2]) (simp add: documented_targets_def)

end
