(* ===== verification/Spec2Isabelle.thy ===== *)
theory Spec2Isabelle
  imports Run_Wake Profile Dns_Guard Lab_Main Lab_Wake Lab_App Lab_Test Tunnel Packet_Path Backend App_Text Utf16 App_Checks App_Progress
    Desktop_Main Android_Main Android_Screen Android_Jni Android_Chrome Drawing Tests_Net Tests_App
begin

text \<open>
  \<^bold>\<open>Waker: a verification development.\<close>

  Waker wakes a PC at home: it brings up a private WireGuard tunnel to a FRITZ!Box in user space, asks
  the router over SOAP for the PC's address, has it send a Wake-on-LAN packet, and pings the PC until it
  answers. \<open>crates/waker-core\<close> holds the wake state machine, \<open>crates/waker-net\<close> the tunnel and
  the router's protocol, \<open>crates/waker-app\<close> the application for the desktop and Android, and
  \<open>crates/waker-lab\<close> a fake router for tests. The application starts one worker thread per attempt or
  check; the worker runs \<open>run_wake\<close>, or a check, over the WireGuard backend, whose tunnel client calls
  an engine of TCP and ICMP sockets; the worker's reports come back over a channel that each frame of the
  user interface drains. On Android an activity loop of the program's own drives the frames.

  \<^bold>\<open>Theories.\<close>
    \<^item> \<open>Prelude\<close>, \<open>Rust_Str\<close>, \<open>Rust_Text\<close>, \<open>Ip_Addr\<close>: results as sums with the error on the
      left, machine words, durations and instants as nanoseconds, and the parts of Rust's text and
      address libraries that the program uses. A text is the list of its UTF-8 bytes.
    \<^item> \<open>Core_Types\<close>, \<open>Run_Wake\<close>: \<open>waker-core/src/lib.rs\<close>. The trait \<open>WakeBackend\<close> is a record of
      functions over an arbitrary world, \<open>run_wake\<close> passes that world along. \<open>traced\<close> adds a log of
      the calls, and the protocol of an attempt is an automaton on that log.
    \<^item> \<open>Profile\<close>, \<open>Dns_Guard\<close>, \<open>Fritz_Soap\<close>, \<open>Tunnel\<close>, \<open>Packet_Path\<close>, \<open>Backend\<close>:
      \<open>waker-net/src/lib.rs\<close>, from the profile parser over the endpoint's resolution, the SOAP requests
      and responses, the engine and its client, and the packet adapters, to \<open>WakerWireGuardBackend\<close>.
    \<^item> \<open>Lab\<close>, \<open>Lab_Main\<close>: \<open>waker-lab/src/main.rs\<close>, its connections and its \<open>main\<close>, and its agreement with the
      client of \<open>Fritz_Soap\<close>. \<open>Lab_Wake\<close> runs a wake attempt of \<open>Backend\<close> against it, \<open>Lab_App\<close> the application.
    \<^item> \<open>Channel\<close>: the channels of the standard library and tokio, with the contract of their users.
    \<^item> \<open>App_Text\<close>, \<open>App_State\<close>, \<open>App_Ui\<close>, \<open>App_Workers\<close>: \<open>waker-app/src/lib.rs\<close>. \<open>waker_app\<close> is
      \<open>WakerApp\<close>; \<open>machine\<close> is what it shares with its threads and the system; \<open>show_ui\<close> is one frame;
      \<open>app_step\<close> interleaves frames, workers and changes of files.
    \<^item> \<open>App_Invariant\<close>, \<open>App_System\<close>, \<open>App_Checks\<close>, \<open>App_Jobs\<close>, \<open>App_Progress\<close>: what holds of the application.
    \<^item> \<open>Diagnostics\<close>: \<open>waker-app/src/diagnostics.rs\<close>, log level, persistent log, tail of the log.
    \<^item> \<open>Desktop_Main\<close>: \<open>main\<close> and \<open>run_desktop\<close>, from the log over the window to the end, as a step
      relation around \<open>app_step\<close>.
    \<^item> \<open>Utf16\<close>, \<open>Android_Input\<close>, \<open>Android_Gpu\<close>, \<open>Android_Main\<close>: \<open>waker-app/src/android.rs\<close>, text
      indices, touches, keys and text input, the render surface, and the loop of \<open>android_main\<close>.
      \<open>Android_Screen\<close> gives its lengths in points, an arbitrary type there, as single-precision numbers.
    \<^item> \<open>F32\<close>, \<open>Drawing\<close>: the rounding of \<open>f32\<close>, and what \<open>waker-app/src/lib.rs\<close> draws itself with it: the
      confetti, the background and the logo.
    \<^item> \<open>Android_Jni\<close>, \<open>Android_Chrome\<close>: the rest of \<open>waker-app/src/lib.rs\<close> that is Android's, the calls into
      Java and the rectangles behind the system bars.
    \<^item> \<open>Tests_Net\<close>, \<open>Tests_App\<close>, \<open>Lab_Test\<close>: the unit tests of the three crates and the end-to-end test of
      \<open>waker-net/tests/local_lab.rs\<close> as predicates over the definitions above, and theorems that they pass.

  \<^bold>\<open>What is shown.\<close> An attempt keeps to its protocol and reports its steps in order, reports success exactly
  when it succeeds, right after a positive probe, sends the wake request at most once and always disconnects last;
  over the WireGuard backend it ends, leaves no device behind, and success means that the router accepted exactly
  the right request and that the PC answered after that. Engine commands are exact and bounded. Parsers have round
  trips and exact domains, and a parsed profile holds only what the file says. In the application at most one job
  has anything left to report, no attempt hangs once its worker is gone, the result shown is the worker's and a
  check's, each for its time, checks never wake, and what leaves the application is redacted. The Android loop runs
  this application, tells egui of one pointer, sends Android's own text back only when egui's selection is not
  Android's, runs every frame asked for while it has a surface, and draws only on configured surfaces. What
  goes into Java is redacted as well, and a copy is reported exactly when Java made it. On the desktop the log
  is open as long as the window and closed after it. The lab answers the client's requests, and a click against
  it ends with \<open>Awake\<close> in the window exactly if the PC starts in time; other connections of the lab, those whose
  task panics included, do not disturb a lookup. The property of this theory
  spans them: what \<open>Awake\<close> on the screen says of the network. The unit tests of the source hold of
  the model, which is a check of the model rather than of the program.

  \<^bold>\<open>Interfaces.\<close> Locales state what one part relies on in another: \<open>wake_clock\<close>, \<open>wake_waiting\<close>,
  \<open>wake_progress\<close> and \<open>wake_invariant\<close> (\<open>Run_Wake\<close>) are contracts of a backend, met by \<open>Backend\<close>; \<open>event_class\<close>
  (\<open>Backend\<close>) is met by the socket events and by the events that send only given requests;
  \<open>message_path\<close> (\<open>Channel\<close>) by the channels and both directions of \<open>Packet_Path\<close>;
  \<open>diagnostic_check\<close> (\<open>App_Checks\<close>) by both checks; \<open>frame_invariant\<close> (\<open>App_System\<close>) by both invariants
  of the application.

  \<^bold>\<open>The outside.\<close> \<open>outside\<close> (\<open>Tunnel\<close>) answers every look at
  smoltcp, gotatun, tokio and the resolver with the next observation of an arbitrary feed and logs what the
  program does; nothing is assumed of the feed. A worker's reports are fixed when it starts, against an
  arbitrary feed, and then reach its channel one by one at any time, or not at all if the thread dies. The
  application's loop over \<open>try_recv\<close> runs on the channel as it is then: a report sent meanwhile is
  in the queue before its last look, or for the next frame. Clocks, files, sockets, thread starts, eframe, egui,
  wgpu, the key maps, the image decoder and the Java virtual machine answer through parameters. Base64, network
  prefixes, the display of decimals and \<open>Debug\<close>'s wide characters are parameters, too.

  \<^bold>\<open>Loops.\<close> \<open>wake_loop\<close> is a partial function, \<open>None\<close> being a loop that never ends; \<open>backend_run_wake_ends\<close>
  shows that it ends over the WireGuard backend. The engine's loops end at their deadline, since each turn
  sleeps; no fuel is used. Other loops follow their data.

  \<^bold>\<open>Numbers.\<close> Words keep their width. The addition of a \<open>usize\<close> that a client names, in
  the lab's framing, is \<open>usize_add\<close>, which panics as in the development profile that \<open>docs/LAB.md\<close> runs the lab in.
  \<open>F32\<close> rounds to nearest, ties to even, with 24 bits and subnormals; infinities are left out.

  \<^bold>\<open>Not modelled.\<close> Where egui puts its widgets. The Java log viewer, which only calls Android; log messages
  but the line of a state; build scripts; overflow of \<open>Instant\<close>, which the program's durations do not reach and egui's delays are taken not to;
  memory and the data races that Rust excludes.
\<close>

section \<open>From the screen to the network\<close>

lemma build_job_mac: "build_job C a m = Ok job \<Longrightarrow> target_mac (wj_target job) = fj_mac (wj_fritz job)"
  by (auto simp: build_job_def wake_target_new_def result_simps)

text \<open>C5: \<^bold>\<open>awake means awake\<close>. When a click starts an attempt in any reachable state and the
  application ends up showing \<open>Awake\<close>, then on the network its worker ran in, the FRITZ!Box of the
  settings was asked for the host entry of the MAC address of the settings, was then sent exactly the
  Wake-on-LAN request for it and accepted it, and an echo reply came from the address it had named.\<close>

theorem awake_is_founded:
  assumes "reachable P (a, m, ths)" "wake_enabled a"
    and "begin_wake (ap_codecs P) (a, m) = (a1, m1)" "wa_busy a1"
    and "start_worker (ap_wide P) (Ok ()) v (last (mc_workers m1)) = Some (WakeThread n (concat batches))"
    and "frames_between n batches (a1, m1) = (a2, m2)"
    and awake: "wa_state a2 = Awake"
  shows "\<exists>job v'. build_job (ap_codecs P) a m = Ok job \<and>
    wake_worker (ap_wide P) (Ok ()) job v = Some (concat batches, v') \<and>
    wake_founded (ap_wide P) (fj_fritz_ip (wj_fritz job)) (fj_mac (wj_fritz job)) v v'"
proof -
  obtain job r b v' where job: "build_job (ap_codecs P) a m = Ok job" and
    run: "run_wake (backend_env (ap_wide P)) (wj_target job)
      ((backend_new (fj_profile (wj_fritz job)) (fj_fritz_ip (wj_fritz job)), v), []) = Some (r, (b, v'), concat batches)" and
    r: "final_state r = Awake"
    using attempt_concludes [OF assms(1-6)] awake by auto
  have ok: "r = Ok ()" using r by (cases r) simp_all
  have "wake_worker (ap_wide P) (Ok ()) job v = Some (concat batches, v')"
    using run by (simp add: wake_worker_def Let_def)
  moreover have "wake_founded (ap_wide P) (fj_fritz_ip (wj_fritz job)) (fj_mac (wj_fritz job)) v v'"
    using success_founded [OF run [unfolded ok]] by (simp add: backend_new_def build_job_mac [OF job])
  ultimately show ?thesis using job by blast
qed

theorem awake_is_founded_witness:
  "\<exists>a1 m1 sts a2 m2 v'. begin_wake plain_codecs (test_app, test_machine) = (a1, m1) \<and>
     frames_between 0 [sts] (a1, m1) = (a2, m2) \<and> wa_state a2 = Awake \<and>
     wake_founded id (Ipv4 192 168 178 1) test_mac good_world v'"
proof -
  obtain a1 m1 i where b: "begin_wake plain_codecs (test_app, test_machine) = (a1, m1)" "wa_busy a1"
    "mc_workers m1 = [WakeWorker test_job i 0]"
    using test_begin [of test_app test_machine] by (auto simp: test_app_fields test_machine_def)
  have same: "test_backend = backend_new (fj_profile (wj_fritz test_job)) (fj_fritz_ip (wj_fritz test_job))"
    by (simp add: test_backend_def test_job_def sample_profile_def)
  obtain bk w sts where good: "run_wake (backend_env id) (wj_target test_job) ((test_backend, good_world), []) = Some (Ok (), (bk, w), sts)"
    using good_run by (auto simp: test_job_def)
  then have runs: "start_worker (ap_wide test_params) (Ok ()) good_world (last (mc_workers m1)) = Some (WakeThread 0 (concat [sts]))"
    by (simp add: b(3) start_worker_def test_params_def wake_worker_def same Let_def)
  obtain a2 m2 where fr: "frames_between 0 [sts] (a1, m1) = (a2, m2)" by (metis prod.collapse)
  have P: "ap_codecs test_params = plain_codecs" "ap_wide test_params = id" by (simp_all add: test_params_def)
  have b': "begin_wake (ap_codecs test_params) (test_app, test_machine) = (a1, m1)" using b(1) by (simp add: P)
  have job: "build_job plain_codecs test_app test_machine = Ok test_job" by (simp add: test_build test_app_fields)
  have awake: "wa_state a2 = Awake"
    using attempt_concludes [OF test_reachable test_enabled(1) b' b(2) runs fr] good by (auto simp: P job same)
  from awake_is_founded [OF test_reachable test_enabled(1) b' b(2) runs fr awake]
  have "\<exists>v'. wake_founded id (Ipv4 192 168 178 1) test_mac good_world v'" by (auto simp: P job test_job_def)
  then show ?thesis using b(1) fr awake by blast
qed

end
